(* ===== verification/Prelude.thy ===== *)
theory Prelude
  imports Main "HOL-Library.Word" "HOL-Library.State_Monad"
begin

text \<open>
  Shared vocabulary of the development.

  \<^item> Machine integers: \<^verbatim>\<open>u8\<close>, \<^verbatim>\<open>u16\<close> as words.
  \<^item> Fallible results: \<open>('e, 'a) outcome\<close> has one constructor for each way a Rust
    function of the program can end: \<open>Ok\<close>, \<open>Err\<close>, or \<open>Panic\<close> with the message of the
    failed \<^verbatim>\<open>expect\<close> or slice index.
  \<^item> The operating system: subprocesses are the program's only access to routes, addresses
    and resolvers.  A command is the program name, its arguments and the text written to its
    standard input (\<open>cmd\<close>); what came back is a \<open>cmd_result\<close>.  The operating system
    itself is a parameter, a function \<open>run :: cmd \<Rightarrow> 'w \<Rightarrow> cmd_result \<times> 'w\<close> on an
    unknown world \<open>'w\<close>; the state \<open>'w sys\<close> pairs the world with the log of the commands
    issued so far, in order.  Code is written in the library's state monad over \<open>'w sys\<close>.
  \<^item> The functions of Rust's standard library on strings that the program calls.
    Rust's \<^verbatim>\<open>String\<close> is modelled by \<open>string\<close>; white space is ASCII white space.
\<close>

named_theorems exec_defs \<open>the single-command operations, unfolded when a program is run\<close>

named_theorems log_intros \<open>how each operation extends the log of commands\<close>

type_synonym u8 = "8 word"
type_synonym u16 = "16 word"

section \<open>Results\<close>

datatype ('e, 'a) outcome = Ok 'a | Err 'e | Panic string

fun map_err :: "('e \<Rightarrow> 'f) \<Rightarrow> ('e, 'a) outcome \<Rightarrow> ('f, 'a) outcome" where
  "map_err f (Ok a) = Ok a"
| "map_err f (Err e) = Err (f e)"
| "map_err f (Panic m) = Panic m"

fun bind_outcome :: "('e, 'a) outcome \<Rightarrow> ('a \<Rightarrow> ('e, 'b) outcome) \<Rightarrow> ('e, 'b) outcome" where
  "bind_outcome (Ok a) f = f a"
| "bind_outcome (Err e) f = Err e"
| "bind_outcome (Panic m) f = Panic m"

text \<open>The question mark operator inside stateful code: go on with the value, or leave early.\<close>

definition and_then ::
  "('s, ('e, 'a) outcome) state \<Rightarrow> ('a \<Rightarrow> ('s, ('e, 'b) outcome) state)
     \<Rightarrow> ('s, ('e, 'b) outcome) state" where
  "and_then m f = do {
     r \<leftarrow> m;
     (case r of Ok a \<Rightarrow> f a
              | Err e \<Rightarrow> State_Monad.return (Err e)
              | Panic msg \<Rightarrow> State_Monad.return (Panic msg))
   }"

lemma bind_outcome_Ok [simp]:
  "bind_outcome m f = Ok b \<longleftrightarrow> (\<exists>a. m = Ok a \<and> f a = Ok b)"
  by (cases m) auto

lemma bind_outcome_Panic:
  "bind_outcome m f = Panic x \<longleftrightarrow> m = Panic x \<or> (\<exists>a. m = Ok a \<and> f a = Panic x)"
  by (cases m) auto

lemma map_err_Ok [simp]: "map_err f m = Ok a \<longleftrightarrow> m = Ok a"
  by (cases m) auto

lemma run_and_then:
  "run_state (and_then m f) s =
     (case run_state m s of
        (Ok a, s') \<Rightarrow> run_state (f a) s'
      | (Err e, s') \<Rightarrow> (Err e, s')
      | (Panic msg, s') \<Rightarrow> (Panic msg, s'))"
  by (auto simp: and_then_def split: prod.split outcome.split)

section \<open>Subprocesses and the log\<close>

record cmd =
  prog :: string
  args :: "string list"
  stdin :: string

datatype cmd_result =
    SpawnFailed
  | WriteFailed
  | WaitFailed
  | Exited bool string  \<comment> \<open>did the status report success, and the text on standard output\<close>

fun succeeded :: "cmd_result \<Rightarrow> bool" where
  "succeeded (Exited ok out) = ok"
| "succeeded _ = False"

type_synonym 'w os = "cmd \<Rightarrow> 'w \<Rightarrow> cmd_result \<times> 'w"

record 'w sys =
  cmd_log :: "(cmd \<times> cmd_result) list"
  world :: 'w

definition exec :: "'w os \<Rightarrow> cmd \<Rightarrow> ('w sys, cmd_result) state" where
  "exec run c = State (\<lambda>s. case run c (world s) of (r, w') \<Rightarrow>
     (r, s\<lparr>cmd_log := cmd_log s @ [(c, r)], world := w'\<rparr>))"

lemma run_exec [simp]:
  "run_state (exec run c) s =
     (fst (run c (world s)),
      s\<lparr>cmd_log := cmd_log s @ [(c, fst (run c (world s)))], world := snd (run c (world s))\<rparr>)"
  by (simp add: exec_def case_prod_beta)

text \<open>
  A program keeps a predicate of the state when every run of it does.  The rules below carry
  such a fact through sequencing and branching, so an invariant of a whole operation needs
  only its single commands.
\<close>

definition keeps :: "('s \<Rightarrow> bool) \<Rightarrow> ('s, 'a) state \<Rightarrow> bool" where
  "keeps P m \<longleftrightarrow> (\<forall>s. P s \<longrightarrow> P (snd (run_state m s)))"

lemma keepsI: "(\<And>s. P s \<Longrightarrow> P (snd (run_state m s))) \<Longrightarrow> keeps P m"
  by (simp add: keeps_def)

lemma keepsD: "keeps P m \<Longrightarrow> P s \<Longrightarrow> P (snd (run_state m s))"
  by (simp add: keeps_def)

lemma keeps_return [intro, simp]: "keeps P (State_Monad.return a)"
  by (simp add: keeps_def)

lemma keeps_bind [intro]:
  "keeps P m \<Longrightarrow> (\<And>a. keeps P (f a)) \<Longrightarrow> keeps P (State_Monad.bind m f)"
  by (fastforce simp: keeps_def split: prod.split)

lemma keeps_and_then [intro]:
  "keeps P m \<Longrightarrow> (\<And>a. keeps P (f a)) \<Longrightarrow> keeps P (and_then m f)"
  by (fastforce simp: keeps_def run_and_then split: prod.split outcome.split)

lemma keeps_exec:
  "(\<And>s. P s \<Longrightarrow> P (s\<lparr>cmd_log := cmd_log s @ [(c, fst (run c (world s)))],
                      world := snd (run c (world s))\<rparr>)) \<Longrightarrow> keeps P (exec run c)"
  by (simp add: keeps_def)

text \<open>
  The log only grows.  \<open>grows A m\<close>: whatever \<open>m\<close> appends to the log consists of
  commands satisfying \<open>A\<close>.
\<close>

definition grows :: "(cmd \<Rightarrow> bool) \<Rightarrow> ('w sys, 'a) state \<Rightarrow> bool" where
  "grows A m \<longleftrightarrow> (\<forall>s. \<exists>es. cmd_log (snd (run_state m s)) = cmd_log s @ es
                        \<and> list_all (\<lambda>(c, r). A c) es)"

lemma grows_return [intro, simp, log_intros]: "grows A (State_Monad.return a)"
  by (simp add: grows_def)

lemma grows_exec [intro, log_intros]: "A c \<Longrightarrow> grows A (exec run c)"
  by (simp add: grows_def)

lemma grows_bind [log_intros]:
  assumes "grows A m" and "\<And>a. grows A (f a)"
  shows "grows A (State_Monad.bind m f)"
  unfolding grows_def
proof
  fix s
  obtain a s' where m: "run_state m s = (a, s')" by fastforce
  obtain es where es: "cmd_log s' = cmd_log s @ es" "list_all (\<lambda>(c, r). A c) es"
    using assms(1) m by (force simp: grows_def dest: spec [of _ s])
  obtain fs where "cmd_log (snd (run_state (f a) s')) = cmd_log s' @ fs"
      "list_all (\<lambda>(c, r). A c) fs"
    using assms(2) by (force simp: grows_def)
  with es m show "\<exists>es. cmd_log (snd (run_state (State_Monad.bind m f) s)) = cmd_log s @ es
      \<and> list_all (\<lambda>(c, r). A c) es"
    by (intro exI [of _ "es @ fs"]) simp
qed

lemma grows_mono: "grows A m \<Longrightarrow> (\<And>c. A c \<Longrightarrow> B c) \<Longrightarrow> grows B m"
  unfolding grows_def by (fastforce simp: list_all_iff)

lemma growsE:
  assumes "grows A m" and "run_state m s = (r, s')"
  obtains es where "cmd_log s' = cmd_log s @ es" and "list_all (\<lambda>(c, r). A c) es"
  using assms by (force simp: grows_def dest: spec [of _ s])

section \<open>Strings of the standard library\<close>

definition is_ws :: "char \<Rightarrow> bool" where
  "is_ws c \<longleftrightarrow>
     c \<in> {CHR 0x09, CHR 0x0A, CHR 0x0B, CHR 0x0C, CHR 0x0D, CHR '' ''}"

definition trim_start :: "string \<Rightarrow> string" where
  "trim_start s = dropWhile is_ws s"

definition trim :: "string \<Rightarrow> string" where
  "trim s = rev (dropWhile is_ws (rev (trim_start s)))"

definition strip_prefix :: "string \<Rightarrow> string \<Rightarrow> string option" where
  "strip_prefix p s = (if take (length p) s = p then Some (drop (length p) s) else None)"

text \<open>\<^verbatim>\<open>str::lines\<close>: split after each newline, drop the newline and a carriage return before
  it; a last line without a newline counts when it is not empty.\<close>

fun lines_from :: "string \<Rightarrow> string \<Rightarrow> string list" where
  "lines_from cur [] = (if cur = [] then [] else [rev cur])"
| "lines_from cur (c # cs) =
     (if c = CHR 0x0A
      then rev (case cur of d # ds \<Rightarrow> if d = CHR 0x0D then ds else cur | [] \<Rightarrow> [])
           # lines_from [] cs
      else lines_from (c # cur) cs)"

definition lines :: "string \<Rightarrow> string list" where
  "lines s = lines_from [] s"

fun join :: "string \<Rightarrow> string list \<Rightarrow> string" where
  "join sep [] = []"
| "join sep [x] = x"
| "join sep (x # y # ys) = x @ sep @ join sep (y # ys)"

lemma strip_prefix_append [simp]: "strip_prefix p (p @ s) = Some s"
  by (simp add: strip_prefix_def)

lemma strip_prefix_Some: "strip_prefix p s = Some t \<longleftrightarrow> s = p @ t"
  by (auto simp: strip_prefix_def) (metis append_take_drop_id)

lemma dropWhile_no_ws: "\<forall>c\<in>set s. \<not> is_ws c \<Longrightarrow> dropWhile is_ws s = s"
  by (cases s) auto

lemma trim_no_ws [simp]: "\<forall>c\<in>set s. \<not> is_ws c \<Longrightarrow> trim s = s"
  by (simp add: trim_def trim_start_def dropWhile_no_ws)

lemma trim_start_append_ws:
  "\<forall>c\<in>set p. is_ws c \<Longrightarrow> trim_start (p @ s) = trim_start s"
  unfolding trim_start_def by (rule dropWhile_append2) auto

lemma trim_pad:
  assumes "\<forall>c\<in>set p. is_ws c" and "s \<noteq> []" and "\<not> is_ws (hd s)" and "\<not> is_ws (last s)"
  shows "trim (p @ s) = s"
proof -
  have "trim_start (p @ s) = s"
    using assms(1,2,3) by (cases s) (auto simp: trim_start_append_ws trim_start_def)
  moreover have "dropWhile is_ws (rev s) = rev s"
    using assms(2,4) by (cases s rule: rev_cases) auto
  ultimately show ?thesis by (simp add: trim_def)
qed

lemma trim_ends:
  assumes "trim s \<noteq> []"
  shows "\<not> is_ws (hd (trim s))" and "\<not> is_ws (last (trim s))"
proof -
  let ?t = "dropWhile is_ws s"
  obtain q where q: "trim s @ q = ?t"
    unfolding trim_def trim_start_def
    by (metis rev_append rev_rev_ident takeWhile_dropWhile_id)
  have "?t \<noteq> []" using q assms by force
  then have "\<not> is_ws (hd ?t)" by (rule hd_dropWhile)
  then show "\<not> is_ws (hd (trim s))" using q assms by (metis hd_append2)
  have "dropWhile is_ws (rev ?t) \<noteq> []" using assms by (simp add: trim_def trim_start_def)
  then have "\<not> is_ws (hd (dropWhile is_ws (rev ?t)))" by (rule hd_dropWhile)
  then show "\<not> is_ws (last (trim s))" by (simp add: trim_def trim_start_def last_rev)
qed

lemma lines_from_line:
  "CHR 0x0A \<notin> set l \<Longrightarrow>
   lines_from cur (l @ CHR 0x0A # rest) =
     lines_from (rev l @ cur) (CHR 0x0A # rest)"
  by (induction l arbitrary: cur) auto

lemma lines_line:
  assumes "CHR 0x0A \<notin> set l" and "l = [] \<or> last l \<noteq> CHR 0x0D"
  shows "lines (l @ CHR 0x0A # rest) = l # lines rest"
proof -
  have "lines (l @ CHR 0x0A # rest) = lines_from (rev l) (CHR 0x0A # rest)"
    using lines_from_line [OF assms(1), of "[]"] by (simp add: lines_def)
  then show ?thesis
    using assms(2) by (auto simp: lines_def hd_rev split: list.split)
qed

lemma lines_Nil [simp]: "lines [] = []"
  by (simp add: lines_def)

section \<open>Numbers as text\<close>

definition digit :: "nat \<Rightarrow> char" where
  "digit n = ''0123456789abcdef'' ! n"

fun dec_of_nat :: "nat \<Rightarrow> string" where
  "dec_of_nat n =
     (if n < 10 then [digit n] else dec_of_nat (n div 10) @ [digit (n mod 10)])"

fun hex_of_nat :: "nat \<Rightarrow> string" where
  "hex_of_nat n =
     (if n < 16 then [digit n] else hex_of_nat (n div 16) @ [digit (n mod 16)])"

declare dec_of_nat.simps [simp del]
declare hex_of_nat.simps [simp del]

lemma dec_of_nat_not_Nil [simp]: "dec_of_nat n \<noteq> []"
  by (subst dec_of_nat.simps) simp

section \<open>Lists\<close>

fun find_map :: "('a \<Rightarrow> 'b option) \<Rightarrow> 'a list \<Rightarrow> 'b option" where
  "find_map f [] = None"
| "find_map f (x # xs) = (case f x of Some y \<Rightarrow> Some y | None \<Rightarrow> find_map f xs)"

fun position :: "('a \<Rightarrow> bool) \<Rightarrow> 'a list \<Rightarrow> nat option" where
  "position p [] = None"
| "position p (x # xs) = (if p x then Some 0 else map_option Suc (position p xs))"

lemma position_Some_iff:
  "position p xs = Some i \<longleftrightarrow> i < length xs \<and> p (xs ! i) \<and> (\<forall>j<i. \<not> p (xs ! j))"
proof (induction xs arbitrary: i)
  case Nil
  then show ?case by simp
next
  case (Cons x xs)
  show ?case
    by (cases i) (auto simp: Cons.IH nth_Cons' less_Suc_eq_0_disj)
qed

lemma position_None_iff: "position p xs = None \<longleftrightarrow> (\<forall>x\<in>set xs. \<not> p x)"
  by (induction xs) auto

lemma position_cong_map:
  "map p xs = map q ys \<Longrightarrow> position p xs = position q ys"
  by (induction xs arbitrary: ys) (auto split: if_splits)

lemma map_two: "length xs = 2 \<Longrightarrow> map f xs = [f (xs ! 0), f (xs ! 1)]"
  by (cases xs; cases "tl xs") auto

end
