(* ===== verification/NetTypes.thy ===== *)
theory NetTypes
  imports Prelude
begin

unbundle bit_operations_syntax

text \<open>
  The address types every component passes around: \<^verbatim>\<open>IpAddr\<close> and \<^verbatim>\<open>SocketAddr\<close> of the
  standard library with their big-endian octets and their \<^verbatim>\<open>Display\<close> text, and the value
  of an \<^verbatim>\<open>IpNet\<close> (an address and a prefix length, as its accessors \<^verbatim>\<open>addr\<close> and
  \<^verbatim>\<open>prefix_len\<close> return them).  \<open>in_net\<close> is membership of an address in a prefix.
\<close>

section \<open>Addresses\<close>

datatype ip_addr = IpV4 "32 word" | IpV6 "128 word"

datatype ip_net = NetV4 "32 word" nat | NetV6 "128 word" nat

record socket_addr =
  sa_ip :: ip_addr
  sa_port :: u16

fun prefix_len :: "ip_net \<Rightarrow> nat" where
  "prefix_len (NetV4 a n) = n"
| "prefix_len (NetV6 a n) = n"

fun is_net_v4 :: "ip_net \<Rightarrow> bool" where
  "is_net_v4 (NetV4 a n) = True"
| "is_net_v4 (NetV6 a n) = False"

definition is_net_v6 :: "ip_net \<Rightarrow> bool" where
  "is_net_v6 n \<longleftrightarrow> \<not> is_net_v4 n"

section \<open>Octets, most significant first\<close>

definition from_be :: "u8 list \<Rightarrow> 'a::len word" where
  "from_be bs = foldl (\<lambda>acc b. push_bit 8 acc OR ucast b) 0 bs"

primrec to_be :: "nat \<Rightarrow> 'a::len word \<Rightarrow> u8 list" where
  "to_be 0 w = []"
| "to_be (Suc n) w = to_be n (drop_bit 8 w) @ [ucast w]"

lemma to_be_numeral:
  "to_be (numeral k) w = to_be (pred_numeral k) (drop_bit 8 w) @ [ucast w]"
  by (simp add: numeral_eq_Suc)

lemma length_to_be [simp]: "length (to_be n w) = n"
  by (induction n arbitrary: w) auto

lemma from_be_snoc: "from_be (bs @ [b]) = push_bit 8 (from_be bs) OR ucast b"
  by (simp add: from_be_def)

lemma from_be_to_be_take:
  "from_be (to_be n (w :: 'a::len word)) = (take_bit (8 * n) w :: 'a word)"
proof (induction n arbitrary: w)
  case 0
  then show ?case by (simp add: from_be_def)
next
  case (Suc n)
  have "push_bit 8 (take_bit (8 * n) (drop_bit 8 w)) OR ucast (ucast w :: u8)
      = take_bit (8 * Suc n) w"
  proof (rule bit_word_eqI)
    fix k
    assume "k < LENGTH('a)"
    then show "bit (push_bit 8 (take_bit (8 * n) (drop_bit 8 w)) OR ucast (ucast w :: u8)) k
        = bit (take_bit (8 * Suc n) w) k"
      by (cases "k < 8") (auto simp: bit_simps)
  qed
  then show ?case by (simp add: from_be_snoc Suc.IH)
qed

lemma from_be_to_be_32 [simp]: "from_be (to_be 4 (w :: 32 word)) = w"
  by (simp add: from_be_to_be_take take_bit_word_eq_self)

lemma from_be_to_be_128 [simp]: "from_be (to_be 16 (w :: 128 word)) = w"
  by (simp add: from_be_to_be_take take_bit_word_eq_self)

section \<open>Display of addresses\<close>

definition ipv4_string :: "32 word \<Rightarrow> string" where
  "ipv4_string w = join ''.'' (map (\<lambda>b. dec_of_nat (unat b)) (to_be 4 w))"

definition segments :: "128 word \<Rightarrow> u16 list" where
  "segments w = map (\<lambda>i. ucast (drop_bit (16 * i) w)) [7, 6, 5, 4, 3, 2, 1, 0]"

text \<open>The first longest run of zero segments, as a start and a length.\<close>

fun zero_run :: "nat \<Rightarrow> nat \<times> nat \<Rightarrow> nat \<times> nat \<Rightarrow> u16 list \<Rightarrow> nat \<times> nat" where
  "zero_run i cur longest [] = longest"
| "zero_run i (start, len) longest (s # ss) =
     (if s = 0
      then let cur = (if len = 0 then i else start, Suc len)
           in zero_run (Suc i) cur (if snd cur > snd longest then cur else longest) ss
      else zero_run (Suc i) (0, 0) longest ss)"

definition fmt_subslice :: "u16 list \<Rightarrow> string" where
  "fmt_subslice ss = join '':'' (map (\<lambda>s. hex_of_nat (unat s)) ss)"

definition ipv6_string :: "128 word \<Rightarrow> string" where
  "ipv6_string w =
     (let ss = segments w in
      if take 6 ss = [0, 0, 0, 0, 0, 0xffff]
      then ''::ffff:'' @ ipv4_string (ucast w)
      else case zero_run 0 (0, 0) (0, 0) ss of (start, len) \<Rightarrow>
        if len > 1
        then fmt_subslice (take start ss) @ ''::'' @ fmt_subslice (drop (start + len) ss)
        else fmt_subslice ss)"

fun ip_string :: "ip_addr \<Rightarrow> string" where
  "ip_string (IpV4 w) = ipv4_string w"
| "ip_string (IpV6 w) = ipv6_string w"

text \<open>The standard CIDR text of a prefix, \<^verbatim>\<open>addr/len\<close>.\<close>

fun cidr_string :: "ip_net \<Rightarrow> string" where
  "cidr_string (NetV4 a n) = ipv4_string a @ ''/'' @ dec_of_nat n"
| "cidr_string (NetV6 a n) = ipv6_string a @ ''/'' @ dec_of_nat n"

section \<open>Prefixes\<close>

definition bits :: "'a::len word \<Rightarrow> bool list" where
  "bits w = map (bit w) (rev [0..<LENGTH('a)])"

fun in_net :: "ip_addr \<Rightarrow> ip_net \<Rightarrow> bool" where
  "in_net (IpV4 a) (NetV4 p n) = (take n (bits a) = take n (bits p))"
| "in_net (IpV6 a) (NetV6 p n) = (take n (bits a) = take n (bits p))"
| "in_net _ _ = False"

lemma length_bits [simp]: "length (bits (w :: 'a::len word)) = LENGTH('a)"
  by (simp add: bits_def)

lemma bits_not_Nil [simp]: "bits (w :: 'a::len word) \<noteq> []"
  using length_bits [of w] by (metis len_gt_0 length_0_conv less_irrefl)

lemma take_1_bits: "take (Suc 0) (bits (w :: 'a::len word)) = [bit w (LENGTH('a) - 1)]"
proof -
  have "LENGTH('a) = Suc (LENGTH('a) - 1)" by simp
  then have "rev [0..<LENGTH('a)] = (LENGTH('a) - 1) # rev [0..<LENGTH('a) - 1]"
    by (metis upt_Suc_append rev.simps(2) rev_append append_Cons append_Nil rev_singleton_conv zero_le)
  then show ?thesis by (simp add: bits_def)
qed

end
