(* ===== verification/Route.thy ===== *)
theory Route
  imports NetTypes
begin

text \<open>
  \<^verbatim>\<open>smartguard/src/route.rs\<close>: the routes a tunnel installs, how they are followed when the
  default gateway moves, and how they are taken away.  Every function of the file is here.
  A function that runs \<^verbatim>\<open>route\<close> is a state monad program over the log and the world
  (\<open>Prelude\<close>); the text printed for the user is not modelled.  \<open>net_str\<close> stands for the
  \<^verbatim>\<open>Display\<close> of \<^verbatim>\<open>ipnet::IpNet\<close>, which is not part of the repository.
\<close>

section \<open>Families, routes and the route command\<close>

datatype family = V4 | V6

fun route_flag :: "family \<Rightarrow> string" where
  "route_flag V4 = ''-inet''"
| "route_flag V6 = ''-inet6''"

datatype added_route =
    Net string string family                 \<comment> \<open>prefix, tunnel interface, family\<close>
  | Host string family "string option"       \<comment> \<open>address, family, gateway at install time\<close>
  | Passthrough string family                \<comment> \<open>prefix, family\<close>

definition V4_BLACKHOLE_EXEMPTIONS :: "string list" where
  "V4_BLACKHOLE_EXEMPTIONS =
     [''10.0.0.0/8'', ''100.64.0.0/10'', ''172.16.0.0/12'', ''192.168.0.0/16'']"

definition V6_BLACKHOLE_EXEMPTIONS :: "string list" where
  "V6_BLACKHOLE_EXEMPTIONS = []"

definition route_command :: "string list \<Rightarrow> cmd" where
  "route_command as = \<lparr>prog = ''route'', args = as, stdin = ''''\<rparr>"

definition route_cmd :: "'w os \<Rightarrow> string list \<Rightarrow> ('w sys, bool) state" where
  "route_cmd run as = do {
     out \<leftarrow> exec run (route_command as);
     State_Monad.return (succeeded out)
   }"

text \<open>Adding, through the tunnel, by gateway or by interface; deleting.\<close>

definition add_net_args :: "string \<Rightarrow> string \<Rightarrow> family \<Rightarrow> string list" where
  "add_net_args tun_name prefix family =
     [''-n'', ''add'', route_flag family, ''-net'', prefix, ''-interface'', tun_name]"

definition add_via_args :: "family \<Rightarrow> string \<Rightarrow> string \<Rightarrow> string \<Rightarrow> string \<Rightarrow> string list" where
  "add_via_args family kind dst how via =
     [''-n'', ''add'', route_flag family, kind, dst, how, via]"

definition add_net ::
  "'w os \<Rightarrow> string \<Rightarrow> string \<Rightarrow> family \<Rightarrow> ('w sys, added_route option) state" where
  "add_net run tun_name prefix family = do {
     ok \<leftarrow> route_cmd run (add_net_args tun_name prefix family);
     State_Monad.return (if ok then Some (Net prefix tun_name family) else None)
   }"

section \<open>Asking the kernel for a route\<close>

record route_info =
  ri_gateway :: "string option"
  ri_interface :: "string option"

definition scan_line :: "string \<Rightarrow> route_info \<Rightarrow> route_info" where
  "scan_line raw info =
     (let line = trim raw in
      case strip_prefix ''gateway:'' line of
        Some gw \<Rightarrow> (let gw = trim gw in
          if gw \<noteq> [] then info\<lparr>ri_gateway := Some gw\<rparr> else info)
      | None \<Rightarrow>
        (case strip_prefix ''interface:'' line of
           Some iface \<Rightarrow> (let iface = trim iface in
             if iface \<noteq> [] then info\<lparr>ri_interface := Some iface\<rparr> else info)
         | None \<Rightarrow> info))"

definition parse_route_output :: "string \<Rightarrow> route_info" where
  "parse_route_output stdout =
     fold scan_line (lines stdout) \<lparr>ri_gateway = None, ri_interface = None\<rparr>"

definition get_route_info ::
  "'w os \<Rightarrow> string \<Rightarrow> family \<Rightarrow> ('w sys, route_info option) state" where
  "get_route_info run ip family = do {
     out \<leftarrow> exec run (route_command [''-n'', ''get'', route_flag family, ip]);
     State_Monad.return
       (case out of
          Exited success stdout \<Rightarrow>
            if success then Some (parse_route_output stdout) else None
        | _ \<Rightarrow> None)
   }"

definition current_default_gateway :: "'w os \<Rightarrow> family \<Rightarrow> ('w sys, string option) state" where
  "current_default_gateway run family = do {
     info \<leftarrow> get_route_info run ''default'' family;
     State_Monad.return (case info of None \<Rightarrow> None | Some i \<Rightarrow> ri_gateway i)
   }"

section \<open>Installing\<close>

text \<open>By the gateway when one is known, else by the interface, else not at all.\<close>

definition add_via ::
  "'w os \<Rightarrow> family \<Rightarrow> string \<Rightarrow> string \<Rightarrow> route_info \<Rightarrow> ('w sys, bool) state" where
  "add_via run family kind dst info =
     (case ri_gateway info of
        Some gw \<Rightarrow> route_cmd run (add_via_args family kind dst ''-gateway'' gw)
      | None \<Rightarrow>
        (case ri_interface info of
           Some iface \<Rightarrow> route_cmd run (add_via_args family kind dst ''-interface'' iface)
         | None \<Rightarrow> State_Monad.return False))"

fun passthrough_loop ::
  "'w os \<Rightarrow> family \<Rightarrow> route_info \<Rightarrow> string list \<Rightarrow> ('w sys, added_route list) state" where
  "passthrough_loop run family info [] = State_Monad.return []"
| "passthrough_loop run family info (prefix # rest) = do {
     added \<leftarrow> add_via run family ''-net'' prefix info;
     routes \<leftarrow> passthrough_loop run family info rest;
     State_Monad.return ((if added then [Passthrough prefix family] else []) @ routes)
   }"

fun exemptions :: "family \<Rightarrow> string list" where
  "exemptions V4 = V4_BLACKHOLE_EXEMPTIONS"
| "exemptions V6 = V6_BLACKHOLE_EXEMPTIONS"

fun probe :: "family \<Rightarrow> string" where
  "probe V4 = ''1.1.1.1''"
| "probe V6 = ''2606:4700:4700::1111''"

definition install_passthroughs ::
  "'w os \<Rightarrow> family \<Rightarrow> ('w sys, added_route list) state" where
  "install_passthroughs run family =
     (if exemptions family = [] then State_Monad.return []
      else do {
        info \<leftarrow> get_route_info run (probe family) family;
        (case info of
           None \<Rightarrow> State_Monad.return []
         | Some i \<Rightarrow> passthrough_loop run family i (exemptions family))
      })"

fun ip_family :: "ip_addr \<Rightarrow> family" where
  "ip_family (IpV4 _) = V4"
| "ip_family (IpV6 _) = V6"

fun install_endpoint_bypass ::
  "'w os \<Rightarrow> socket_addr list \<Rightarrow> family \<Rightarrow> ('w sys, added_route list) state" where
  "install_endpoint_bypass run [] family = State_Monad.return []"
| "install_endpoint_bypass run (ep # eps) family =
     (if ip_family (sa_ip ep) \<noteq> family then install_endpoint_bypass run eps family
      else do {
        info \<leftarrow> get_route_info run (ip_string (sa_ip ep)) family;
        (case info of
           None \<Rightarrow> install_endpoint_bypass run eps family
         | Some i \<Rightarrow> do {
             added \<leftarrow> add_via run family ''-host'' (ip_string (sa_ip ep)) i;
             routes \<leftarrow> install_endpoint_bypass run eps family;
             State_Monad.return
               ((if added then [Host (ip_string (sa_ip ep)) family (ri_gateway i)] else [])
                @ routes)
           })
      })"

fun catchall_halves :: "family \<Rightarrow> string list" where
  "catchall_halves V4 = [''0.0.0.0/1'', ''128.0.0.0/1'']"
| "catchall_halves V6 = [''::/1'', ''8000::/1'']"

fun add_nets ::
  "'w os \<Rightarrow> string \<Rightarrow> family \<Rightarrow> string list \<Rightarrow> ('w sys, added_route list) state" where
  "add_nets run tun_name family [] = State_Monad.return []"
| "add_nets run tun_name family (prefix # rest) = do {
     r \<leftarrow> add_net run tun_name prefix family;
     routes \<leftarrow> add_nets run tun_name family rest;
     State_Monad.return ((case r of None \<Rightarrow> [] | Some x \<Rightarrow> [x]) @ routes)
   }"

fun net_family :: "ip_net \<Rightarrow> family" where
  "net_family (NetV4 _ _) = V4"
| "net_family (NetV6 _ _) = V6"

definition tun_prefixes :: "(ip_net \<Rightarrow> string) \<Rightarrow> ip_net \<Rightarrow> string list" where
  "tun_prefixes net_str net =
     (if prefix_len net = 0 then catchall_halves (net_family net) else [net_str net])"

fun add_allowed_ips ::
  "'w os \<Rightarrow> (ip_net \<Rightarrow> string) \<Rightarrow> string \<Rightarrow> ip_net list
     \<Rightarrow> ('w sys, added_route list) state" where
  "add_allowed_ips run net_str tun_name [] = State_Monad.return []"
| "add_allowed_ips run net_str tun_name (net # nets) = do {
     rs \<leftarrow> add_nets run tun_name (net_family net) (tun_prefixes net_str net);
     routes \<leftarrow> add_allowed_ips run net_str tun_name nets;
     State_Monad.return (rs @ routes)
   }"

definition has_catchall :: "family \<Rightarrow> ip_net list \<Rightarrow> bool" where
  "has_catchall family nets \<longleftrightarrow>
     list_ex (\<lambda>n. net_family n = family \<and> prefix_len n = 0) nets"

definition bypass_if ::
  "'w os \<Rightarrow> bool \<Rightarrow> socket_addr list \<Rightarrow> family \<Rightarrow> ('w sys, added_route list) state" where
  "bypass_if run b eps family =
     (if b then install_endpoint_bypass run eps family else State_Monad.return [])"

definition setup_routes ::
  "'w os \<Rightarrow> (ip_net \<Rightarrow> string) \<Rightarrow> string \<Rightarrow> ip_net list \<Rightarrow> socket_addr list
     \<Rightarrow> ('w sys, added_route list) state" where
  "setup_routes run net_str tun_name allowed_ips peer_endpoints = do {
     b4 \<leftarrow> bypass_if run (has_catchall V4 allowed_ips) peer_endpoints V4;
     b6 \<leftarrow> bypass_if run (has_catchall V6 allowed_ips) peer_endpoints V6;
     nets \<leftarrow> add_allowed_ips run net_str tun_name allowed_ips;
     State_Monad.return (b4 @ b6 @ nets)
   }"

definition setup_unconfigured_family ::
  "'w os \<Rightarrow> family \<Rightarrow> string \<Rightarrow> socket_addr list \<Rightarrow> ('w sys, added_route list) state" where
  "setup_unconfigured_family run family tun_name peer_endpoints = do {
     bypass \<leftarrow> install_endpoint_bypass run peer_endpoints family;
     pass \<leftarrow> install_passthroughs run family;
     halves \<leftarrow> add_nets run tun_name family (catchall_halves family);
     State_Monad.return (bypass @ pass @ halves)
   }"

section \<open>Taking away and rechecking\<close>

fun delete_args :: "added_route \<Rightarrow> string list" where
  "delete_args (Net prefix tun_name family) =
     [''-n'', ''delete'', route_flag family, ''-net'', prefix, ''-interface'', tun_name]"
| "delete_args (Host ip family gateway) =
     [''-n'', ''delete'', route_flag family, ''-host'', ip]"
| "delete_args (Passthrough prefix family) =
     [''-n'', ''delete'', route_flag family, ''-net'', prefix]"

fun cleanup_routes :: "'w os \<Rightarrow> added_route list \<Rightarrow> ('w sys, unit) state" where
  "cleanup_routes run [] = State_Monad.return ()"
| "cleanup_routes run (r # rs) = do {
     _ \<leftarrow> route_cmd run (delete_args r);
     cleanup_routes run rs
   }"

definition reinstall ::
  "'w os \<Rightarrow> string \<Rightarrow> family \<Rightarrow> string option \<Rightarrow> ('w sys, bool) state" where
  "reinstall run ip family current =
     (case current of
        Some gw \<Rightarrow> route_cmd run (add_via_args family ''-host'' ip ''-gateway'' gw)
      | None \<Rightarrow> State_Monad.return True)"

fun recheck_one ::
  "'w os \<Rightarrow> (family \<Rightarrow> string option) \<Rightarrow> added_route \<Rightarrow> ('w sys, added_route) state" where
  "recheck_one run current (Host ip family stored) =
     (if stored = current family then State_Monad.return (Host ip family stored)
      else do {
        _ \<leftarrow> route_cmd run (delete_args (Host ip family stored));
        installed \<leftarrow> reinstall run ip family (current family);
        State_Monad.return (Host ip family (if installed then current family else stored))
      })"
| "recheck_one run current r = State_Monad.return r"

fun recheck_loop ::
  "'w os \<Rightarrow> (family \<Rightarrow> string option) \<Rightarrow> added_route list
     \<Rightarrow> ('w sys, added_route list) state" where
  "recheck_loop run current [] = State_Monad.return []"
| "recheck_loop run current (r # rs) = do {
     r' \<leftarrow> recheck_one run current r;
     rs' \<leftarrow> recheck_loop run current rs;
     State_Monad.return (r' # rs')
   }"

definition recheck_routes ::
  "'w os \<Rightarrow> added_route list \<Rightarrow> ('w sys, added_route list) state" where
  "recheck_routes run added_routes = do {
     v4_current \<leftarrow> current_default_gateway run V4;
     v6_current \<leftarrow> current_default_gateway run V6;
     recheck_loop run (case_family v4_current v6_current) added_routes
   }"

end
