(* ===== verification/RouteLaws.thy ===== *)
theory RouteLaws
  imports Route
begin

text \<open>
  What the functions of \<open>Route\<close> guarantee, proved once over two interfaces.

  \<^item> \<open>route_ops\<close> is the contract of a record of installed routes: a relation \<open>R s rs s'\<close>
    between the state before, the routes returned and the state after, which every single
    \<^verbatim>\<open>route\<close> command satisfies and which composes along concatenation of the routes.
    Every installing function then satisfies it.
  \<^item> The contracts of the kernel's table follow in \<open>RouteKernel\<close>.

  The log instance of \<open>route_ops\<close> needs no assumption on the operating system; the table
  instance is a sublocale of the weaker contract of the table, \<open>route_table\<close>.
\<close>

section \<open>Keys of routes and of commands\<close>

type_synonym rkey = "string \<times> string \<times> string"

fun route_key :: "added_route \<Rightarrow> rkey" where
  "route_key (Net prefix tun_name family) = (route_flag family, ''-net'', prefix)"
| "route_key (Host ip family gateway) = (route_flag family, ''-host'', ip)"
| "route_key (Passthrough prefix family) = (route_flag family, ''-net'', prefix)"

fun op_key :: "string \<Rightarrow> string list \<Rightarrow> rkey option" where
  "op_key opn (n # x # flag # kind # dst # rest) =
     (if x = opn then Some (flag, kind, dst) else None)"
| "op_key opn _ = None"

text \<open>The keys of the successful adds of a log, in order, and of all its deletes.\<close>

fun ok_adds :: "(cmd \<times> cmd_result) list \<Rightarrow> rkey list" where
  "ok_adds [] = []"
| "ok_adds ((c, r) # es) =
     (if succeeded r then (case op_key ''add'' (args c) of None \<Rightarrow> [] | Some k \<Rightarrow> [k]) else [])
     @ ok_adds es"

fun deletes :: "(cmd \<times> cmd_result) list \<Rightarrow> rkey list" where
  "deletes [] = []"
| "deletes ((c, r) # es) =
     (case op_key ''delete'' (args c) of None \<Rightarrow> [] | Some k \<Rightarrow> [k]) @ deletes es"

lemma ok_adds_append [simp]: "ok_adds (xs @ ys) = ok_adds xs @ ok_adds ys"
  by (induction xs rule: ok_adds.induct) auto

lemma deletes_append [simp]: "deletes (xs @ ys) = deletes xs @ deletes ys"
  by (induction xs rule: deletes.induct) auto

lemma op_key_args [simp]:
  "op_key opn (add_net_args tun p f) =
     (if opn = ''add'' then Some (route_key (Net p tun f)) else None)"
  "op_key opn (add_via_args f kind dst how via) =
     (if opn = ''add'' then Some (route_flag f, kind, dst) else None)"
  "op_key opn (delete_args r) = (if opn = ''delete'' then Some (route_key r) else None)"
  "op_key opn [a, b, c, d] = None"
  by (simp_all add: add_net_args_def add_via_args_def) (cases r; simp)

lemma args_route_command [simp]: "args (route_command as) = as"
  by (simp add: route_command_def)

lemma run_route_cmd [simp]:
  "run_state (route_cmd run as) s =
     (succeeded (fst (run (route_command as) (world s))),
      snd (run_state (exec run (route_command as)) s))"
  by (simp add: route_cmd_def)

section \<open>The contract of the installing operations\<close>

locale route_ops =
  fixes run :: "'w os"
    and R :: "'w sys \<Rightarrow> added_route list \<Rightarrow> 'w sys \<Rightarrow> bool"
  assumes R_nil: "R s [] s"
    and R_append: "R s xs s' \<Longrightarrow> R s' ys s'' \<Longrightarrow> R s (xs @ ys) s''"
    and R_get: "R s [] (snd (run_state (exec run (route_command [''-n'', ''get'', flag, dst])) s))"
    and R_add_fail:
      "\<not> succeeded (fst (run (route_command [''-n'', ''add'', flag, kind, dst, how, via]) (world s)))
       \<Longrightarrow> R s [] (snd (run_state
             (exec run (route_command [''-n'', ''add'', flag, kind, dst, how, via])) s))"
    and R_net:
      "succeeded (fst (run (route_command (add_net_args tun p f)) (world s)))
       \<Longrightarrow> R s [Net p tun f] (snd (run_state (exec run (route_command (add_net_args tun p f))) s))"
    and R_host_gateway:
      "succeeded (fst (run (route_command (add_via_args f ''-host'' ip ''-gateway'' gw)) (world s)))
       \<Longrightarrow> R s [Host ip f (Some gw)]
             (snd (run_state (exec run (route_command (add_via_args f ''-host'' ip ''-gateway'' gw))) s))"
    and R_host_interface:
      "succeeded (fst (run (route_command (add_via_args f ''-host'' ip ''-interface'' i)) (world s)))
       \<Longrightarrow> R s [Host ip f None]
             (snd (run_state (exec run (route_command (add_via_args f ''-host'' ip ''-interface'' i))) s))"
    and R_passthrough:
      "succeeded (fst (run (route_command (add_via_args f ''-net'' p how via)) (world s)))
       \<Longrightarrow> R s [Passthrough p f]
             (snd (run_state (exec run (route_command (add_via_args f ''-net'' p how via))) s))"
begin

lemma get_info:
  "R s [] (snd (run_state (get_route_info run ip f) s))"
  using R_get [of s "route_flag f" ip] by (simp add: get_route_info_def)

lemma net:
  "R s (case fst (run_state (add_net run tun p f) s) of None \<Rightarrow> [] | Some x \<Rightarrow> [x])
     (snd (run_state (add_net run tun p f) s))"
  using R_net [of tun p f s] R_add_fail [of "route_flag f" "''-net''" p "''-interface''" tun s]
  by (auto simp: add_net_def add_net_args_def)

lemma host:
  "R s (if fst (run_state (add_via run f ''-host'' ip i) s) then [Host ip f (ri_gateway i)] else [])
     (snd (run_state (add_via run f ''-host'' ip i) s))"
  using R_host_gateway [of f ip "the (ri_gateway i)" s]
    R_host_interface [of f ip "the (ri_interface i)" s] R_nil [of s]
    R_add_fail [of "route_flag f" "''-host''" ip "''-gateway''" "the (ri_gateway i)" s]
    R_add_fail [of "route_flag f" "''-host''" ip "''-interface''" "the (ri_interface i)" s]
  by (auto simp: add_via_def add_via_args_def split: option.split)

lemma pass:
  "R s (if fst (run_state (add_via run f ''-net'' p i) s) then [Passthrough p f] else [])
     (snd (run_state (add_via run f ''-net'' p i) s))"
  using R_passthrough [of f p _ _ s] R_nil [of s] R_add_fail [of "route_flag f" "''-net''" p _ _ s]
  by (auto simp: add_via_def add_via_args_def split: option.split)

lemma nets:
  "R s (fst (run_state (add_nets run tun f ps) s)) (snd (run_state (add_nets run tun f ps) s))"
proof (induction ps arbitrary: s)
  case Nil
  show ?case by (simp add: R_nil)
next
  case (Cons p ps)
  show ?case
    using R_append [OF net [of s tun p f] Cons.IH] by (simp add: case_prod_beta)
qed

lemma allowed_ips:
  "R s (fst (run_state (add_allowed_ips run net_str tun ns) s))
     (snd (run_state (add_allowed_ips run net_str tun ns) s))"
proof (induction ns arbitrary: s)
  case Nil
  show ?case by (simp add: R_nil)
next
  case (Cons n ns)
  show ?case
    using R_append [OF nets [of s tun "net_family n" "tun_prefixes net_str n"] Cons.IH]
    by (simp add: case_prod_beta)
qed

lemma passthroughs_loop:
  "R s (fst (run_state (passthrough_loop run f i ps) s))
     (snd (run_state (passthrough_loop run f i ps) s))"
proof (induction ps arbitrary: s)
  case Nil
  show ?case by (simp add: R_nil)
next
  case (Cons p ps)
  show ?case
    using R_append [OF pass [of s f p i] Cons.IH] by (simp add: case_prod_beta)
qed

lemma passthroughs:
  "R s (fst (run_state (install_passthroughs run f) s))
     (snd (run_state (install_passthroughs run f) s))"
  using R_append [OF get_info [of s "probe f" f] passthroughs_loop] get_info [of s "probe f" f]
    R_nil [of s]
  by (simp add: install_passthroughs_def case_prod_beta split: option.split)

lemma bypass:
  "R s (fst (run_state (install_endpoint_bypass run eps f) s))
     (snd (run_state (install_endpoint_bypass run eps f) s))"
proof (induction eps arbitrary: s)
  case Nil
  show ?case by (simp add: R_nil)
next
  case (Cons ep eps)
  let ?ip = "ip_string (sa_ip ep)"
  let ?s1 = "snd (run_state (get_route_info run ?ip f) s)"
  show ?case
  proof (cases "fst (run_state (get_route_info run ?ip f) s)")
    case None
    with R_append [OF get_info [of s ?ip f] Cons.IH [of ?s1]] Cons.IH [of s]
    show ?thesis by (simp add: case_prod_beta)
  next
    case (Some i)
    have "R ?s1 ((if fst (run_state (add_via run f ''-host'' ?ip i) ?s1)
                  then [Host ?ip f (ri_gateway i)] else [])
             @ fst (run_state (install_endpoint_bypass run eps f)
                 (snd (run_state (add_via run f ''-host'' ?ip i) ?s1))))
            (snd (run_state (install_endpoint_bypass run eps f)
                 (snd (run_state (add_via run f ''-host'' ?ip i) ?s1))))"
      by (rule R_append [OF host Cons.IH])
    with Some R_append [OF get_info [of s ?ip f] this] Cons.IH [of s]
    show ?thesis by (simp add: case_prod_beta)
  qed
qed

lemma bypass_guarded:
  "R s (fst (run_state (bypass_if run b eps f) s)) (snd (run_state (bypass_if run b eps f) s))"
  by (simp add: bypass_if_def bypass R_nil)

lemma all_setup:
  "R s (fst (run_state (setup_routes run net_str tun nets eps) s))
     (snd (run_state (setup_routes run net_str tun nets eps) s))"
  using R_append [OF bypass_guarded R_append [OF bypass_guarded allowed_ips]]
  by (simp add: setup_routes_def case_prod_beta)

lemma unconfigured:
  "R s (fst (run_state (setup_unconfigured_family run f tun eps) s))
     (snd (run_state (setup_unconfigured_family run f tun eps) s))"
  using R_append [OF bypass R_append [OF passthroughs nets]]
  by (simp add: setup_unconfigured_family_def case_prod_beta)

end

section \<open>The log instance: what is recorded is what was added\<close>

interpretation logged: route_ops run
    "\<lambda>s rs s'. ok_adds (cmd_log s') = ok_adds (cmd_log s) @ map route_key rs
              \<and> deletes (cmd_log s') = deletes (cmd_log s)" for run :: "'w os"
  by unfold_locales (auto simp: add_net_args_def add_via_args_def)

section \<open>Rechecking and cleaning up, whatever the operating system does\<close>

fun refreshed :: "added_route \<Rightarrow> added_route \<Rightarrow> bool" where
  "refreshed (Host ip f g) r' \<longleftrightarrow> (\<exists>g'. r' = Host ip f g')"
| "refreshed r r' \<longleftrightarrow> r' = r"

lemma recheck_one_refreshed: "refreshed r (fst (run_state (recheck_one run current r) s))"
  by (cases r) (auto simp: case_prod_beta)

lemma recheck_loop_refreshed:
  "list_all2 refreshed rs (fst (run_state (recheck_loop run current rs) s))"
  by (induction rs arbitrary: s) (auto simp: case_prod_beta recheck_one_refreshed)

lemma recheck_routes_refreshed:
  "list_all2 refreshed rs (fst (run_state (recheck_routes run rs) s))"
  by (simp add: recheck_routes_def case_prod_beta recheck_loop_refreshed)

lemma refreshed_key: "refreshed r r' \<Longrightarrow> route_key r' = route_key r"
  by (cases r) auto

lemma refreshed_keys: "list_all2 refreshed rs rs' \<Longrightarrow> map route_key rs' = map route_key rs"
  by (induction rule: list_all2_induct) (auto simp: refreshed_key)

lemmas recheck_keys = refreshed_keys [OF recheck_routes_refreshed]

lemma cleanup_log:
  "deletes (cmd_log (snd (run_state (cleanup_routes run rs) s)))
     = deletes (cmd_log s) @ map route_key rs
   \<and> ok_adds (cmd_log (snd (run_state (cleanup_routes run rs) s))) = ok_adds (cmd_log s)"
  by (induction rs arbitrary: s) (auto simp: case_prod_beta)

lemma cleanup_grows:
  "\<exists>es. cmd_log (snd (run_state (cleanup_routes run rs) s)) = cmd_log s @ es
     \<and> deletes es = map route_key rs"
proof (induction rs arbitrary: s)
  case (Cons r rs)
  let ?c = "route_command (delete_args r)"
  obtain es where "cmd_log (snd (run_state (cleanup_routes run rs) (snd (run_state (exec run ?c) s))))
      = cmd_log (snd (run_state (exec run ?c) s)) @ es" "deletes es = map route_key rs"
    using Cons.IH by blast
  then show ?case
    by (intro exI [of _ "(?c, fst (run ?c (world s))) # es"]) (simp add: case_prod_beta)
qed simp

section \<open>Ordering: bypasses first\<close>

definition is_get :: "cmd \<Rightarrow> bool" where
  "is_get c \<longleftrightarrow> (\<exists>flag dst. c = route_command [''-n'', ''get'', flag, dst])"

definition is_via :: "string \<Rightarrow> cmd \<Rightarrow> bool" where
  "is_via kind c \<longleftrightarrow> (\<exists>f dst how via. c = route_command (add_via_args f kind dst how via))"

definition is_tun_add :: "string \<Rightarrow> cmd \<Rightarrow> bool" where
  "is_tun_add tun c \<longleftrightarrow> (\<exists>p f. c = route_command (add_net_args tun p f))"

definition is_bypass :: "cmd \<Rightarrow> bool" where
  "is_bypass c \<longleftrightarrow> is_get c \<or> is_via ''-host'' c"

lemma is_getI [intro]: "is_get (route_command [''-n'', ''get'', flag, dst])"
  unfolding is_get_def by blast

lemma is_viaI [intro]: "is_via kind (route_command (add_via_args f kind dst how via))"
  unfolding is_via_def by blast

lemma is_tun_addI [intro]: "is_tun_add tun (route_command (add_net_args tun p f))"
  unfolding is_tun_add_def by blast

lemma grows_get [log_intros]:
  assumes "\<And>c. is_get c \<Longrightarrow> A c"
  shows "grows A (get_route_info run ip f)"
  unfolding get_route_info_def
  by (intro log_intros assms is_getI)

lemma grows_route_cmd [log_intros]: "A (route_command as) \<Longrightarrow> grows A (route_cmd run as)"
  unfolding route_cmd_def by (intro log_intros)

lemma grows_add_via [log_intros]:
  "(\<And>c. is_via kind c \<Longrightarrow> A c) \<Longrightarrow> grows A (add_via run f kind dst i)"
  by (auto simp: add_via_def split: option.split intro!: log_intros)

lemma grows_bypass: "grows is_bypass (install_endpoint_bypass run eps f)"
proof (induction eps)
  case Nil
  show ?case by simp
next
  case (Cons ep eps)
  then show ?case
    by (auto simp: is_bypass_def split: option.split intro!: log_intros)
qed

lemma grows_bypass_if: "grows is_bypass (bypass_if run b eps f)"
  by (simp add: bypass_if_def grows_bypass)

lemma grows_passthrough_loop: "grows (is_via ''-net'') (passthrough_loop run f i ps)"
  by (induction ps) (auto intro!: log_intros)

lemma grows_passthroughs:
  "grows (\<lambda>c. is_get c \<or> is_via ''-net'' c) (install_passthroughs run f)"
  by (auto simp: install_passthroughs_def split: option.split
           intro!: log_intros intro: grows_mono [OF grows_passthrough_loop])

lemma grows_add_nets: "grows (is_tun_add tun) (add_nets run tun f ps)"
  by (induction ps) (auto simp: add_net_def intro!: log_intros)

lemma grows_allowed_ips: "grows (is_tun_add tun) (add_allowed_ips run net_str tun ns)"
  by (induction ns) (auto intro!: log_intros grows_add_nets)

lemma grows_then:
  assumes "grows A m" and "\<And>a. grows B (f a)"
  obtains es fs where
    "cmd_log (snd (run_state (State_Monad.bind m f) s)) = cmd_log s @ es @ fs"
    and "list_all (\<lambda>(c, r). A c) es" and "list_all (\<lambda>(c, r). B c) fs"
proof -
  obtain a s' where m: "run_state m s = (a, s')" by fastforce
  from assms(1) m obtain es where es: "cmd_log s' = cmd_log s @ es" "list_all (\<lambda>(c, r). A c) es"
    by (rule growsE)
  obtain b s'' where f: "run_state (f a) s' = (b, s'')" by fastforce
  from assms(2) f obtain fs where "cmd_log s'' = cmd_log s' @ fs" "list_all (\<lambda>(c, r). B c) fs"
    by (rule growsE)
  with es m f show ?thesis by (intro that [of es fs]) simp_all
qed

end
