(* ===== verification/RouteKernel.thy ===== *)
theory RouteKernel
  imports RouteLaws
begin

text \<open>
  The kernel's routing table as the program relies on it, in two strengths.

  \<^item> \<open>route_table run tbl key\<close> is what the exit status of \<^verbatim>\<open>route(8)\<close> says of the table \<open>tbl\<close> of a
    world: a successful \<^verbatim>\<open>add\<close> found no entry under its key and leaves one, an unsuccessful one
    changes nothing; a successful \<^verbatim>\<open>delete\<close> leaves no entry under the key, an unsuccessful one
    (also one that could not be started) either did so or left the entry, and touched no other; a
    \<^verbatim>\<open>get\<close> only reads.
  \<^item> \<open>route_kernel\<close> adds that a \<^verbatim>\<open>delete\<close> never leaves the entry: its failure then means that the
    entry was not in the table.

  \<open>key\<close> maps the words of the command to the kernel's notion of destination, so two spellings of
  one prefix may share an entry.  \<open>ref_run\<close> is an executable table that meets both contracts; it
  serves the witnesses.
\<close>

type_synonym via = "string \<times> string"

text \<open>What the entry of a recorded route must say.\<close>

fun points_to :: "added_route \<Rightarrow> via option \<Rightarrow> bool" where
  "points_to (Net prefix tun_name f) v = (v = Some (''-interface'', tun_name))"
| "points_to (Host ip f (Some gw)) v = (v = Some (''-gateway'', gw))"
| "points_to (Host ip f None) v = (\<exists>i. v = Some (''-interface'', i))"
| "points_to (Passthrough prefix f) v = (v \<noteq> None)"

definition keys_of :: "(rkey \<Rightarrow> 'k) \<Rightarrow> added_route list \<Rightarrow> 'k set" where
  "keys_of key rs = key ` route_key ` set rs"

text \<open>The table \<open>t'\<close> is \<open>t\<close> with exactly the routes \<open>rs\<close> installed at free places.\<close>

definition installed ::
  "(rkey \<Rightarrow> 'k) \<Rightarrow> ('k \<Rightarrow> via option) \<Rightarrow> added_route list \<Rightarrow> ('k \<Rightarrow> via option) \<Rightarrow> bool" where
  "installed key t rs t' \<longleftrightarrow>
     (\<forall>k. k \<notin> keys_of key rs \<longrightarrow> t' k = t k)
     \<and> (\<forall>r\<in>set rs. t (key (route_key r)) = None \<and> points_to r (t' (key (route_key r))))
     \<and> distinct (map (\<lambda>r. key (route_key r)) rs)"

text \<open>The keys whose adds and whose deletes failed, in order, and the last delete of a key.\<close>

fun failed_adds :: "(cmd \<times> cmd_result) list \<Rightarrow> rkey list" where
  "failed_adds [] = []"
| "failed_adds ((c, r) # es) =
     (if succeeded r then [] else (case op_key ''add'' (args c) of None \<Rightarrow> [] | Some k \<Rightarrow> [k]))
     @ failed_adds es"

fun failed_deletes :: "(cmd \<times> cmd_result) list \<Rightarrow> rkey list" where
  "failed_deletes [] = []"
| "failed_deletes ((c, r) # es) =
     (if succeeded r then [] else (case op_key ''delete'' (args c) of None \<Rightarrow> [] | Some k \<Rightarrow> [k]))
     @ failed_deletes es"

fun last_delete :: "(cmd \<times> cmd_result) list \<Rightarrow> rkey \<Rightarrow> cmd_result option" where
  "last_delete [] k = None"
| "last_delete ((c, r) # es) k =
     (case last_delete es k of
        Some x \<Rightarrow> Some x
      | None \<Rightarrow> if op_key ''delete'' (args c) = Some k then Some r else None)"

lemma failed_deletes_append [simp]: "failed_deletes (xs @ ys) = failed_deletes xs @ failed_deletes ys"
  by (induction xs rule: failed_deletes.induct) auto

lemma last_delete_append:
  "last_delete (xs @ ys) k = (case last_delete ys k of Some x \<Rightarrow> Some x | None \<Rightarrow> last_delete xs k)"
  by (induction xs k rule: last_delete.induct) (auto split: option.split)

lemma last_delete_None: "last_delete es k = None \<longleftrightarrow> k \<notin> set (deletes es)"
  by (induction es k rule: last_delete.induct) (auto split: option.splits)

text \<open>What a recheck makes of one recorded route, with the default gateways \<open>current\<close>, the log \<open>es\<close>
  of its commands and the tables before and after.  An entry is let go when it is gone, or when
  its delete was refused and it still stands.\<close>

definition let_go ::
  "(rkey \<Rightarrow> 'k) \<Rightarrow> (cmd \<times> cmd_result) list \<Rightarrow> ('k \<Rightarrow> via option) \<Rightarrow> ('k \<Rightarrow> via option) \<Rightarrow> rkey \<Rightarrow> bool" where
  "let_go key es t t' k \<longleftrightarrow>
     t' (key k) = None \<or> k \<in> set (failed_deletes es) \<and> t' (key k) = t (key k)"

fun recheck_outcome ::
  "(rkey \<Rightarrow> 'k) \<Rightarrow> (family \<Rightarrow> string option) \<Rightarrow> (cmd \<times> cmd_result) list \<Rightarrow> ('k \<Rightarrow> via option)
     \<Rightarrow> ('k \<Rightarrow> via option) \<Rightarrow> added_route \<Rightarrow> added_route \<Rightarrow> bool" where
  "recheck_outcome key current es t t' (Host ip f g) r' =
     (let k = (route_flag f, ''-host'', ip) in
      if g = current f then r' = Host ip f g \<and> t' (key k) = t (key k)
      else (case current f of
              None \<Rightarrow> r' = Host ip f None \<and> let_go key es t t' k
            | Some gw \<Rightarrow>
                r' = Host ip f (Some gw) \<and> t' (key k) = Some (''-gateway'', gw)
                \<or> r' = Host ip f g \<and> k \<in> set (failed_adds es) \<and> let_go key es t t' k))"
| "recheck_outcome key current es t t' r r' =
     (r' = r \<and> t' (key (route_key r)) = t (key (route_key r)))"

lemma recheck_outcome_frame:
  assumes "recheck_outcome key cur es t t' r r'"
    and "u (key (route_key r)) = t (key (route_key r))" and "u' (key (route_key r)) = t' (key (route_key r))"
    and "set (failed_adds es) \<subseteq> set (failed_adds fs)" and "set (failed_deletes es) \<subseteq> set (failed_deletes fs)"
  shows "recheck_outcome key cur fs u u' r r'"
  using assms by (cases r) (auto simp: let_go_def Let_def split: if_splits option.splits)

text \<open>The entry of a recorded route, if there is one, is the one recorded.\<close>

definition held :: "(rkey \<Rightarrow> 'k) \<Rightarrow> ('k \<Rightarrow> via option) \<Rightarrow> added_route \<Rightarrow> bool" where
  "held key t r \<longleftrightarrow> t (key (route_key r)) = None \<or> points_to r (t (key (route_key r)))"

lemma recheck_outcome_held:
  assumes "recheck_outcome key cur es t t' r r'" and "held key t r" and "failed_deletes es = []"
  shows "held key t' r'"
  using assms by (cases r) (auto simp: let_go_def held_def Let_def split: if_splits option.splits)

lemma rechecked_held:
  "list_all2 (recheck_outcome key cur es t t') rs rs' \<Longrightarrow> failed_deletes es = []
   \<Longrightarrow> list_all (held key t) rs \<Longrightarrow> list_all (held key t') rs'"
  by (induction rule: list_all2_induct) (auto dest: recheck_outcome_held)

lemma failed_adds_append [simp]: "failed_adds (xs @ ys) = failed_adds xs @ failed_adds ys"
  by (induction xs rule: failed_adds.induct) auto

lemma keys_of_simps [simp]:
  "keys_of key [] = {}"
  "keys_of key (r # rs) = insert (key (route_key r)) (keys_of key rs)"
  "keys_of key (xs @ ys) = keys_of key xs \<union> keys_of key ys"
  by (auto simp: keys_of_def)

lemma keys_of_refreshed: "list_all2 refreshed rs rs' \<Longrightarrow> keys_of key rs' = keys_of key rs"
  unfolding keys_of_def by (metis image_set refreshed_keys)

lemma points_to_Some: "points_to r v \<Longrightarrow> v \<noteq> None"
  by (cases "(r, v)" rule: points_to.cases) auto

lemma installed_Nil [simp]: "installed key t [] t' \<longleftrightarrow> t' = t"
  by (auto simp: installed_def)

lemma installed_one:
  "t (key (route_key r)) = None \<Longrightarrow> points_to r (Some v)
   \<Longrightarrow> installed key t [r] (t(key (route_key r) \<mapsto> v))"
  by (auto simp: installed_def)

lemma installed_append:
  assumes "installed key t xs t'" and "installed key t' ys t''"
  shows "installed key t (xs @ ys) t''"
proof -
  have disj: "key (route_key r) \<notin> keys_of key ys" if "r \<in> set xs" for r
    using that assms points_to_Some unfolding installed_def keys_of_def by fastforce
  have disj': "key (route_key r) \<notin> keys_of key xs" if "r \<in> set ys" for r
    using that assms points_to_Some unfolding installed_def keys_of_def by fastforce
  have "t'' k = t k" if "k \<notin> keys_of key (xs @ ys)" for k
    using that assms unfolding installed_def by simp
  moreover have "t (key (route_key r)) = None \<and> points_to r (t'' (key (route_key r)))"
    if "r \<in> set (xs @ ys)" for r
    using that assms disj disj' unfolding installed_def by auto
  moreover have "distinct (map (\<lambda>r. key (route_key r)) (xs @ ys))"
    using assms disj unfolding installed_def keys_of_def by fastforce
  ultimately show ?thesis unfolding installed_def by blast
qed

section \<open>The contract and its consequences\<close>

locale route_table =
  fixes run :: "'w os"
    and tbl :: "'w \<Rightarrow> 'k \<Rightarrow> via option"
    and key :: "rkey \<Rightarrow> 'k"
  assumes get_reads: "tbl (snd (run (route_command [''-n'', ''get'', flag, dst]) w)) = tbl w"
    and add_ok:
      "succeeded (fst (run (route_command [''-n'', ''add'', flag, kind, dst, how, via]) w)) \<Longrightarrow>
       tbl w (key (flag, kind, dst)) = None
       \<and> tbl (snd (run (route_command [''-n'', ''add'', flag, kind, dst, how, via]) w))
           = (tbl w)(key (flag, kind, dst) \<mapsto> (how, via))"
    and add_fail:
      "\<not> succeeded (fst (run (route_command [''-n'', ''add'', flag, kind, dst, how, via]) w)) \<Longrightarrow>
       tbl (snd (run (route_command [''-n'', ''add'', flag, kind, dst, how, via]) w)) = tbl w"
    and delete_ok:
      "succeeded (fst (run (route_command (''-n'' # ''delete'' # flag # kind # dst # opts)) w)) \<Longrightarrow>
       tbl (snd (run (route_command (''-n'' # ''delete'' # flag # kind # dst # opts)) w))
         = (tbl w)(key (flag, kind, dst) := None)"
    and delete_fail:
      "tbl (snd (run (route_command (''-n'' # ''delete'' # flag # kind # dst # opts)) w))
         \<in> {tbl w, (tbl w)(key (flag, kind, dst) := None)}"

locale route_kernel = route_table run tbl key
  for run :: "'w os" and tbl :: "'w \<Rightarrow> 'k \<Rightarrow> via option" and key :: "rkey \<Rightarrow> 'k" +
  assumes delete_clears:
      "tbl (snd (run (route_command (''-n'' # ''delete'' # flag # kind # dst # opts)) w))
         = (tbl w)(key (flag, kind, dst) := None)"

sublocale route_table \<subseteq> table: route_ops run
    "\<lambda>s rs s'. installed key (tbl (world s)) rs (tbl (world s'))"
proof unfold_locales
  show "installed key (tbl (world s)) [] (tbl (world s))" for s :: "'w sys"
    by simp
  show "installed key (tbl (world s)) (xs @ ys) (tbl (world s''))"
    if "installed key (tbl (world s)) xs (tbl (world s'))"
      and "installed key (tbl (world s')) ys (tbl (world s''))" for s s' s'' :: "'w sys" and xs ys
    using that by (rule installed_append)
  show "installed key (tbl (world s)) []
      (tbl (world (snd (run_state (exec run (route_command [''-n'', ''get'', flag, dst])) s))))"
    for s :: "'w sys" and flag dst
    by (simp add: get_reads)
  show "installed key (tbl (world s)) [] (tbl (world (snd (run_state (exec run
      (route_command [''-n'', ''add'', flag, kind, dst, how, via])) s))))"
    if "\<not> succeeded (fst (run (route_command [''-n'', ''add'', flag, kind, dst, how, via]) (world s)))"
    for s :: "'w sys" and flag kind dst how via
    using add_fail [OF that] by simp
  show "installed key (tbl (world s)) [Net p tun f]
      (tbl (world (snd (run_state (exec run (route_command (add_net_args tun p f))) s))))"
    if "succeeded (fst (run (route_command (add_net_args tun p f)) (world s)))"
    for s :: "'w sys" and tun p f
    using add_ok [OF that [unfolded add_net_args_def]] installed_one [of _ key "Net p tun f"]
    by (simp add: add_net_args_def)
  show "installed key (tbl (world s)) [Host ip f (Some gw)] (tbl (world (snd (run_state
      (exec run (route_command (add_via_args f ''-host'' ip ''-gateway'' gw))) s))))"
    if "succeeded (fst (run (route_command (add_via_args f ''-host'' ip ''-gateway'' gw)) (world s)))"
    for s :: "'w sys" and f ip gw
    using add_ok [OF that [unfolded add_via_args_def]] installed_one [of _ key "Host ip f (Some gw)"]
    by (simp add: add_via_args_def)
  show "installed key (tbl (world s)) [Host ip f None] (tbl (world (snd (run_state
      (exec run (route_command (add_via_args f ''-host'' ip ''-interface'' i))) s))))"
    if "succeeded (fst (run (route_command (add_via_args f ''-host'' ip ''-interface'' i)) (world s)))"
    for s :: "'w sys" and f ip i
    using add_ok [OF that [unfolded add_via_args_def]] installed_one [of _ key "Host ip f None"]
    by (simp add: add_via_args_def)
  show "installed key (tbl (world s)) [Passthrough p f] (tbl (world (snd (run_state
      (exec run (route_command (add_via_args f ''-net'' p how via))) s))))"
    if "succeeded (fst (run (route_command (add_via_args f ''-net'' p how via)) (world s)))"
    for s :: "'w sys" and f p how via
    using add_ok [OF that [unfolded add_via_args_def]] installed_one [of _ key "Passthrough p f"]
    by (simp add: add_via_args_def)
qed

context route_table
begin

lemma delete_cases:
  obtains "tbl (snd (run (route_command (delete_args r)) w)) = (tbl w)(key (route_key r) := None)"
  | "\<not> succeeded (fst (run (route_command (delete_args r)) w))"
    and "tbl (snd (run (route_command (delete_args r)) w)) = tbl w"
proof -
  obtain flag kind dst opts where d: "delete_args r = ''-n'' # ''delete'' # flag # kind # dst # opts"
      "route_key r = (flag, kind, dst)"
    by (cases r) simp_all
  from delete_ok [of flag kind dst opts w] delete_fail [of flag kind dst opts w] that d
  show ?thesis by (cases "succeeded (fst (run (route_command (delete_args r)) w))") auto
qed

lemma delete_frame:
  "k \<noteq> key (route_key r) \<Longrightarrow> tbl (snd (run (route_command (delete_args r)) w)) k = tbl w k"
  by (rule delete_cases [of r w]) simp_all

lemma gateway_reads:
  "tbl (world (snd (run_state (current_default_gateway run f) s))) = tbl (world s)"
  by (simp add: current_default_gateway_def get_route_info_def get_reads case_prod_beta)

lemma cleanup_frame:
  "k \<notin> keys_of key rs
   \<Longrightarrow> tbl (world (snd (run_state (cleanup_routes run rs) s))) k = tbl (world s) k"
  by (induction rs arbitrary: s) (simp_all add: case_prod_beta delete_frame)

lemma reinstall_table:
  "k \<noteq> key (route_flag f, ''-host'', ip)
   \<Longrightarrow> tbl (world (snd (run_state (reinstall run ip f cur) s))) k = tbl (world s) k"
  using add_ok [of "route_flag f" "''-host''" ip "''-gateway''" "the cur" "world s"]
    add_fail [of "route_flag f" "''-host''" ip "''-gateway''" "the cur" "world s"]
  by (cases "succeeded (fst (run (route_command
        [''-n'', ''add'', route_flag f, ''-host'', ip, ''-gateway'', the cur]) (world s)))")
     (auto simp: reinstall_def add_via_args_def split: option.split)

lemma recheck_one_frame:
  "k \<noteq> key (route_key r)
   \<Longrightarrow> tbl (world (snd (run_state (recheck_one run current r) s))) k = tbl (world s) k"
  using delete_frame [of k r "world s"]
  by (cases r) (auto simp: case_prod_beta reinstall_table)

lemma recheck_loop_frame:
  "k \<notin> keys_of key rs
   \<Longrightarrow> tbl (world (snd (run_state (recheck_loop run current rs) s))) k = tbl (world s) k"
  by (induction rs arbitrary: s) (auto simp: case_prod_beta recheck_one_frame)

lemma recheck_frame:
  "k \<notin> keys_of key rs
   \<Longrightarrow> tbl (world (snd (run_state (recheck_routes run rs) s))) k = tbl (world s) k"
  by (simp add: recheck_routes_def case_prod_beta recheck_loop_frame gateway_reads)

text \<open>
  The invariant of the running program: relative to the table \<open>t0\<close> it started from, only keys
  of recorded routes may differ, and those were free.
\<close>

definition owns :: "('k \<Rightarrow> via option) \<Rightarrow> added_route list \<Rightarrow> 'w \<Rightarrow> bool" where
  "owns t0 rs w \<longleftrightarrow> (\<forall>k. if k \<in> keys_of key rs then t0 k = None else tbl w k = t0 k)"

lemma owns_recheck:
  assumes "owns t0 rs (world s)"
  shows "owns t0 (fst (run_state (recheck_routes run rs) s))
           (world (snd (run_state (recheck_routes run rs) s)))"
proof -
  have "keys_of key (fst (run_state (recheck_routes run rs) s)) = keys_of key rs"
    by (rule keys_of_refreshed [OF recheck_routes_refreshed])
  with assms show ?thesis by (auto simp: owns_def recheck_frame split: if_splits)
qed

lemma owns_installed:
  assumes "installed key (tbl w) rs (tbl w')"
  shows "owns (tbl w) rs w'"
  using assms by (auto simp: owns_def installed_def keys_of_def)

lemma owns_world: "owns t0 rs w \<Longrightarrow> tbl w' = tbl w \<Longrightarrow> owns t0 rs w'"
  by (simp add: owns_def)

text \<open>Cleaning up clears every key of the routes given, unless its last delete was refused.\<close>

lemma cleanup_leaves:
  assumes "k \<in> keys_of key rs"
  shows "tbl (world (snd (run_state (cleanup_routes run rs) s))) k = None
    \<or> (\<exists>r\<in>set rs. key (route_key r) = k
         \<and> (\<exists>x. last_delete (cmd_log (snd (run_state (cleanup_routes run rs) s))) (route_key r) = Some x
              \<and> \<not> succeeded x))"
  using assms
proof (induction rs arbitrary: s)
  case (Cons r rs)
  let ?s1 = "snd (run_state (exec run (route_command (delete_args r))) s)"
  let ?s2 = "snd (run_state (cleanup_routes run rs) ?s1)"
  have run: "snd (run_state (cleanup_routes run (r # rs)) s) = ?s2" by (simp add: case_prod_beta)
  show ?case
  proof (cases "k \<in> keys_of key rs")
    case True
    with Cons.IH [of ?s1] show ?thesis unfolding run by auto
  next
    case False
    with Cons.prems have k: "k = key (route_key r)" by simp
    note frame = cleanup_frame [OF False, of ?s1]
    show ?thesis
    proof (rule delete_cases [of r "world s"])
      assume "tbl (snd (run (route_command (delete_args r)) (world s)))
        = (tbl (world s))(key (route_key r) := None)"
      with frame k show ?thesis unfolding run by simp
    next
      assume refused: "\<not> succeeded (fst (run (route_command (delete_args r)) (world s)))"
      obtain es where es: "cmd_log ?s2 = cmd_log ?s1 @ es" "deletes es = map route_key rs"
        using cleanup_grows by blast
      have "last_delete es (route_key r) = None"
        using False k es(2) by (auto simp: last_delete_None keys_of_def)
      then have "last_delete (cmd_log ?s2) (route_key r)
          = Some (fst (run (route_command (delete_args r)) (world s)))"
        unfolding es(1) last_delete_append by (simp add: last_delete_append)
      with refused k show ?thesis unfolding run by simp
    qed
  qed
qed simp

lemma cleanup_leaves_log:
  obtains es where "cmd_log (snd (run_state (cleanup_routes run rs) s)) = cmd_log s @ es"
    and "\<And>k. k \<in> keys_of key rs \<Longrightarrow>
      tbl (world (snd (run_state (cleanup_routes run rs) s))) k = None
      \<or> (\<exists>r x. key r = k \<and> last_delete es r = Some x \<and> \<not> succeeded x)"
proof -
  let ?s = "snd (run_state (cleanup_routes run rs) s)"
  obtain es where es: "cmd_log ?s = cmd_log s @ es" "deletes es = map route_key rs"
    using cleanup_grows by blast
  have last: "last_delete (cmd_log ?s) (route_key r) = last_delete es (route_key r)" if "r \<in> set rs" for r
    using that es(2) last_delete_None [of es "route_key r"]
    unfolding es(1) last_delete_append by (auto split: option.split)
  have "tbl (world ?s) k = None \<or> (\<exists>r x. key r = k \<and> last_delete es r = Some x \<and> \<not> succeeded x)"
    if "k \<in> keys_of key rs" for k
    using cleanup_leaves [OF that, of s] last by metis
  with es(1) that show ?thesis by blast
qed

text \<open>What a recheck makes of each recorded route.\<close>

lemma reinstall_cases:
  obtains (lost) "cur = None" "run_state (reinstall run ip f cur) s = (True, s)"
  | (added) gw where "cur = Some gw" "fst (run_state (reinstall run ip f cur) s)"
      "tbl (world (snd (run_state (reinstall run ip f cur) s))) (key (route_flag f, ''-host'', ip))
         = Some (''-gateway'', gw)"
      "\<exists>e. cmd_log (snd (run_state (reinstall run ip f cur) s)) = cmd_log s @ [e]"
  | (refused) gw e where "cur = Some gw" "\<not> fst (run_state (reinstall run ip f cur) s)"
      "tbl (world (snd (run_state (reinstall run ip f cur) s))) = tbl (world s)"
      "cmd_log (snd (run_state (reinstall run ip f cur) s)) = cmd_log s @ [e]"
      "failed_adds [e] = [(route_flag f, ''-host'', ip)]"
proof (cases cur)
  case None
  then show ?thesis by (intro lost) (simp_all add: reinstall_def)
next
  case (Some gw)
  show ?thesis
  proof (cases "succeeded (fst (run (route_command (add_via_args f ''-host'' ip ''-gateway'' gw)) (world s)))")
    case True
    with Some add_ok [of "route_flag f" "''-host''" ip "''-gateway''" gw "world s"] show ?thesis
      by (intro added [of gw]) (simp_all add: reinstall_def add_via_args_def)
  next
    case False
    with Some add_fail [of "route_flag f" "''-host''" ip "''-gateway''" gw "world s"] show ?thesis
      by (intro refused [of gw "(route_command (add_via_args f ''-host'' ip ''-gateway'' gw),
          fst (run (route_command (add_via_args f ''-host'' ip ''-gateway'' gw)) (world s)))"])
        (simp_all add: reinstall_def add_via_args_def)
  qed
qed

lemma reinstall_refused:
  assumes "tbl (world s) (key (route_flag f, ''-host'', ip)) = None"
    and "\<not> fst (run_state (reinstall run ip f cur) s)"
  shows "tbl (world (snd (run_state (reinstall run ip f cur) s))) (key (route_flag f, ''-host'', ip)) = None"
  using assms by (cases rule: reinstall_cases [of cur ip f s]) simp_all

lemma recheck_one_outcome:
  "\<exists>es. cmd_log (snd (run_state (recheck_one run cur r) s)) = cmd_log s @ es
     \<and> recheck_outcome key cur es (tbl (world s)) (tbl (world (snd (run_state (recheck_one run cur r) s))))
         r (fst (run_state (recheck_one run cur r) s))"
proof (cases "\<exists>ip f g. r = Host ip f g \<and> g \<noteq> cur f")
  case True
  then obtain ip f g where r: "r = Host ip f g" "g \<noteq> cur f" by blast
  let ?c = "route_command (delete_args r)"
  let ?k = "(route_flag f, ''-host'', ip)"
  let ?dl = "(?c, fst (run ?c (world s)))"
  let ?r = "fst (run_state (recheck_one run cur r) s)" and ?s = "snd (run_state (recheck_one run cur r) s)"
  define d where "d = snd (run_state (exec run ?c) s)"
  obtain ok s2 where re: "run_state (reinstall run ip f (cur f)) d = (ok, s2)" by fastforce
  have result: "?r = Host ip f (if ok then cur f else g)" "?s = s2"
    using r re by (simp_all add: case_prod_beta d_def)
  have d: "cmd_log d = cmd_log s @ [?dl]" by (simp add: d_def)
  have gone: "let_go key (?dl # es) (tbl (world s)) (tbl (world d)) ?k" for es
    by (rule delete_cases [of r "world s"]) (simp_all add: let_go_def r(1) d_def)
  have outcome: "recheck_outcome key cur es t t' r q \<longleftrightarrow>
      (case cur f of None \<Rightarrow> q = Host ip f None \<and> let_go key es t t' ?k
       | Some gw \<Rightarrow> q = Host ip f (Some gw) \<and> t' (key ?k) = Some (''-gateway'', gw)
           \<or> q = Host ip f g \<and> ?k \<in> set (failed_adds es) \<and> let_go key es t t' ?k)" for es t t' q
    using r by (simp add: Let_def)
  have "\<exists>es. cmd_log s2 = cmd_log s @ es
      \<and> recheck_outcome key cur es (tbl (world s)) (tbl (world s2)) r (Host ip f (if ok then cur f else g))"
  proof (cases rule: reinstall_cases [of "cur f" ip f d])
    case lost
    with re d gone [of "[]"] show ?thesis by (intro exI [of _ "[?dl]"]) (simp add: outcome)
  next
    case (added gw)
    then obtain e where "cmd_log s2 = cmd_log d @ [e]" unfolding re by auto
    with re added d show ?thesis by (intro exI [of _ "[?dl, e]"]) (simp add: outcome)
  next
    case (refused gw e)
    moreover have "?k \<in> set (failed_adds [?dl, e])"
      using refused(5) failed_adds_append [of "[?dl]" "[e]"] by simp
    ultimately show ?thesis
      using re d gone [of "[e]"] by (intro exI [of _ "[?dl, e]"]) (simp add: outcome let_go_def)
  qed
  then show ?thesis by (simp only: result)
next
  case False
  then show ?thesis by (cases r) auto
qed

lemma recheck_loop_outcome:
  assumes "distinct (map (\<lambda>r. key (route_key r)) rs)"
  shows "\<exists>es. cmd_log (snd (run_state (recheck_loop run cur rs) s)) = cmd_log s @ es
    \<and> list_all2 (recheck_outcome key cur es (tbl (world s))
          (tbl (world (snd (run_state (recheck_loop run cur rs) s)))))
        rs (fst (run_state (recheck_loop run cur rs) s))"
  using assms
proof (induction rs arbitrary: s)
  case Nil
  then show ?case by simp
next
  case (Cons r rs)
  let ?s1 = "snd (run_state (recheck_one run cur r) s)"
  let ?s2 = "snd (run_state (recheck_loop run cur rs) ?s1)"
  let ?r = "fst (run_state (recheck_one run cur r) s)"
  let ?rs = "fst (run_state (recheck_loop run cur rs) ?s1)"
  obtain es where es: "cmd_log ?s1 = cmd_log s @ es"
      "recheck_outcome key cur es (tbl (world s)) (tbl (world ?s1)) r ?r"
    using recheck_one_outcome by blast
  obtain fs where fs: "cmd_log ?s2 = cmd_log ?s1 @ fs"
      "list_all2 (recheck_outcome key cur fs (tbl (world ?s1)) (tbl (world ?s2))) rs ?rs"
    using Cons.IH [of ?s1] Cons.prems by auto
  have apart: "key (route_key r) \<notin> keys_of key rs" using Cons.prems by (auto simp: keys_of_def)
  have "recheck_outcome key cur (es @ fs) (tbl (world s)) (tbl (world ?s2)) r ?r"
    by (rule recheck_outcome_frame [OF es(2)]) (simp_all add: recheck_loop_frame [OF apart])
  moreover have "list_all2 (recheck_outcome key cur (es @ fs) (tbl (world s)) (tbl (world ?s2))) rs ?rs"
  proof (rule list.rel_mono_strong [OF fs(2)])
    fix q q'
    assume "q \<in> set rs" and q: "recheck_outcome key cur fs (tbl (world ?s1)) (tbl (world ?s2)) q q'"
    then have "key (route_key q) \<in> keys_of key rs" by (simp add: keys_of_def)
    then have "key (route_key q) \<noteq> key (route_key r)" using apart by metis
    then show "recheck_outcome key cur (es @ fs) (tbl (world s)) (tbl (world ?s2)) q q'"
      by (intro recheck_outcome_frame [OF q]) (simp_all add: recheck_one_frame)
  qed
  ultimately show ?case
    using es(1) fs(1) by (intro exI [of _ "es @ fs"]) (simp add: case_prod_beta)
qed

end

context route_kernel
begin

lemma delete_route:
  "tbl (snd (run (route_command (delete_args r)) w)) = (tbl w)(key (route_key r) := None)"
  by (cases r) (simp_all add: delete_clears)

lemma cleanup_table:
  "tbl (world (snd (run_state (cleanup_routes run rs) s)))
     = (\<lambda>k. if k \<in> keys_of key rs then None else tbl (world s) k)"
proof (induction rs arbitrary: s)
  case Nil
  show ?case by simp
next
  case (Cons r rs)
  then show ?case by (auto simp: case_prod_beta delete_route)
qed

lemma owns_cleanup:
  "owns t0 rs (world s) \<Longrightarrow> tbl (world (snd (run_state (cleanup_routes run rs) s))) = t0"
  by (auto simp: owns_def cleanup_table fun_eq_iff split: if_splits)

end

section \<open>An executable table\<close>

text \<open>
  A world of one routing table per family and a default gateway per family.  \<^verbatim>\<open>get\<close> prints
  the two lines the program reads, in the layout of \<^verbatim>\<open>route -n get\<close>: of the host entry of
  the address asked for when there is one, else of the default route.
\<close>

record ref_world =
  rw_table :: "rkey \<Rightarrow> via option"
  rw_gateway :: "string \<Rightarrow> string option"
  rw_interface :: "string \<Rightarrow> string"

definition ref_output :: "via option \<Rightarrow> string option \<Rightarrow> string \<Rightarrow> string" where
  "ref_output entry gw iface =
     (case entry of
        Some (how, v) \<Rightarrow> ''  '' @ tl how @ '': '' @ v @ [CHR 0x0A]
      | None \<Rightarrow>
          (case gw of Some g \<Rightarrow> ''    gateway: '' @ g @ [CHR 0x0A] | None \<Rightarrow> [])
          @ ''  interface: '' @ iface @ [CHR 0x0A])"

fun ref_route :: "string list \<Rightarrow> ref_world \<Rightarrow> cmd_result \<times> ref_world" where
  "ref_route [n, get, flag, dst] w =
     (Exited True (ref_output (rw_table w (flag, ''-host'', dst))
        (rw_gateway w flag) (rw_interface w flag)), w)"
| "ref_route (n # opn # flag # kind # dst # rest) w =
     (let k = (flag, kind, dst) in
      if opn = ''add'' then
        (case rest of
           how # via # _ \<Rightarrow>
             (case rw_table w k of
                None \<Rightarrow> (Exited True [], w\<lparr>rw_table := (rw_table w)(k \<mapsto> (how, via))\<rparr>)
              | Some _ \<Rightarrow> (Exited False [], w))
         | _ \<Rightarrow> (Exited False [], w))
      else if opn = ''delete'' then
        (Exited (rw_table w k \<noteq> None) [], w\<lparr>rw_table := (rw_table w)(k := None)\<rparr>)
      else (Exited False [], w))"
| "ref_route _ w = (Exited False [], w)"

definition ref_run :: "ref_world os" where
  "ref_run c w = ref_route (args c) w"

interpretation ref: route_kernel ref_run rw_table "\<lambda>k. k"
  by unfold_locales (auto simp: ref_run_def Let_def split: option.splits if_splits)

definition ref_init :: "ref_world sys" where
  "ref_init = \<lparr>cmd_log = [],
     world = \<lparr>rw_table = (\<lambda>_. None),
              rw_gateway = (\<lambda>flag. if flag = ''-inet'' then Some ''192.168.1.1'' else None),
              rw_interface = (\<lambda>_. ''en0'')\<rparr>\<rparr>"

end
