(* ===== verification/RouteProps.thy ===== *)
theory RouteProps
  imports RouteKernel
begin

text \<open>
  The properties of \<^verbatim>\<open>route.rs\<close> that concern one of its functions.  Those of the whole
  life of the routes, from installation to cleanup, are with the tunnel.
\<close>

section \<open>Reading the kernel's answer\<close>

text \<open>The value of a named field on a line of output, when it has one.\<close>

definition field_value :: "string \<Rightarrow> string \<Rightarrow> string option" where
  "field_value name line =
     (case strip_prefix name (trim line) of
        None \<Rightarrow> None
      | Some v \<Rightarrow> if trim v = [] then None else Some (trim v))"

lemma strip_exclusive:
  "strip_prefix ''gateway:'' l = Some v \<Longrightarrow> strip_prefix ''interface:'' l = None"
  unfolding strip_prefix_Some by (simp add: strip_prefix_def)

lemma scan_line_fields:
  "ri_gateway (scan_line l i) =
     (case field_value ''gateway:'' l of Some v \<Rightarrow> Some v | None \<Rightarrow> ri_gateway i)"
  "ri_interface (scan_line l i) =
     (case field_value ''interface:'' l of Some v \<Rightarrow> Some v | None \<Rightarrow> ri_interface i)"
  by (auto simp: scan_line_def field_value_def Let_def strip_exclusive split: option.split)

text \<open>The scan of \<^verbatim>\<open>route -n get\<close> output returns, for the gateway and for the interface
  independently, the trimmed value of the last line that carries the field with a value that
  is not blank; lines with a blank value and unknown lines never overwrite an earlier one.\<close>

theorem parse_route_output_last_field:
  "ri_gateway (parse_route_output out) = find_map (field_value ''gateway:'') (rev (lines out))
   \<and> ri_interface (parse_route_output out) = find_map (field_value ''interface:'') (rev (lines out))"
proof -
  have "ri_gateway (fold scan_line ls \<lparr>ri_gateway = None, ri_interface = None\<rparr>)
          = find_map (field_value ''gateway:'') (rev ls)
      \<and> ri_interface (fold scan_line ls \<lparr>ri_gateway = None, ri_interface = None\<rparr>)
          = find_map (field_value ''interface:'') (rev ls)" for ls
    by (induction ls rule: rev_induct) (auto simp: scan_line_fields split: option.split)
  then show ?thesis by (simp add: parse_route_output_def)
qed

section \<open>What is recorded, and in which order it is installed\<close>

text \<open>C19: Installing and then cleaning up is exact on the level of commands, whatever the
  operating system answers.  The routes \<^verbatim>\<open>setup_routes\<close> returns are those of its successful
  adds, in order and one for one (nothing unrecorded, nothing recorded that failed), it deletes
  nothing, and \<^verbatim>\<open>cleanup_routes\<close> of that list deletes exactly those keys, in the same order.\<close>

theorem setup_then_cleanup_exact:
  "let (rs, s1) = run_state (setup_routes run net_str tun nets eps) s;
       s2 = snd (run_state (cleanup_routes run rs) s1)
   in ok_adds (cmd_log s1) = ok_adds (cmd_log s) @ map route_key rs
      \<and> deletes (cmd_log s1) = deletes (cmd_log s)
      \<and> deletes (cmd_log s2) = deletes (cmd_log s) @ map route_key rs
      \<and> ok_adds (cmd_log s2) = ok_adds (cmd_log s1)"
  using logged.all_setup [where s = s and run = run and net_str = net_str and tun = tun
      and nets = nets and eps = eps]
  by (simp add: case_prod_beta Let_def cleanup_log)

text \<open>C27: \<^verbatim>\<open>setup_routes\<close> installs the endpoint bypasses before any route of the tunnel: the
  commands it issues are lookups and host routes first, and then only adds pointing at the
  tunnel interface, so no lookup ever sees a tunnel route of the same call.\<close>

theorem setup_routes_bypass_first:
  "\<exists>es fs. cmd_log (snd (run_state (setup_routes run net_str tun nets eps) s)) = cmd_log s @ es @ fs
     \<and> list_all (\<lambda>(c, r). is_get c \<or> is_via ''-host'' c) es
     \<and> list_all (\<lambda>(c, r). is_tun_add tun c) fs"
proof -
  let ?bypasses = "do {
     b4 \<leftarrow> bypass_if run (has_catchall V4 nets) eps V4;
     b6 \<leftarrow> bypass_if run (has_catchall V6 nets) eps V6;
     State_Monad.return (b4 @ b6) }"
  have "setup_routes run net_str tun nets eps = do {
      bs \<leftarrow> ?bypasses;
      ns \<leftarrow> add_allowed_ips run net_str tun nets;
      State_Monad.return (bs @ ns) }"
    by (simp add: setup_routes_def)
  moreover have "grows is_bypass ?bypasses"
    by (intro log_intros grows_bypass_if)
  moreover have "grows (is_tun_add tun) (do {
      ns \<leftarrow> add_allowed_ips run net_str tun nets; State_Monad.return (bs @ ns) })" for bs
    by (intro log_intros grows_allowed_ips)
  ultimately obtain es fs where
    "cmd_log (snd (run_state (setup_routes run net_str tun nets eps) s)) = cmd_log s @ es @ fs"
    "list_all (\<lambda>(c, r). is_bypass c) es" "list_all (\<lambda>(c, r). is_tun_add tun c) fs"
    by (metis grows_then)
  then show ?thesis unfolding is_bypass_def by blast
qed

section \<open>The catch-all halves\<close>

text \<open>The prefixes the two texts of \<^verbatim>\<open>catchall_halves\<close> denote.\<close>

fun half_nets :: "family \<Rightarrow> ip_net list" where
  "half_nets V4 = [NetV4 0 1, NetV4 0x80000000 1]"
| "half_nets V6 = [NetV6 0 1, NetV6 0x80000000000000000000000000000000 1]"

lemma half_strings_v4:
  "ipv4_string 0 = ''0.0.0.0''" "ipv4_string 0x80000000 = ''128.0.0.0''"
  by (simp_all add: ipv4_string_def to_be_numeral dec_of_nat.simps digit_def)

lemma half_strings_v6:
  "ipv6_string 0 = ''::''" "ipv6_string 0x80000000000000000000000000000000 = ''8000::''"
  by (simp_all add: ipv6_string_def segments_def fmt_subslice_def hex_of_nat.simps digit_def)

lemma dec_1: "dec_of_nat 1 = ''1''"
  by (simp add: dec_of_nat.simps digit_def)

text \<open>C40: The two prefixes installed in place of a \<^verbatim>\<open>/0\<close> are the halves of the family's
  whole address space: every address of the family, and no other, lies in exactly one of them.
  In particular the IPv6 halves contain the unique-local address \<^verbatim>\<open>fc00::1\<close>, which the comment
  on \<^verbatim>\<open>V6_BLACKHOLE_EXEMPTIONS\<close> places outside the targeted prefix.\<close>

theorem catchall_halves_partition:
  "map cidr_string (half_nets f) = catchall_halves f
   \<and> length (filter (in_net a) (half_nets f)) = (if ip_family a = f then 1 else 0)
   \<and> (\<exists>n\<in>set (half_nets V6). in_net (IpV6 0xfc000000000000000000000000000001) n)"
proof (intro conjI)
  show "map cidr_string (half_nets f) = catchall_halves f"
    by (cases f) (simp_all add: half_strings_v4 half_strings_v6 dec_1 [simplified])
  show "length (filter (in_net a) (half_nets f)) = (if ip_family a = f then 1 else 0)"
    by (cases f; cases a) (simp_all add: take_1_bits)
  show "\<exists>n\<in>set (half_nets V6). in_net (IpV6 0xfc000000000000000000000000000001) n"
    by (simp add: take_1_bits)
qed

section \<open>Following the default gateway\<close>

text \<open>C20: A recheck follows the default gateway, route by route, also when commands are refused.
  Over a kernel whose deletes may fail: a route that is no bypass, or whose recorded gateway is
  the one the kernel reports for its family at the start, is kept, record and entry.  Any other
  bypass loses its entry, or keeps it if the delete was refused; without a gateway it is then
  recorded as having none, and with one it is recorded and entered through that gateway, or its
  add was refused and the record stays as it was.  Nothing else in the table changes, and when no
  delete of the call was refused, every entry of a recorded route is still the one recorded.\<close>

theorem recheck_tracks_gateway:
  assumes "route_table run tbl key"
    and "distinct (map (\<lambda>r. key (route_key r)) rs)"
  shows "\<exists>es. let (g4, s1) = run_state (current_default_gateway run V4) s;
                 (g6, s2) = run_state (current_default_gateway run V6) s1;
                 (rs', s') = run_state (recheck_routes run rs) s
             in cmd_log s' = cmd_log s2 @ es
                \<and> list_all2 (recheck_outcome key (case_family g4 g6) es (tbl (world s)) (tbl (world s'))) rs rs'
                \<and> (\<forall>k. k \<notin> keys_of key rs \<longrightarrow> tbl (world s') k = tbl (world s) k)
                \<and> (failed_deletes es = [] \<and> list_all (held key (tbl (world s))) rs
                     \<longrightarrow> list_all (held key (tbl (world s'))) rs')"
proof -
  let ?s1 = "snd (run_state (current_default_gateway run V4) s)"
  let ?s2 = "snd (run_state (current_default_gateway run V6) ?s1)"
  let ?cur = "case_family (fst (run_state (current_default_gateway run V4) s))
      (fst (run_state (current_default_gateway run V6) ?s1))"
  let ?rs = "fst (run_state (recheck_loop run ?cur rs) ?s2)"
  let ?s = "snd (run_state (recheck_loop run ?cur rs) ?s2)"
  have reads: "tbl (world ?s2) = tbl (world s)"
    by (simp add: route_table.gateway_reads [OF assms(1)])
  obtain es where es: "cmd_log ?s = cmd_log ?s2 @ es"
      "list_all2 (recheck_outcome key ?cur es (tbl (world s)) (tbl (world ?s))) rs ?rs"
    using route_table.recheck_loop_outcome [OF assms, of ?cur ?s2] unfolding reads by blast
  have "list_all (held key (tbl (world ?s))) ?rs"
    if "failed_deletes es = []" "list_all (held key (tbl (world s))) rs"
    using rechecked_held [OF es(2) that] .
  moreover have "tbl (world ?s) k = tbl (world s) k" if "k \<notin> keys_of key rs" for k
    using route_table.recheck_loop_frame [OF assms(1) that] reads by metis
  ultimately show ?thesis
    using es by (intro exI [of _ es]) (simp add: recheck_routes_def case_prod_beta Let_def)
qed

definition moved_host :: "added_route list" where
  "moved_host = [Host ''203.0.113.2'' V4 (Some ''10.0.0.1'')]"

definition moved_sys :: "ref_world sys" where
  "moved_sys = ref_init\<lparr>world := (world ref_init)\<lparr>rw_table :=
     [(''-inet'', ''-host'', ''203.0.113.2'') \<mapsto> (''-gateway'', ''10.0.0.1'')]\<rparr>\<rparr>"

theorem recheck_tracks_gateway_witness:
  "\<exists>es. let (g4, s1) = run_state (current_default_gateway ref_run V4) moved_sys;
            (g6, s2) = run_state (current_default_gateway ref_run V6) s1;
            (rs', s') = run_state (recheck_routes ref_run moved_host) moved_sys
        in cmd_log s' = cmd_log s2 @ es
           \<and> list_all2 (recheck_outcome (\<lambda>k. k) (case_family g4 g6) es (rw_table (world moved_sys))
                (rw_table (world s'))) moved_host rs'"
  using recheck_tracks_gateway [OF ref.route_table_axioms, of moved_host moved_sys]
  by (auto simp: Let_def case_prod_beta moved_host_def)

text \<open>C36: A reinstallation that fails is not retried in every case, as the message printed there
  says: the record keeps the old gateway although its entry is gone, so when the default gateway
  then comes back to that old one, a recheck issues no command and the endpoint stays without
  its bypass.\<close>

theorem recheck_forgets_failed_bypass:
  assumes "route_kernel run tbl key"
    and "current f = Some b" and "b \<noteq> a" and "later f = Some a"
    and "\<And>w. \<not> succeeded (fst (run (route_command (add_via_args f ''-host'' ip ''-gateway'' b)) w))"
  shows "let (rs1, s1) = run_state (recheck_loop run current [Host ip f (Some a)]) s;
             (rs2, s2) = run_state (recheck_loop run later rs1) s1
         in rs1 = [Host ip f (Some a)] \<and> tbl (world s1) (key (route_flag f, ''-host'', ip)) = None
            \<and> rs2 = rs1 \<and> s2 = s1"
proof -
  let ?r = "Host ip f (Some a)"
  let ?d = "snd (run_state (exec run (route_command (delete_args ?r))) s)"
  have d: "tbl (world ?d) (key (route_flag f, ''-host'', ip)) = None"
    using route_kernel.delete_route [OF assms(1), of ?r "world s"] by simp
  have fails: "\<not> fst (run_state (reinstall run ip f (Some b)) ?d)"
    using assms(5) by (simp add: reinstall_def)
  have "tbl (world (snd (run_state (reinstall run ip f (Some b)) ?d)))
      (key (route_flag f, ''-host'', ip)) = None"
    using route_table.reinstall_refused [OF route_kernel.axioms(1) [OF assms(1)]] d fails by blast
  with fails assms(2-4) show ?thesis by (simp add: case_prod_beta Let_def)
qed

text \<open>A kernel that knows no route to the gateway \<^verbatim>\<open>172.20.0.1\<close>.\<close>

definition unreachable_run :: "ref_world os" where
  "unreachable_run c w =
     (if args c = add_via_args V4 ''-host'' ''203.0.113.2'' ''-gateway'' ''172.20.0.1''
      then (Exited False [], w) else ref_run c w)"

interpretation unreachable: route_kernel unreachable_run rw_table "\<lambda>k. k"
  by unfold_locales
     (auto simp: unreachable_run_def add_via_args_def ref_run_def Let_def
           split: option.splits if_splits)

theorem recheck_forgets_failed_bypass_witness:
  "let (rs1, s1) = run_state (recheck_loop unreachable_run (\<lambda>_. Some ''172.20.0.1'')
                     [Host ''203.0.113.2'' V4 (Some ''10.0.0.1'')]) moved_sys;
       (rs2, s2) = run_state (recheck_loop unreachable_run (\<lambda>_. Some ''10.0.0.1'') rs1) s1
   in rs1 = [Host ''203.0.113.2'' V4 (Some ''10.0.0.1'')]
      \<and> rw_table (world s1) (route_flag V4, ''-host'', ''203.0.113.2'') = None
      \<and> rs2 = rs1 \<and> s2 = s1"
  by (rule recheck_forgets_failed_bypass
        [where b = "''172.20.0.1''", OF unreachable.route_kernel_axioms])
     (simp_all add: unreachable_run_def)

text \<open>A bypass installed through an interface (recorded without a gateway) is not left alone
  when the family has a default gateway: the recheck deletes it and adds it again through that
  gateway, whatever the kernel answers to the deletion.\<close>

theorem recheck_replaces_interface_bypass:
  assumes "current f = Some gw"
  shows "\<exists>d a. cmd_log (snd (run_state (recheck_loop run current [Host ip f None]) s)) = cmd_log s
      @ [(route_command [''-n'', ''delete'', route_flag f, ''-host'', ip], d),
         (route_command [''-n'', ''add'', route_flag f, ''-host'', ip, ''-gateway'', gw], a)]"
  using assms by (simp add: case_prod_beta reinstall_def add_via_args_def)

theorem recheck_replaces_interface_bypass_witness:
  "\<exists>d a. cmd_log (snd (run_state (recheck_loop ref_run (\<lambda>_. Some ''192.168.1.1'')
            [Host ''192.168.1.7'' V4 None]) ref_init)) = cmd_log ref_init
      @ [(route_command [''-n'', ''delete'', route_flag V4, ''-host'', ''192.168.1.7''], d),
         (route_command [''-n'', ''add'', route_flag V4, ''-host'', ''192.168.1.7'',
            ''-gateway'', ''192.168.1.1''], a)]"
  by (rule recheck_replaces_interface_bypass) simp

end
