(* ===== verification/PeerNet.thy ===== *)
theory PeerNet
  imports NetTypes
begin

text \<open>
  \<^verbatim>\<open>smartguard-crypto/src/session/peer_net.rs\<close> and \<^verbatim>\<open>lib.rs\<close>: the dual-stack table from
  addresses to peers (cryptokey routing) and \<^verbatim>\<open>build_sessions\<close>, which fills it.

  The tries of the crate \<^verbatim>\<open>iptrie\<close> are not part of the repository: a \<open>trie_api\<close> holds the
  five functions the code calls on one family.  \<open>lpm_trie\<close> states what their documentation
  promises: a new trie maps the empty prefix to the given root, an insertion binds one prefix,
  a lookup in the compressed trie returns the value of the longest stored prefix of the address.
  \<open>net_str\<close> is the \<^verbatim>\<open>Display\<close> of \<^verbatim>\<open>ipnet\<close>, through which prefixes are converted.

  The reference meaning is \<open>owner\<close>, one pass over the configured prefixes.  A binary radix trie
  meets the contract and serves as the concrete instance.
\<close>

section \<open>The interface of the tries\<close>

record ('addr, 'prefix, 'rtrie, 'lctrie, 'id) trie_api =
  with_root :: "'id \<Rightarrow> 'rtrie"
  parse_prefix :: "string \<Rightarrow> 'prefix option"
  rt_insert :: "'prefix \<Rightarrow> 'id \<Rightarrow> 'rtrie \<Rightarrow> 'rtrie"
  compress :: "'rtrie \<Rightarrow> 'lctrie"
  lc_lookup :: "'lctrie \<Rightarrow> 'addr \<Rightarrow> 'id"

locale lpm_trie =
  fixes api :: "('n::len word, 'prefix, 'rtrie, 'lctrie, 'id) trie_api"
    and show_net :: "'n word \<Rightarrow> nat \<Rightarrow> string"
    and entries :: "'rtrie \<Rightarrow> bool list \<Rightarrow> 'id option"
  assumes entries_root: "entries (with_root api s) = [[] \<mapsto> s]"
    and parse_show: "n \<le> LENGTH('n) \<Longrightarrow> \<exists>p. parse_prefix api (show_net a n) = Some p
       \<and> (\<forall>v r. entries (rt_insert api p v r) = (entries r)(take n (bits a) \<mapsto> v))"
    and lookup_longest: "entries r [] \<noteq> None \<Longrightarrow>
       \<exists>n\<le>LENGTH('n). entries r (take n (bits a)) = Some (lc_lookup api (compress api r) a)
         \<and> (\<forall>m. n < m \<and> m \<le> LENGTH('n) \<longrightarrow> entries r (take m (bits a)) = None)"

section \<open>PeerNet and its builder\<close>

record ('t4, 't6) peer_net =
  pn_v4 :: 't4
  pn_v6 :: 't6

record ('r4, 'r6) peer_net_builder =
  pb_v4 :: 'r4
  pb_v6 :: 'r6

fun peer_net_lookup ::
  "(32 word, 'p4, 'r4, 't4, 'id) trie_api \<Rightarrow> (128 word, 'p6, 'r6, 't6, 'id) trie_api
     \<Rightarrow> ('t4, 't6) peer_net \<Rightarrow> ip_addr \<Rightarrow> 'id" where
  "peer_net_lookup api4 api6 net (IpV4 v4) = lc_lookup api4 (pn_v4 net) v4"
| "peer_net_lookup api4 api6 net (IpV6 v6) = lc_lookup api6 (pn_v6 net) v6"

definition builder_new ::
  "(32 word, 'p4, 'r4, 't4, 'id) trie_api \<Rightarrow> (128 word, 'p6, 'r6, 't6, 'id) trie_api
     \<Rightarrow> 'id \<Rightarrow> ('r4, 'r6) peer_net_builder" where
  "builder_new api4 api6 sentinel =
     \<lparr>pb_v4 = with_root api4 sentinel, pb_v6 = with_root api6 sentinel\<rparr>"

fun builder_insert ::
  "(32 word, 'p4, 'r4, 't4, 'id) trie_api \<Rightarrow> (128 word, 'p6, 'r6, 't6, 'id) trie_api
     \<Rightarrow> (ip_net \<Rightarrow> string) \<Rightarrow> ip_net \<Rightarrow> 'id \<Rightarrow> ('r4, 'r6) peer_net_builder
     \<Rightarrow> (unit, ('r4, 'r6) peer_net_builder) outcome" where
  "builder_insert api4 api6 net_str (NetV4 a n) v b =
     (case parse_prefix api4 (net_str (NetV4 a n)) of
        Some p \<Rightarrow> Ok (b\<lparr>pb_v4 := rt_insert api4 p v (pb_v4 b)\<rparr>)
      | None \<Rightarrow> Panic ''Ipv4Net Display always produces a valid Ipv4Prefix'')"
| "builder_insert api4 api6 net_str (NetV6 a n) v b =
     (case parse_prefix api6 (net_str (NetV6 a n)) of
        Some p \<Rightarrow> Ok (b\<lparr>pb_v6 := rt_insert api6 p v (pb_v6 b)\<rparr>)
      | None \<Rightarrow> Panic ''Ipv6Net Display always produces a valid Ipv6Prefix'')"

definition builder_build ::
  "(32 word, 'p4, 'r4, 't4, 'id) trie_api \<Rightarrow> (128 word, 'p6, 'r6, 't6, 'id) trie_api
     \<Rightarrow> ('r4, 'r6) peer_net_builder \<Rightarrow> ('t4, 't6) peer_net" where
  "builder_build api4 api6 b = \<lparr>pn_v4 = compress api4 (pb_v4 b), pn_v6 = compress api6 (pb_v6 b)\<rparr>"

section \<open>Building the sessions\<close>

type_synonym key = "u8 list"

text \<open>Durations and instants in nanoseconds.\<close>

type_synonym duration = nat
type_synonym instant = nat

definition from_secs :: "nat \<Rightarrow> duration" where
  "from_secs n = n * 10 ^ 9"

record peer_config =
  pc_public_key :: key
  pc_preshared_key :: "key option"
  pc_endpoint :: "socket_addr option"
  pc_allowed_ips :: "ip_net list"
  pc_persistent_keepalive :: "duration option"

text \<open>What \<^verbatim>\<open>rustyguard_core\<close> provides for building: the configuration owning the oracle, the
  registration of a peer, and the sessions made of it.\<close>

record ('oracle, 'cfg, 'id, 'sessions) core_api =
  from_oracle_async :: "'oracle \<Rightarrow> 'cfg"
  insert_peer :: "key \<Rightarrow> key option \<Rightarrow> socket_addr option \<Rightarrow> 'cfg \<Rightarrow> 'id \<times> 'cfg"
  sentinal :: 'id
  new_sessions :: "'cfg \<Rightarrow> 'sessions"

fun insert_prefixes ::
  "(32 word, 'p4, 'r4, 't4, 'id) trie_api \<Rightarrow> (128 word, 'p6, 'r6, 't6, 'id) trie_api
     \<Rightarrow> (ip_net \<Rightarrow> string) \<Rightarrow> 'id \<Rightarrow> ip_net list \<Rightarrow> ('r4, 'r6) peer_net_builder
     \<Rightarrow> (unit, ('r4, 'r6) peer_net_builder) outcome" where
  "insert_prefixes api4 api6 net_str v [] b = Ok b"
| "insert_prefixes api4 api6 net_str v (p # ps) b =
     bind_outcome (builder_insert api4 api6 net_str p v b)
       (insert_prefixes api4 api6 net_str v ps)"

fun add_peers ::
  "('oracle, 'cfg, 'id, 'sessions) core_api
     \<Rightarrow> (32 word, 'p4, 'r4, 't4, 'id) trie_api \<Rightarrow> (128 word, 'p6, 'r6, 't6, 'id) trie_api
     \<Rightarrow> (ip_net \<Rightarrow> string) \<Rightarrow> peer_config list \<Rightarrow> 'cfg \<Rightarrow> ('r4, 'r6) peer_net_builder
     \<Rightarrow> (unit, 'id list \<times> 'cfg \<times> ('r4, 'r6) peer_net_builder) outcome" where
  "add_peers core api4 api6 net_str [] cfg b = Ok ([], cfg, b)"
| "add_peers core api4 api6 net_str (peer # peers) cfg b =
     (case insert_peer core (pc_public_key peer) (pc_preshared_key peer) (pc_endpoint peer) cfg of
        (v, cfg') \<Rightarrow>
          bind_outcome (insert_prefixes api4 api6 net_str v (pc_allowed_ips peer) b) (\<lambda>b'.
          bind_outcome (add_peers core api4 api6 net_str peers cfg' b') (\<lambda>(ids, cfg'', b'').
          Ok (v # ids, cfg'', b''))))"

definition build_sessions ::
  "('oracle, 'cfg, 'id, 'sessions) core_api
     \<Rightarrow> (32 word, 'p4, 'r4, 't4, 'id) trie_api \<Rightarrow> (128 word, 'p6, 'r6, 't6, 'id) trie_api
     \<Rightarrow> (ip_net \<Rightarrow> string) \<Rightarrow> 'oracle \<Rightarrow> peer_config list
     \<Rightarrow> (unit, 'sessions \<times> ('t4, 't6) peer_net \<times> 'id list) outcome" where
  "build_sessions core api4 api6 net_str oracle peers =
     bind_outcome
       (add_peers core api4 api6 net_str peers (from_oracle_async core oracle)
          (builder_new api4 api6 (sentinal core)))
       (\<lambda>(ids, cfg, b). Ok (new_sessions core cfg, builder_build api4 api6 b, ids))"

section \<open>The reference meaning\<close>

text \<open>Among the configured prefixes that contain the address, a longest one; of several of the
  same length, the last configured; the given default when there is none.\<close>

fun owner_from :: "ip_addr \<Rightarrow> nat \<times> 'id \<Rightarrow> (ip_net \<times> 'id) list \<Rightarrow> nat \<times> 'id" where
  "owner_from ip (best, v) [] = (best, v)"
| "owner_from ip (best, v) ((net, w) # table) =
     (if in_net ip net \<and> best \<le> prefix_len net then owner_from ip (prefix_len net, w) table
      else owner_from ip (best, v) table)"

definition owner :: "'id \<Rightarrow> (ip_net \<times> 'id) list \<Rightarrow> ip_addr \<Rightarrow> 'id" where
  "owner sentinel table ip = snd (owner_from ip (0, sentinel) table)"

definition valid_net :: "ip_net \<Rightarrow> bool" where
  "valid_net net \<longleftrightarrow> prefix_len net \<le> (if is_net_v4 net then 32 else 128)"

text \<open>The prefix-to-peer table a list of peers and the identifiers given to them describe.\<close>

definition allowed_table :: "peer_config list \<Rightarrow> 'id list \<Rightarrow> (ip_net \<times> 'id) list" where
  "allowed_table peers ids =
     concat (map (\<lambda>(p, v). map (\<lambda>net. (net, v)) (pc_allowed_ips p)) (zip peers ids))"

text \<open>The identifiers in the order the peers are registered.\<close>

fun peer_ids_from :: "('oracle, 'cfg, 'id, 'sessions) core_api \<Rightarrow> peer_config list \<Rightarrow> 'cfg \<Rightarrow> 'id list" where
  "peer_ids_from core [] cfg = []"
| "peer_ids_from core (p # ps) cfg =
     (case insert_peer core (pc_public_key p) (pc_preshared_key p) (pc_endpoint p) cfg of
        (v, cfg') \<Rightarrow> v # peer_ids_from core ps cfg')"

lemma length_peer_ids_from [simp]: "length (peer_ids_from core ps cfg) = length ps"
  by (induction ps arbitrary: cfg) (auto split: prod.split)

lemma owner_from_Nil [simp]: "owner_from ip bv [] = bv"
  by (cases bv) simp

lemma owner_from_append:
  "owner_from ip bv (xs @ ys) = owner_from ip (owner_from ip bv xs) ys"
proof (induction xs arbitrary: bv)
  case Nil
  show ?case by simp
next
  case (Cons e xs)
  then show ?case by (cases e; cases bv) simp
qed

lemma owner_from_last:
  "owner_from ip bv (map (\<lambda>net. (net, w)) (nets @ [net])) =
     (let (best, v) = owner_from ip bv (map (\<lambda>net. (net, w)) nets)
      in if in_net ip net \<and> best \<le> prefix_len net then (prefix_len net, w) else (best, v))"
  by (cases "owner_from ip bv (map (\<lambda>net. (net, w)) nets)") (simp add: owner_from_append)

section \<open>The tries compute the reference meaning\<close>

text \<open>\<open>longest_at e N a (best, v)\<close>: among the prefixes of \<open>a\<close> bound in \<open>e\<close>, the longest has
  length \<open>best\<close> and value \<open>v\<close>.\<close>

definition longest_at :: "(bool list \<Rightarrow> 'id option) \<Rightarrow> bool list \<Rightarrow> nat \<times> 'id \<Rightarrow> bool" where
  "longest_at e bs bv \<longleftrightarrow>
     e [] \<noteq> None \<and> fst bv \<le> length bs \<and> e (take (fst bv) bs) = Some (snd bv)
     \<and> (\<forall>m. fst bv < m \<and> m \<le> length bs \<longrightarrow> e (take m bs) = None)"

lemma take_eq_length:
  "m \<le> length bs \<Longrightarrow> n \<le> length ps \<Longrightarrow> take m bs = take n ps \<Longrightarrow> m = n"
  by (metis length_take min.absorb2)

lemma longest_at_insert:
  assumes "longest_at e bs (best, v)" and "n \<le> length ps" and "length ps = length bs"
  shows "longest_at (e(take n ps \<mapsto> w)) bs
           (if take n bs = take n ps \<and> best \<le> n then (n, w) else (best, v))"
proof -
  have ne: "take m bs \<noteq> take n ps" if "m \<le> length bs" and "m \<noteq> n \<or> take n bs \<noteq> take n ps" for m
    using that assms(2) take_eq_length by metis
  let ?e = "e(take n ps \<mapsto> w)"
  have root: "?e [] \<noteq> None" using assms(1) by (simp add: longest_at_def)
  show ?thesis
  proof (cases "take n bs = take n ps \<and> best \<le> n")
    case True
    then have "?e (take m bs) = None" if "n < m" and "m \<le> length bs" for m
      using that assms(1) ne [of m] by (simp add: longest_at_def)
    with True root assms(2,3) show ?thesis by (auto simp: longest_at_def)
  next
    case False
    then have "take m bs \<noteq> take n ps" if "best \<le> m" and "m \<le> length bs" for m
      using that ne [of m] by (cases "m = n") auto
    with False root assms(1) show ?thesis by (auto simp: longest_at_def)
  qed
qed

context lpm_trie
begin

lemma root_longest: "longest_at (entries (with_root api s)) (bits (a :: 'n word)) (0, s)"
  by (simp add: longest_at_def entries_root bits_not_Nil)

lemma insert_longest:
  fixes a p :: "'n word"
  assumes "longest_at (entries r) (bits a) (best, v)" and "n \<le> LENGTH('n)"
  shows "\<exists>q. parse_prefix api (show_net p n) = Some q
    \<and> longest_at (entries (rt_insert api q w r)) (bits a)
        (if take n (bits a) = take n (bits p) \<and> best \<le> n then (n, w) else (best, v))"
proof -
  from parse_show [OF assms(2)] obtain q where q: "parse_prefix api (show_net p n) = Some q"
      "\<forall>v r. entries (rt_insert api q v r) = (entries r)(take n (bits p) \<mapsto> v)"
    by blast
  with longest_at_insert [OF assms(1), of n "bits p" w] assms(2) show ?thesis
    by (intro exI [of _ q]) simp
qed

lemma lookup_longest_at:
  fixes a :: "'n word"
  assumes "longest_at (entries r) (bits a) (best, v)"
  shows "lc_lookup api (compress api r) a = v"
proof -
  from assms have best: "best \<le> LENGTH('n)" "entries r (take best (bits a)) = Some v"
    and top: "\<And>m. best < m \<Longrightarrow> m \<le> LENGTH('n) \<Longrightarrow> entries r (take m (bits a)) = None"
    and root: "entries r [] \<noteq> None"
    by (auto simp: longest_at_def)
  from lookup_longest [OF root, of a] obtain n where n: "n \<le> LENGTH('n)"
      "entries r (take n (bits a)) = Some (lc_lookup api (compress api r) a)"
      "\<And>m. n < m \<Longrightarrow> m \<le> LENGTH('n) \<Longrightarrow> entries r (take m (bits a)) = None"
    by blast
  have "n = best" using n best top by (metis linorder_neqE_nat option.distinct(1))
  with n best show ?thesis by simp
qed

end

text \<open>Both families together: what the builder knows of one address.\<close>

fun tracks ::
  "('r4 \<Rightarrow> bool list \<Rightarrow> 'id option) \<Rightarrow> ('r6 \<Rightarrow> bool list \<Rightarrow> 'id option)
     \<Rightarrow> ip_addr \<Rightarrow> ('r4, 'r6) peer_net_builder \<Rightarrow> nat \<times> 'id \<Rightarrow> bool" where
  "tracks e4 e6 (IpV4 a) b bv = longest_at (e4 (pb_v4 b)) (bits a) bv"
| "tracks e4 e6 (IpV6 a) b bv = longest_at (e6 (pb_v6 b)) (bits a) bv"

locale dual_stack =
  v4: lpm_trie api4 "\<lambda>a n. net_str (NetV4 a n)" e4 +
  v6: lpm_trie api6 "\<lambda>a n. net_str (NetV6 a n)" e6
  for api4 :: "(32 word, 'p4, 'r4, 't4, 'id) trie_api"
    and api6 :: "(128 word, 'p6, 'r6, 't6, 'id) trie_api"
    and net_str :: "ip_net \<Rightarrow> string"
    and e4 :: "'r4 \<Rightarrow> bool list \<Rightarrow> 'id option"
    and e6 :: "'r6 \<Rightarrow> bool list \<Rightarrow> 'id option"
begin

lemma tracks_new: "tracks e4 e6 ip (builder_new api4 api6 s) (0, s)"
  by (cases ip) (simp_all add: builder_new_def v4.root_longest v6.root_longest)

lemma tracks_insert:
  assumes "\<forall>ip. tracks e4 e6 ip b (f ip)" and "valid_net net"
  shows "\<exists>b'. builder_insert api4 api6 net_str net w b = Ok b'
    \<and> (\<forall>ip. tracks e4 e6 ip b' (owner_from ip (f ip) [(net, w)]))"
proof (cases net)
  case (NetV4 p n)
  with assms(2) have n: "n \<le> LENGTH(32)" by (simp add: valid_net_def)
  obtain q where q: "parse_prefix api4 (net_str (NetV4 p n)) = Some q"
    using v4.parse_show [OF n] by blast
  let ?b = "b\<lparr>pb_v4 := rt_insert api4 q w (pb_v4 b)\<rparr>"
  have "tracks e4 e6 ip ?b (owner_from ip (f ip) [(net, w)])" for ip
  proof (cases ip)
    case (IpV4 a)
    from assms(1) IpV4 have "longest_at (e4 (pb_v4 b)) (bits a) (fst (f ip), snd (f ip))"
      by (metis prod.collapse tracks.simps(1))
    from v4.insert_longest [OF this n, of p w] q IpV4 NetV4 show ?thesis
      by (cases "f ip") (auto split: if_splits)
  next
    case (IpV6 a)
    with assms(1) [rule_format, of ip] NetV4 show ?thesis
      by (cases "f ip") simp
  qed
  with q NetV4 show ?thesis by (auto simp del: owner_from.simps)
next
  case (NetV6 p n)
  with assms(2) have n: "n \<le> LENGTH(128)" by (simp add: valid_net_def)
  obtain q where q: "parse_prefix api6 (net_str (NetV6 p n)) = Some q"
    using v6.parse_show [OF n] by blast
  let ?b = "b\<lparr>pb_v6 := rt_insert api6 q w (pb_v6 b)\<rparr>"
  have "tracks e4 e6 ip ?b (owner_from ip (f ip) [(net, w)])" for ip
  proof (cases ip)
    case (IpV6 a)
    from assms(1) IpV6 have "longest_at (e6 (pb_v6 b)) (bits a) (fst (f ip), snd (f ip))"
      by (metis prod.collapse tracks.simps(2))
    from v6.insert_longest [OF this n, of p w] q IpV6 NetV6 show ?thesis
      by (cases "f ip") (auto split: if_splits)
  next
    case (IpV4 a)
    with assms(1) [rule_format, of ip] NetV6 show ?thesis
      by (cases "f ip") simp
  qed
  with q NetV6 show ?thesis by (auto simp del: owner_from.simps)
qed

lemma tracks_prefixes:
  assumes "\<forall>ip. tracks e4 e6 ip b (f ip)" and "\<forall>net\<in>set nets. valid_net net"
  shows "\<exists>b'. insert_prefixes api4 api6 net_str w nets b = Ok b'
    \<and> (\<forall>ip. tracks e4 e6 ip b' (owner_from ip (f ip) (map (\<lambda>net. (net, w)) nets)))"
  using assms
proof (induction nets arbitrary: b f)
  case Nil
  then show ?case by (simp add: owner_from_Nil)
next
  case (Cons net nets)
  from Cons.prems(2) have "valid_net net" by simp
  with tracks_insert [OF Cons.prems(1)] obtain b1 where
    b1: "builder_insert api4 api6 net_str net w b = Ok b1"
      "\<forall>ip. tracks e4 e6 ip b1 (owner_from ip (f ip) [(net, w)])"
    by blast
  have "\<forall>net\<in>set nets. valid_net net" using Cons.prems(2) by simp
  from Cons.IH [OF b1(2) this] obtain b2 where
    "insert_prefixes api4 api6 net_str w nets b1 = Ok b2"
    "\<forall>ip. tracks e4 e6 ip b2 (owner_from ip (owner_from ip (f ip) [(net, w)])
        (map (\<lambda>net. (net, w)) nets))"
    by blast
  with b1(1) show ?case
    by (simp add: owner_from_append [symmetric] del: owner_from.simps)
qed

lemma tracks_peers:
  assumes "\<forall>ip. tracks e4 e6 ip b (f ip)"
    and "\<forall>p\<in>set peers. \<forall>net\<in>set (pc_allowed_ips p). valid_net net"
  shows "\<exists>cfg' b'. add_peers core api4 api6 net_str peers cfg b
        = Ok (peer_ids_from core peers cfg, cfg', b')
    \<and> (\<forall>ip. tracks e4 e6 ip b'
          (owner_from ip (f ip) (allowed_table peers (peer_ids_from core peers cfg))))"
  using assms
proof (induction peers arbitrary: b f cfg)
  case Nil
  then show ?case by (simp add: owner_from_Nil allowed_table_def)
next
  case (Cons p peers)
  obtain v cfg1 where v: "insert_peer core (pc_public_key p) (pc_preshared_key p)
      (pc_endpoint p) cfg = (v, cfg1)" by fastforce
  have "\<forall>net\<in>set (pc_allowed_ips p). valid_net net" using Cons.prems(2) by simp
  with tracks_prefixes [OF Cons.prems(1)] obtain b1 where
    b1: "insert_prefixes api4 api6 net_str v (pc_allowed_ips p) b = Ok b1"
      "\<forall>ip. tracks e4 e6 ip b1
        (owner_from ip (f ip) (map (\<lambda>net. (net, v)) (pc_allowed_ips p)))"
    by blast
  have "\<forall>p\<in>set peers. \<forall>net\<in>set (pc_allowed_ips p). valid_net net"
    using Cons.prems(2) by simp
  from Cons.IH [OF b1(2) this, of cfg1] obtain cfg2 b2 where
    "add_peers core api4 api6 net_str peers cfg1 b1
       = Ok (peer_ids_from core peers cfg1, cfg2, b2)"
    "\<forall>ip. tracks e4 e6 ip b2
      (owner_from ip (owner_from ip (f ip) (map (\<lambda>net. (net, v)) (pc_allowed_ips p)))
        (allowed_table peers (peer_ids_from core peers cfg1)))"
    by blast
  with v b1(1) show ?case
    by (simp add: owner_from_append [symmetric] allowed_table_def del: owner_from.simps)
qed

lemma lookup_tracks:
  assumes "tracks e4 e6 ip b bv"
  shows "peer_net_lookup api4 api6 (builder_build api4 api6 b) ip = snd bv"
proof (cases ip)
  case (IpV4 a)
  with assms have "longest_at (e4 (pb_v4 b)) (bits a) (fst bv, snd bv)" by simp
  from v4.lookup_longest_at [OF this] IpV4 show ?thesis by (simp add: builder_build_def)
next
  case (IpV6 a)
  with assms have "longest_at (e6 (pb_v6 b)) (bits a) (fst bv, snd bv)" by simp
  from v6.lookup_longest_at [OF this] IpV6 show ?thesis by (simp add: builder_build_def)
qed

lemma build_sessions_owner:
  assumes "\<forall>p\<in>set peers. \<forall>net\<in>set (pc_allowed_ips p). valid_net net"
  shows "\<exists>sessions net. build_sessions core api4 api6 net_str oracle peers
        = Ok (sessions, net, peer_ids_from core peers (from_oracle_async core oracle))
    \<and> (\<forall>ip. peer_net_lookup api4 api6 net ip = owner (sentinal core)
          (allowed_table peers (peer_ids_from core peers (from_oracle_async core oracle))) ip)"
proof -
  let ?ids = "peer_ids_from core peers (from_oracle_async core oracle)"
  let ?b0 = "builder_new api4 api6 (sentinal core)"
  have "\<forall>ip. tracks e4 e6 ip ?b0 ((\<lambda>_. (0, sentinal core)) ip)" by (simp add: tracks_new)
  from tracks_peers [OF this assms, of core "from_oracle_async core oracle"]
  obtain cfg b where
    add: "add_peers core api4 api6 net_str peers (from_oracle_async core oracle) ?b0
            = Ok (?ids, cfg, b)"
    and tr: "\<forall>ip. tracks e4 e6 ip b (owner_from ip (0, sentinal core) (allowed_table peers ?ids))"
    by blast
  from add have "build_sessions core api4 api6 net_str oracle peers
      = Ok (new_sessions core cfg, builder_build api4 api6 b, ?ids)"
    by (simp only: build_sessions_def bind_outcome.simps prod.case)
  with tr show ?thesis by (auto simp: owner_def intro!: lookup_tracks)
qed

end

section \<open>A binary radix trie meets the contract\<close>

datatype 'v radix = Leaf | Node "'v option" "'v radix" "'v radix"

fun radix_insert :: "bool list \<Rightarrow> 'v \<Rightarrow> 'v radix \<Rightarrow> 'v radix" where
  "radix_insert [] v Leaf = Node (Some v) Leaf Leaf"
| "radix_insert [] v (Node x l r) = Node (Some v) l r"
| "radix_insert (b # bs) v Leaf =
     (if b then Node None Leaf (radix_insert bs v Leaf) else Node None (radix_insert bs v Leaf) Leaf)"
| "radix_insert (b # bs) v (Node x l r) =
     (if b then Node x l (radix_insert bs v r) else Node x (radix_insert bs v l) r)"

fun radix_at :: "'v radix \<Rightarrow> bool list \<Rightarrow> 'v option" where
  "radix_at Leaf bs = None"
| "radix_at (Node x l r) [] = x"
| "radix_at (Node x l r) (b # bs) = radix_at (if b then r else l) bs"

fun radix_longest :: "'v radix \<Rightarrow> bool list \<Rightarrow> 'v option" where
  "radix_longest Leaf bs = None"
| "radix_longest (Node x l r) [] = x"
| "radix_longest (Node x l r) (b # bs) =
     (case radix_longest (if b then r else l) bs of Some v \<Rightarrow> Some v | None \<Rightarrow> x)"

lemma radix_at_Node:
  "radix_at (Node x l r) bs = (case bs of [] \<Rightarrow> x | b # cs \<Rightarrow> radix_at (if b then r else l) cs)"
  by (cases bs) auto

lemma radix_at_insert: "radix_at (radix_insert k v t) = (radix_at t)(k \<mapsto> v)"
proof
  show "radix_at (radix_insert k v t) bs = ((radix_at t)(k \<mapsto> v)) bs" for bs
    by (induction k v t arbitrary: bs rule: radix_insert.induct)
       (auto simp: radix_at_Node split: list.split)
qed

lemma radix_longest_None:
  "radix_longest t bs = None \<longleftrightarrow> (\<forall>n\<le>length bs. radix_at t (take n bs) = None)"
proof (induction t bs rule: radix_longest.induct)
  case (3 x l r b bs)
  have "(\<forall>n\<le>length (b # bs). radix_at (Node x l r) (take n (b # bs)) = None)
      \<longleftrightarrow> x = None \<and> (\<forall>n\<le>length bs. radix_at (if b then r else l) (take n bs) = None)"
    by (auto simp: take_Cons' all_conj_distrib)
  with 3 show ?case by (auto split: option.split)
qed auto

lemma radix_longest_Some:
  "radix_longest t bs = Some v \<Longrightarrow>
   \<exists>n\<le>length bs. radix_at t (take n bs) = Some v
     \<and> (\<forall>m. n < m \<and> m \<le> length bs \<longrightarrow> radix_at t (take m bs) = None)"
proof (induction t bs rule: radix_longest.induct)
  case (3 x l r b bs)
  let ?t = "if b then r else l"
  show ?case
  proof (cases "radix_longest ?t bs")
    case (Some w)
    with 3 obtain n where "n \<le> length bs" "radix_at ?t (take n bs) = Some v"
        "\<forall>m. n < m \<and> m \<le> length bs \<longrightarrow> radix_at ?t (take m bs) = None"
      by (auto split: if_splits)
    then show ?thesis
      by (intro exI [of _ "Suc n"]) (auto simp: take_Cons' Suc_less_eq2)
  next
    case None
    with 3(2) have "x = Some v" by simp
    moreover have "radix_at (Node x l r) (take m (b # bs)) = None"
      if "0 < m" and "m \<le> length (b # bs)" for m
      using that None [unfolded radix_longest_None] by (cases m) auto
    ultimately show ?thesis by (intro exI [of _ 0]) simp
  qed
qed auto

text \<open>The prefix text of the instance spells the bits of the prefix; its parser reads them back.\<close>

fun bit_text :: "bool list \<Rightarrow> string" where
  "bit_text [] = []"
| "bit_text (b # bs) = (if b then CHR ''1'' else CHR ''0'') # bit_text bs"

definition parse_bits :: "string \<Rightarrow> bool list option" where
  "parse_bits s = Some (map (\<lambda>c. c = CHR ''1'') s)"

fun net_bit_text :: "ip_net \<Rightarrow> string" where
  "net_bit_text (NetV4 a n) = bit_text (take n (bits a))"
| "net_bit_text (NetV6 a n) = bit_text (take n (bits a))"

lemma map_bit_text [simp]: "map (\<lambda>c. c = CHR ''1'') (bit_text bs) = bs"
  by (induction bs) auto

lemma parse_bit_text [simp]: "parse_bits (bit_text bs) = Some bs"
  by (simp add: parse_bits_def)

definition radix_api :: "('n::len word, bool list, 'v radix, 'v radix, 'v) trie_api" where
  "radix_api =
     \<lparr>with_root = (\<lambda>s. Node (Some s) Leaf Leaf), parse_prefix = parse_bits,
      rt_insert = radix_insert, compress = (\<lambda>t. t),
      lc_lookup = (\<lambda>t a. the (radix_longest t (bits a)))\<rparr>"

lemma radix_lpm:
  assumes "\<And>a n. show_net a n = bit_text (take n (bits a))"
  shows "lpm_trie (radix_api :: ('n::len word, bool list, 'v radix, 'v radix, 'v) trie_api)
           show_net radix_at"
proof
  show "radix_at (with_root radix_api s) = [[] \<mapsto> s]" for s :: 'v
  proof
    show "radix_at (with_root radix_api s) bs = [[] \<mapsto> s] bs" for bs
      by (cases bs) (simp_all add: radix_api_def)
  qed
  show "\<exists>p. parse_prefix radix_api (show_net a n) = Some p
      \<and> (\<forall>v r. radix_at (rt_insert radix_api p v r) = (radix_at r)(take n (bits a) \<mapsto> v))"
    for a :: "'n word" and n
    by (simp add: radix_api_def assms radix_at_insert)
  show "\<exists>n\<le>LENGTH('n). radix_at r (take n (bits a))
        = Some (lc_lookup radix_api (compress radix_api r) a)
      \<and> (\<forall>m. n < m \<and> m \<le> LENGTH('n) \<longrightarrow> radix_at r (take m (bits a)) = None)"
    if "radix_at r [] \<noteq> None" for r :: "'v radix" and a :: "'n word"
  proof -
    have "radix_longest r (bits a) \<noteq> None"
      using that by (auto simp: radix_longest_None intro!: exI [of _ 0])
    then obtain v where "radix_longest r (bits a) = Some v" by auto
    with radix_longest_Some [OF this] show ?thesis by (simp add: radix_api_def)
  qed
qed

interpretation radix: dual_stack radix_api radix_api net_bit_text radix_at radix_at
  by (intro dual_stack.intro radix_lpm) simp_all

section \<open>Properties\<close>

text \<open>The description of \<open>owner\<close>, spelt out: a matching entry of greatest length, the last of
  those, or the default when no entry matches.\<close>

lemma owner_from_spec:
  "(\<forall>e\<in>set table. \<not> (in_net ip (fst e) \<and> fst bv \<le> prefix_len (fst e)))
     \<and> owner_from ip bv table = bv
   \<or> (\<exists>i<length table. in_net ip (fst (table ! i))
        \<and> owner_from ip bv table = (prefix_len (fst (table ! i)), snd (table ! i))
        \<and> fst bv \<le> prefix_len (fst (table ! i))
        \<and> (\<forall>j<length table. in_net ip (fst (table ! j)) \<longrightarrow>
             prefix_len (fst (table ! j)) \<le> prefix_len (fst (table ! i))
             \<and> (i < j \<longrightarrow> prefix_len (fst (table ! j)) < prefix_len (fst (table ! i)))))"
proof (induction table rule: rev_induct)
  case Nil
  show ?case by simp
next
  case (snoc e table)
  obtain best v where bv': "owner_from ip bv table = (best, v)" by fastforce
  have step: "owner_from ip bv (table @ [e]) =
      (if in_net ip (fst e) \<and> best \<le> prefix_len (fst e) then (prefix_len (fst e), snd e)
       else (best, v))"
    by (cases e) (simp add: owner_from_append bv')
  show ?case
  proof (cases "in_net ip (fst e) \<and> best \<le> prefix_len (fst e)")
    case True
    with snoc bv' step show ?thesis
      by (intro disjI2 exI [of _ "length table"])
         (fastforce simp: nth_append less_Suc_eq dest: nth_mem)
  next
    case False
    from snoc show ?thesis
    proof
      assume "(\<forall>e\<in>set table. \<not> (in_net ip (fst e) \<and> fst bv \<le> prefix_len (fst e)))
        \<and> owner_from ip bv table = bv"
      with False step bv' show ?thesis by auto
    next
      assume "\<exists>i<length table. in_net ip (fst (table ! i))
        \<and> owner_from ip bv table = (prefix_len (fst (table ! i)), snd (table ! i))
        \<and> fst bv \<le> prefix_len (fst (table ! i))
        \<and> (\<forall>j<length table. in_net ip (fst (table ! j)) \<longrightarrow>
             prefix_len (fst (table ! j)) \<le> prefix_len (fst (table ! i))
             \<and> (i < j \<longrightarrow> prefix_len (fst (table ! j)) < prefix_len (fst (table ! i))))"
      then obtain i where "i < length table" "in_net ip (fst (table ! i))"
        "owner_from ip bv table = (prefix_len (fst (table ! i)), snd (table ! i))"
        "fst bv \<le> prefix_len (fst (table ! i))"
        "\<forall>j<length table. in_net ip (fst (table ! j)) \<longrightarrow>
             prefix_len (fst (table ! j)) \<le> prefix_len (fst (table ! i))
             \<and> (i < j \<longrightarrow> prefix_len (fst (table ! j)) < prefix_len (fst (table ! i)))"
        by blast
      with False step bv' show ?thesis
        by (intro disjI2 exI [of _ i]) (auto simp: nth_append less_Suc_eq)
    qed
  qed
qed

text \<open>C21: \<^verbatim>\<open>build_sessions\<close> implements cryptokey routing.  Over tries that keep their
  documented contract and for prefixes of legal length it never panics, returns one identifier
  per peer in the order of the configuration, and the table it returns maps every address of
  either family to the peer whose \<^verbatim>\<open>AllowedIPs\<close> hold the longest prefix of it (of equally
  long ones the last configured), and to the sentinel when no prefix matches.\<close>

theorem build_sessions_routes_by_longest_prefix:
  assumes "dual_stack api4 api6 net_str e4 e6"
    and "\<forall>p\<in>set peers. \<forall>net\<in>set (pc_allowed_ips p). valid_net net"
  shows "\<exists>sessions net ids. build_sessions core api4 api6 net_str oracle peers
        = Ok (sessions, net, ids)
    \<and> ids = peer_ids_from core peers (from_oracle_async core oracle)
    \<and> length ids = length peers
    \<and> (\<forall>ip. peer_net_lookup api4 api6 net ip
          = owner (sentinal core) (allowed_table peers ids) ip)"
  using dual_stack.build_sessions_owner [OF assms] by auto

definition core_demo :: "(unit, nat, nat, nat) core_api" where
  "core_demo = \<lparr>from_oracle_async = (\<lambda>_. 1), insert_peer = (\<lambda>pk psk ep n. (n, Suc n)),
     sentinal = 0, new_sessions = (\<lambda>n. n)\<rparr>"

definition peer_demo :: "ip_net list \<Rightarrow> peer_config" where
  "peer_demo nets = \<lparr>pc_public_key = replicate 32 7, pc_preshared_key = None,
     pc_endpoint = None, pc_allowed_ips = nets, pc_persistent_keepalive = None\<rparr>"

definition peers_demo :: "peer_config list" where
  "peers_demo = [peer_demo [NetV4 0 0, NetV6 0 0], peer_demo [NetV4 0x0A000000 8]]"

theorem build_sessions_routes_by_longest_prefix_witness:
  "\<exists>sessions net ids. build_sessions core_demo radix_api radix_api net_bit_text () peers_demo
        = Ok (sessions, net, ids)
    \<and> ids = peer_ids_from core_demo peers_demo (from_oracle_async core_demo ())
    \<and> length ids = length peers_demo
    \<and> (\<forall>ip. peer_net_lookup radix_api radix_api net ip
          = owner (sentinal core_demo) (allowed_table peers_demo ids) ip)"
  by (rule build_sessions_routes_by_longest_prefix [OF radix.dual_stack_axioms])
     (simp add: peers_demo_def peer_demo_def valid_net_def)

end
