(* ===== verification/Packet.thy ===== *)
theory Packet
  imports PeerNet
begin

text \<open>
  \<^verbatim>\<open>smartguard-crypto/src/session/handle.rs\<close>: one packet from the network or from the TUN
  device.  Buffers are lists of bytes; every slice expression of the source that can be out of
  range is a call of \<open>slice\<close>, which panics where Rust does.

  The WireGuard sessions (\<^verbatim>\<open>rustyguard_core\<close>) are a parameter: \<open>sess_api\<close> holds the two
  operations called here.  Both work in place, so they return the buffer as they leave it.
  \<open>platform\<close> holds the constants of \<^verbatim>\<open>rustyguard_tun\<close>, the size of a data header and the
  length of the header the kernel puts before a packet.
\<close>

section \<open>What the sessions and the platform provide\<close>

datatype 'id message =
    RecvErr
  | Noop
  | HandshakeComplete
  | Read 'id "u8 list"
  | WriteBack "u8 list"

datatype 'm send_message =
    SendErr
  | Maintenance "u8 list" socket_addr
  | Data socket_addr 'm

record ('s, 'id, 'm) sess_api =
  recv_message :: "'s \<Rightarrow> socket_addr \<Rightarrow> u8 list \<Rightarrow> 'id message \<times> 's \<times> u8 list"
  send_message :: "'s \<Rightarrow> 'id \<Rightarrow> u8 list \<Rightarrow> 'm send_message \<times> 's \<times> u8 list"
  frame_in_place :: "'m \<Rightarrow> u8 list \<Rightarrow> u8 list"

record platform =
  DATA_HEADER_SIZE :: nat
  KERNEL_HEADER_LEN :: nat
  TUN_BUF_START :: nat
  get_header_for :: "u8 list \<Rightarrow> u8 list"

datatype write_result = Inbound "u8 list" | Outbound "u8 list" socket_addr | NoWrite

section \<open>Slices\<close>

definition slice :: "nat \<Rightarrow> nat \<Rightarrow> 'a list \<Rightarrow> (unit, 'a list) outcome" where
  "slice from to xs =
     (if from \<le> to \<and> to \<le> length xs then Ok (take (to - from) (drop from xs))
      else Panic ''slice index out of range'')"

text \<open>Writing \<open>ys\<close> over the bytes from \<open>from\<close> on; the caller has checked the range.\<close>

definition overwrite :: "nat \<Rightarrow> 'a list \<Rightarrow> 'a list \<Rightarrow> 'a list" where
  "overwrite from ys xs = take from xs @ ys @ drop (from + length ys) xs"

lemma slice_Ok:
  "slice a b xs = Ok ys \<longleftrightarrow> a \<le> b \<and> b \<le> length xs \<and> ys = take (b - a) (drop a xs)"
  by (auto simp: slice_def)

lemma length_overwrite [simp]:
  "from + length ys \<le> length xs \<Longrightarrow> length (overwrite from ys xs) = length xs"
  by (simp add: overwrite_def)

section \<open>Addresses of a packet\<close>

definition const_max :: "nat \<Rightarrow> nat \<Rightarrow> nat" where
  "const_max a b = (if a \<le> b then b else a)"

definition IP_PACKET_START :: "platform \<Rightarrow> nat" where
  "IP_PACKET_START pf = const_max (DATA_HEADER_SIZE pf) (KERNEL_HEADER_LEN pf)"

definition TAG_FOOTER_SIZE :: nat where
  "TAG_FOOTER_SIZE = 16"

definition WG_PACKET_START :: "platform \<Rightarrow> nat" where
  "WG_PACKET_START pf = IP_PACKET_START pf - DATA_HEADER_SIZE pf"

text \<open>The version is the high nibble of the first byte.\<close>

fun version_nibble :: "u8 list \<Rightarrow> u8 option" where
  "version_nibble [] = None"
| "version_nibble (b # bs) = Some (drop_bit 4 b)"

definition ip_at :: "nat \<Rightarrow> nat \<Rightarrow> u8 list \<Rightarrow> ip_addr option" where
  "ip_at at4 at6 buf =
     (case version_nibble buf of
        None \<Rightarrow> None
      | Some v \<Rightarrow>
          if v = 4 \<and> length buf \<ge> 20 then Some (IpV4 (from_be (take 4 (drop at4 buf))))
          else if v = 6 \<and> length buf \<ge> 40 then Some (IpV6 (from_be (take 16 (drop at6 buf))))
          else None)"

definition ip_src :: "u8 list \<Rightarrow> ip_addr option" where
  "ip_src buf = ip_at 12 8 buf"

definition ip_dst :: "u8 list \<Rightarrow> ip_addr option" where
  "ip_dst buf = ip_at 16 24 buf"

section \<open>A packet from the network\<close>

definition handle_extern ::
  "('s, 'id, 'm) sess_api \<Rightarrow> platform \<Rightarrow> (ip_addr \<Rightarrow> 'id) \<Rightarrow> 's \<Rightarrow> socket_addr \<Rightarrow> u8 list
     \<Rightarrow> (unit, write_result) outcome \<times> 's" where
  "handle_extern api pf lookup sessions addr ep_buf =
     (case recv_message api sessions addr ep_buf of
        (msg, sessions', ep_buf') \<Rightarrow>
          ((case msg of
              RecvErr \<Rightarrow> Ok NoWrite
            | Noop \<Rightarrow> Ok NoWrite
            | HandshakeComplete \<Rightarrow> Ok NoWrite
            | Read peer_idx buf \<Rightarrow>
                if buf = [] then Ok NoWrite
                else (case ip_src buf of
                  None \<Rightarrow> Ok NoWrite
                | Some src \<Rightarrow>
                    if lookup src \<noteq> peer_idx then Ok NoWrite
                    else bind_outcome
                      (slice (TUN_BUF_START pf) (IP_PACKET_START pf + length buf) ep_buf')
                      (\<lambda>tun_buf.
                        if length tun_buf < KERNEL_HEADER_LEN pf
                        then Panic ''Enough len for header by definition of TUN_BUF_START''
                        else let packet = drop (KERNEL_HEADER_LEN pf) tun_buf
                             in Ok (Inbound (get_header_for pf packet @ packet))))
            | WriteBack buf \<Rightarrow>
                bind_outcome (slice 0 (length buf) ep_buf') (\<lambda>data. Ok (Outbound data addr))),
           sessions'))"

section \<open>A packet from the TUN device\<close>

definition next_multiple_of :: "nat \<Rightarrow> nat \<Rightarrow> nat" where
  "next_multiple_of n k = (if n mod k = 0 then n else n + (k - n mod k))"

definition frame_reply ::
  "('s, 'id, 'm) sess_api \<Rightarrow> platform \<Rightarrow> nat \<Rightarrow> u8 list \<Rightarrow> 'm send_message
     \<Rightarrow> (unit, write_result) outcome" where
  "frame_reply api pf pad_to reply_buf send =
     (case send of
        SendErr \<Rightarrow> Ok NoWrite
      | Maintenance data to \<Rightarrow>
          (if length data \<le> length reply_buf then Ok (Outbound data to)
           else Panic ''slice index out of range'')
      | Data ep metadata \<Rightarrow>
          bind_outcome (slice (WG_PACKET_START pf) (pad_to + TAG_FOOTER_SIZE) reply_buf) (\<lambda>buf.
          Ok (Outbound (frame_in_place api metadata buf) ep)))"

definition handle_intern ::
  "('s, 'id, 'm) sess_api \<Rightarrow> platform \<Rightarrow> (ip_addr \<Rightarrow> 'id) \<Rightarrow> 's \<Rightarrow> u8 list \<Rightarrow> nat
     \<Rightarrow> (unit, write_result) outcome \<times> 's" where
  "handle_intern api pf lookup sessions reply_buf filled =
     (case slice (IP_PACKET_START pf) filled reply_buf of
        Err e \<Rightarrow> (Err e, sessions)
      | Panic m \<Rightarrow> (Panic m, sessions)
      | Ok packet \<Rightarrow>
          (case ip_dst packet of
             None \<Rightarrow> (Ok NoWrite, sessions)
           | Some dst \<Rightarrow>
               let peer_idx = lookup dst;
                   n = filled - IP_PACKET_START pf;
                   pad_to = IP_PACKET_START pf + next_multiple_of n 16
               in if pad_to > length reply_buf
                  then (Panic ''slice index out of range'', sessions)
                  else
                    let padded = packet @ replicate (pad_to - filled) 0
                    in (case send_message api sessions peer_idx padded of
                          (send, sessions', cipher) \<Rightarrow>
                            (frame_reply api pf pad_to
                               (overwrite (IP_PACKET_START pf) cipher reply_buf) send,
                             sessions'))))"

section \<open>Lemmas\<close>

lemma const_max_eq: "const_max a b = max a b"
  by (simp add: const_max_def)

lemma IP_PACKET_START_ge: "DATA_HEADER_SIZE pf \<le> IP_PACKET_START pf"
  by (simp add: IP_PACKET_START_def const_max_eq)

lemma WG_plus_header: "WG_PACKET_START pf + DATA_HEADER_SIZE pf = IP_PACKET_START pf"
  by (simp add: WG_PACKET_START_def IP_PACKET_START_ge)

lemma next_multiple_of_props:
  assumes "0 < k"
  shows "n \<le> next_multiple_of n k" "next_multiple_of n k < n + k" "next_multiple_of n k mod k = 0"
proof -
  have r: "n mod k < k" using assms by simp
  show "n \<le> next_multiple_of n k" by (simp add: next_multiple_of_def)
  show "next_multiple_of n k < n + k" using assms r by (auto simp: next_multiple_of_def)
  show "next_multiple_of n k mod k = 0"
  proof (cases "n mod k = 0")
    case False
    have "n = n div k * k + n mod k" by (rule div_mult_mod_eq [symmetric])
    then have "n + (k - n mod k) = n div k * k + k" using r by linarith
    then show ?thesis using False by (simp only: next_multiple_of_def if_False mod_mult_self3 mod_self)
  qed (simp add: next_multiple_of_def)
qed

section \<open>What the sessions promise of the buffer\<close>

text \<open>A decrypted packet lies in the buffer right behind the data header; a reply to write
  back fits the buffer it was made in.\<close>

definition recv_in_place :: "('s, 'id, 'm) sess_api \<Rightarrow> platform \<Rightarrow> bool" where
  "recv_in_place api pf \<longleftrightarrow> (\<forall>s addr buf msg s' buf'.
     recv_message api s addr buf = (msg, s', buf') \<longrightarrow>
       (\<forall>p pkt. msg = Read p pkt \<longrightarrow>
          IP_PACKET_START pf + length pkt \<le> length buf'
          \<and> take (length pkt) (drop (IP_PACKET_START pf) buf') = pkt)
       \<and> (\<forall>out. msg = WriteBack out \<longrightarrow> length out \<le> length buf'))"

text \<open>Encryption keeps the length of the slice it is given, and a maintenance message is no
  longer than \<open>limit\<close>.\<close>

definition send_in_place :: "('s, 'id, 'm) sess_api \<Rightarrow> nat \<Rightarrow> bool" where
  "send_in_place api limit \<longleftrightarrow> (\<forall>s p payload send s' cipher.
     send_message api s p payload = (send, s', cipher) \<longrightarrow>
       length cipher = length payload
       \<and> (\<forall>data to. send = Maintenance data to \<longrightarrow> length data \<le> limit))"

text \<open>The kernel header is written directly in front of the packet.\<close>

definition platform_ok :: "platform \<Rightarrow> bool" where
  "platform_ok pf \<longleftrightarrow> TUN_BUF_START pf + KERNEL_HEADER_LEN pf = IP_PACKET_START pf"

lemma recv_in_place_Read:
  assumes "recv_in_place api pf" and "recv_message api s addr buf = (Read p pkt, s', buf')"
    and "platform_ok pf"
  shows "slice (TUN_BUF_START pf) (IP_PACKET_START pf + length pkt) buf'
       = Ok (take (KERNEL_HEADER_LEN pf) (drop (TUN_BUF_START pf) buf') @ pkt)"
    and "KERNEL_HEADER_LEN pf \<le> length (drop (TUN_BUF_START pf) buf')"
proof -
  let ?t = "TUN_BUF_START pf" and ?h = "KERNEL_HEADER_LEN pf" and ?i = "IP_PACKET_START pf"
  from assms(1,2) have len: "?i + length pkt \<le> length buf'"
    and pkt: "take (length pkt) (drop ?i buf') = pkt"
    unfolding recv_in_place_def by blast+
  from assms(3) have i: "?i = ?t + ?h" by (simp add: platform_ok_def)
  have "take (?i + length pkt - ?t) (drop ?t buf')
      = take ?h (drop ?t buf') @ take (length pkt) (drop ?i buf')"
    using i take_add [of ?h "length pkt" "drop ?t buf'"] by (simp add: add.commute)
  with len pkt i show "slice ?t (?i + length pkt) buf' = Ok (take ?h (drop ?t buf') @ pkt)"
    by (simp add: slice_def)
  from len i show "?h \<le> length (drop ?t buf')" by simp
qed

section \<open>A concrete instance\<close>

text \<open>A platform and sessions of the shape the code runs on: 16-byte data headers, a 4-byte
  kernel header.  The sessions of this instance send payloads unencrypted and receive a packet
  of peer \<open>1\<close> behind the header, when there is one.\<close>

definition pf_demo :: platform where
  "pf_demo = \<lparr>DATA_HEADER_SIZE = 16, KERNEL_HEADER_LEN = 4, TUN_BUF_START = 12,
     get_header_for = (\<lambda>_. [0, 0, 0, 2])\<rparr>"

definition sess_demo :: "socket_addr \<Rightarrow> (nat, nat, unit) sess_api" where
  "sess_demo peer_addr = \<lparr>
     recv_message = (\<lambda>s addr buf.
       if 32 < length buf then (Read 1 (take (length buf - 32) (drop 16 buf)), Suc s, buf)
       else (Noop, s, buf)),
     send_message = (\<lambda>s p payload. (Data peer_addr (), Suc s, payload)),
     frame_in_place = (\<lambda>_ buf. buf)\<rparr>"

lemma pf_demo_ok: "platform_ok pf_demo" "IP_PACKET_START pf_demo = 16"
  by (simp_all add: platform_ok_def pf_demo_def IP_PACKET_START_def const_max_def)

lemma sess_demo_recv: "recv_in_place (sess_demo a) pf_demo"
  by (auto simp: recv_in_place_def sess_demo_def pf_demo_ok split: if_splits)

lemma sess_demo_send: "send_in_place (sess_demo a) n"
  by (simp add: send_in_place_def sess_demo_def)

definition addr_demo :: socket_addr where
  "addr_demo = \<lparr>sa_ip = IpV4 0xCB007102, sa_port = 51820\<rparr>"

definition packet_demo :: "32 word \<Rightarrow> 32 word \<Rightarrow> u8 list" where
  "packet_demo src dst = 0x45 # replicate 11 0 @ to_be 4 src @ to_be 4 dst"

definition net_demo :: "(nat radix, nat radix) peer_net" where
  "net_demo = builder_build radix_api radix_api
     \<lparr>pb_v4 = radix_insert (take 8 (bits (0x0A000000 :: 32 word))) 2
                (radix_insert [] 1 (Node (Some 0) Leaf Leaf)),
      pb_v6 = radix_insert [] 1 (Node (Some 0) Leaf Leaf)\<rparr>"

lemma build_demo:
  "build_sessions core_demo radix_api radix_api net_bit_text () peers_demo = Ok (3, net_demo, [1, 2])"
  by (simp add: build_sessions_def core_demo_def peers_demo_def peer_demo_def builder_new_def
        radix_api_def net_demo_def builder_build_def parse_bits_def numeral_2_eq_2
        del: bind_outcome_Ok)

section \<open>Properties\<close>

text \<open>The addresses of a packet are read from the places the IP headers keep them: of a
  version 4 packet with source \<open>s4\<close> and destination \<open>d4\<close> in octets 12--15 and 16--19, and of a
  version 6 packet with \<open>s6\<close> and \<open>d6\<close> in octets 8--23 and 24--39, \<^verbatim>\<open>ip_src\<close> and \<^verbatim>\<open>ip_dst\<close>
  return exactly those, whatever follows the header.\<close>

theorem ip_src_dst_of_packet:
  fixes s4 d4 :: "32 word" and s6 d6 :: "128 word"
  assumes "drop_bit 4 b4 = (4 :: u8)" and "length rest4 = 11"
    and "drop_bit 4 b6 = (6 :: u8)" and "length rest6 = 7"
  shows "let p4 = b4 # rest4 @ to_be 4 s4 @ to_be 4 d4 @ body;
             p6 = b6 # rest6 @ to_be 16 s6 @ to_be 16 d6 @ body
         in ip_src p4 = Some (IpV4 s4) \<and> ip_dst p4 = Some (IpV4 d4)
            \<and> ip_src p6 = Some (IpV6 s6) \<and> ip_dst p6 = Some (IpV6 d6)"
proof -
  have v4: "ip_at 12 8 (b4 # rest4 @ to_be 4 s4 @ to_be 4 d4 @ body) = Some (IpV4 s4)"
    "ip_at 16 24 (b4 # rest4 @ to_be 4 s4 @ to_be 4 d4 @ body) = Some (IpV4 d4)"
    using assms(1,2) by (simp_all add: ip_at_def drop_Cons')
  have v6: "ip_at 12 8 (b6 # rest6 @ to_be 16 s6 @ to_be 16 d6 @ body) = Some (IpV6 s6)"
    "ip_at 16 24 (b6 # rest6 @ to_be 16 s6 @ to_be 16 d6 @ body) = Some (IpV6 d6)"
    using assms(3,4) by (simp_all add: ip_at_def drop_Cons')
  from v4 v6 show ?thesis by (simp add: ip_src_def ip_dst_def Let_def)
qed

theorem ip_src_dst_of_packet_witness:
  "let p4 = 0x45 # replicate 11 0 @ to_be 4 (0x0A000001 :: 32 word) @ to_be 4 (0x0A000002 :: 32 word) @ [1];
       p6 = 0x60 # replicate 7 0 @ to_be 16 (1 :: 128 word) @ to_be 16 (2 :: 128 word) @ [1]
   in ip_src p4 = Some (IpV4 0x0A000001) \<and> ip_dst p4 = Some (IpV4 0x0A000002)
      \<and> ip_src p6 = Some (IpV6 1) \<and> ip_dst p6 = Some (IpV6 2)"
  by (rule ip_src_dst_of_packet) simp_all

text \<open>C22: Cryptokey routing of received packets, end to end.  With the table of
  \<^verbatim>\<open>build_sessions\<close>, a packet from the network is handed to the TUN device only when it
  decrypted under the session of the peer that owns its source address (the longest prefix
  among all peers' \<^verbatim>\<open>AllowedIPs\<close>), and what is written is the kernel header followed by
  exactly the decrypted packet.\<close>

theorem handle_extern_inbound_authentic:
  assumes "dual_stack api4 api6 net_str e4 e6"
    and "\<forall>p\<in>set peers. \<forall>net\<in>set (pc_allowed_ips p). valid_net net"
    and "build_sessions core api4 api6 net_str oracle peers = Ok (sess, net, ids)"
    and "recv_in_place api pf" and "platform_ok pf"
    and "fst (handle_extern api pf (peer_net_lookup api4 api6 net) s addr buf) = Ok (Inbound out)"
  shows "\<exists>peer pkt src s' buf'. recv_message api s addr buf = (Read peer pkt, s', buf')
    \<and> ip_src pkt = Some src
    \<and> owner (sentinal core) (allowed_table peers ids) src = peer
    \<and> out = get_header_for pf pkt @ pkt"
proof -
  obtain msg s' buf' where r: "recv_message api s addr buf = (msg, s', buf')"
    by (metis prod_cases3)
  with assms(6) obtain peer pkt where m: "msg = Read peer pkt"
    by (cases msg) (auto simp: handle_extern_def)
  with r have r: "recv_message api s addr buf = (Read peer pkt, s', buf')" by simp
  note place = recv_in_place_Read [OF assms(4) r assms(5)]
  from assms(6) r obtain src where src: "ip_src pkt = Some src"
      "peer_net_lookup api4 api6 net src = peer"
    by (auto simp: handle_extern_def split: if_splits option.splits)
  with assms(6) r place have "out = get_header_for pf pkt @ pkt"
    by (auto simp: handle_extern_def Let_def split: if_splits)
  moreover from assms(3) src(2) dual_stack.build_sessions_owner [OF assms(1,2), of core "oracle"]
  have "owner (sentinal core) (allowed_table peers ids) src = peer" by auto
  ultimately show ?thesis using r src(1) by blast
qed

lemma extern_demo:
  "fst (handle_extern (sess_demo addr_demo) pf_demo (peer_net_lookup radix_api radix_api net_demo) 0 addr_demo
     (replicate 16 0 @ packet_demo 0xC0A80001 0x0A000002 @ replicate 16 0))
   = Ok (Inbound ([0, 0, 0, 2] @ packet_demo 0xC0A80001 0x0A000002))"
  by code_simp

theorem handle_extern_inbound_authentic_witness:
  "\<exists>peer pkt src s' buf'.
     recv_message (sess_demo addr_demo) 0 addr_demo
       (replicate 16 0 @ packet_demo 0xC0A80001 0x0A000002 @ replicate 16 0) = (Read peer pkt, s', buf')
    \<and> ip_src pkt = Some src
    \<and> owner (sentinal core_demo) (allowed_table peers_demo [1, 2]) src = peer
    \<and> [0, 0, 0, 2] @ packet_demo 0xC0A80001 0x0A000002 = get_header_for pf_demo pkt @ pkt"
  by (rule handle_extern_inbound_authentic
        [OF radix.dual_stack_axioms _ build_demo sess_demo_recv pf_demo_ok(1) extern_demo])
     (simp add: peers_demo_def peer_demo_def valid_net_def)

text \<open>C29: Receiving never panics: with sessions that keep their buffer contract and a platform
  whose TUN header ends where the packet starts, no slice of \<^verbatim>\<open>handle_extern\<close> is out of
  range and the kernel header always fits.\<close>

theorem handle_extern_no_panic:
  assumes "recv_in_place api pf" and "platform_ok pf"
  shows "fst (handle_extern api pf lookup s addr buf) \<noteq> Panic msg"
proof -
  obtain m s' buf' where r: "recv_message api s addr buf = (m, s', buf')"
    by (metis prod_cases3)
  show ?thesis
  proof (cases m)
    case (Read peer pkt)
    with r have r: "recv_message api s addr buf = (Read peer pkt, s', buf')" by simp
    from recv_in_place_Read [OF assms(1) r assms(2)] r show ?thesis
      by (auto simp: handle_extern_def Let_def split: option.split)
  next
    case (WriteBack out)
    with r assms(1) have "length out \<le> length buf'"
      unfolding recv_in_place_def by blast
    with r WriteBack show ?thesis by (simp add: handle_extern_def slice_def)
  next
    case RecvErr
    with r show ?thesis by (simp add: handle_extern_def)
  next
    case Noop
    with r show ?thesis by (simp add: handle_extern_def)
  next
    case HandshakeComplete
    with r show ?thesis by (simp add: handle_extern_def)
  qed
qed

theorem handle_extern_no_panic_witness:
  "fst (handle_extern (sess_demo addr_demo) pf_demo (\<lambda>_. 1) 0 addr_demo (replicate 60 0))
     \<noteq> Panic ''slice index out of range''"
  by (rule handle_extern_no_panic [OF sess_demo_recv pf_demo_ok(1)])

text \<open>The packet of a filled buffer, and the payload made of it: padded with zeros to a multiple
  of 16 bytes.\<close>

definition packet_of :: "platform \<Rightarrow> u8 list \<Rightarrow> nat \<Rightarrow> u8 list" where
  "packet_of pf reply_buf filled =
     take (filled - IP_PACKET_START pf) (drop (IP_PACKET_START pf) reply_buf)"

definition padded :: "u8 list \<Rightarrow> u8 list" where
  "padded pkt = pkt @ replicate (next_multiple_of (length pkt) 16 - length pkt) 0"

lemma length_padded [simp]: "length (padded pkt) = next_multiple_of (length pkt) 16"
  using next_multiple_of_props(1) [of 16 "length pkt"] by (simp add: padded_def)

lemma length_packet_of:
  "filled \<le> length reply_buf \<Longrightarrow> length (packet_of pf reply_buf filled) = filled - IP_PACKET_START pf"
  by (simp add: packet_of_def)

lemma handle_intern_in_range:
  assumes "IP_PACKET_START pf \<le> filled" and "filled \<le> length reply_buf"
    and "pkt = packet_of pf reply_buf filled"
    and "pad_to = IP_PACKET_START pf + next_multiple_of (length pkt) 16"
    and "pad_to \<le> length reply_buf"
  shows "handle_intern api pf lookup s reply_buf filled =
     (case ip_dst pkt of
        None \<Rightarrow> (Ok NoWrite, s)
      | Some dst \<Rightarrow>
          (case send_message api s (lookup dst) (padded pkt) of
             (send, s', cipher) \<Rightarrow>
               (frame_reply api pf pad_to (overwrite (IP_PACKET_START pf) cipher reply_buf) send, s')))"
proof -
  have n: "length pkt = filled - IP_PACKET_START pf"
    using assms(2,3) by (simp add: length_packet_of)
  have "slice (IP_PACKET_START pf) filled reply_buf = Ok pkt"
    using assms(1-3) by (simp add: slice_def packet_of_def)
  moreover have "pkt @ replicate (pad_to - filled) 0 = padded pkt"
    using assms(1,4) n by (simp add: padded_def)
  ultimately show ?thesis
    using assms(4,5) n by (simp add: handle_intern_def Let_def split: option.split)
qed

text \<open>C28: A packet read from the TUN device goes out whole and padded.  When the destination's
  session encrypts it, the payload handed to the session is the packet followed by fewer than
  16 zero bytes, of a length divisible by 16, and the datagram sent is the session's framing of
  header space, the ciphertext in place, and 16 bytes of tag space.\<close>

theorem handle_intern_frames_padded_packet:
  assumes "IP_PACKET_START pf \<le> filled" and "filled \<le> length reply_buf"
    and "pkt = packet_of pf reply_buf filled"
    and "pad_to = IP_PACKET_START pf + next_multiple_of (length pkt) 16"
    and "pad_to + TAG_FOOTER_SIZE \<le> length reply_buf"
    and "ip_dst pkt = Some dst"
    and "send_message api s (lookup dst) (padded pkt) = (Data ep metadata, s', cipher)"
    and "length cipher = length (padded pkt)"
  shows "handle_intern api pf lookup s reply_buf filled =
      (Ok (Outbound (frame_in_place api metadata
         (take (DATA_HEADER_SIZE pf) (drop (WG_PACKET_START pf) reply_buf)
          @ cipher @ take TAG_FOOTER_SIZE (drop pad_to reply_buf))) ep), s')
    \<and> 16 dvd length (padded pkt) \<and> length (padded pkt) < length pkt + 16
    \<and> take (length pkt) (padded pkt) = pkt"
proof -
  let ?i = "IP_PACKET_START pf" and ?w = "WG_PACKET_START pf" and ?d = "DATA_HEADER_SIZE pf"
  let ?buf = "overwrite ?i cipher reply_buf"
  have wd: "?w + ?d = ?i" by (rule WG_plus_header)
  then have dw: "?i - ?w = ?d" by simp
  have pad: "pad_to \<le> length reply_buf" "?i + length cipher = pad_to"
    using assms(4,5,8) by simp_all
  have "slice ?w (pad_to + TAG_FOOTER_SIZE) ?buf
      = Ok (take ?d (drop ?w reply_buf) @ cipher @ take TAG_FOOTER_SIZE (drop pad_to reply_buf))"
    unfolding slice_def overwrite_def
    using wd dw pad assms(5) by (auto simp: drop_take)
  then have "handle_intern api pf lookup s reply_buf filled =
      (Ok (Outbound (frame_in_place api metadata (take ?d (drop ?w reply_buf) @ cipher
         @ take TAG_FOOTER_SIZE (drop pad_to reply_buf))) ep), s')"
    using handle_intern_in_range [OF assms(1-4) pad(1), of api lookup s] assms(6,7) by (simp add: frame_reply_def)
  moreover have "16 dvd length (padded pkt)"
    using next_multiple_of_props(3) [of 16 "length pkt"] by (simp add: mod_eq_0_iff_dvd)
  moreover have "length (padded pkt) < length pkt + 16"
    using next_multiple_of_props(2) [of 16 "length pkt"] by simp
  ultimately show ?thesis by (simp add: padded_def)
qed

text \<open>C30: Sending never panics while the padded packet and its tag fit the buffer (and a
  handshake message does): every slice of \<^verbatim>\<open>handle_intern\<close> is then in range, whatever the
  packet's bytes and whatever the session answers.\<close>

theorem handle_intern_no_panic:
  assumes "IP_PACKET_START pf \<le> filled" and "filled \<le> length reply_buf"
    and "IP_PACKET_START pf + next_multiple_of (filled - IP_PACKET_START pf) 16 + TAG_FOOTER_SIZE
           \<le> length reply_buf"
    and "send_in_place api limit" and "limit \<le> length reply_buf"
  shows "fst (handle_intern api pf lookup s reply_buf filled) \<noteq> Panic msg"
proof -
  let ?i = "IP_PACKET_START pf"
  define pkt where pkt: "pkt = packet_of pf reply_buf filled"
  define pad_to where pad_to: "pad_to = ?i + next_multiple_of (length pkt) 16"
  have n: "length pkt = filled - ?i" using assms(2) pkt by (simp add: length_packet_of)
  then have fits: "pad_to + TAG_FOOTER_SIZE \<le> length reply_buf" using assms(3) pad_to by simp
  then have "pad_to \<le> length reply_buf" by simp
  note eq = handle_intern_in_range [OF assms(1,2) pkt pad_to this, of api lookup s]
  show ?thesis
  proof (cases "ip_dst pkt")
    case None
    with eq show ?thesis by simp
  next
    case (Some dst)
    obtain send s' cipher where
      sm: "send_message api s (lookup dst) (padded pkt) = (send, s', cipher)"
      by (metis prod_cases3)
    have len: "length (overwrite ?i cipher reply_buf) = length reply_buf"
      using assms(4) sm fits pad_to unfolding send_in_place_def by fastforce
    have "?i \<le> pad_to" using pad_to by simp
    then have "WG_PACKET_START pf \<le> pad_to + TAG_FOOTER_SIZE"
      by (simp add: WG_PACKET_START_def TAG_FOOTER_SIZE_def)
    with Some eq sm len fits assms(4,5) show ?thesis
      unfolding send_in_place_def
      by (cases send) (fastforce simp: frame_reply_def slice_def)+
  qed
qed

text \<open>C35: It does panic past that bound.  For a buffer of 2048 bytes with packets at offset 16
  (the sizes of \<^verbatim>\<open>run_tunnel\<close>), every packet of more than 2016 bytes for a peer with a live
  session makes \<^verbatim>\<open>handle_intern\<close> index out of range; nothing bounds the configured
  \<^verbatim>\<open>mtu\<close> below that size.\<close>

theorem handle_intern_oversized_packet_panics:
  assumes "IP_PACKET_START pf = 16" and "length reply_buf = 2048"
    and "2016 < length pkt" and "16 + length pkt \<le> 2048"
    and "pkt = packet_of pf reply_buf (16 + length pkt)" and "ip_dst pkt = Some dst"
    and "send_message api s (lookup dst) (padded pkt) = (Data ep metadata, s', cipher)"
    and "length cipher = length (padded pkt)"
  shows "handle_intern api pf lookup s reply_buf (16 + length pkt)
     = (Panic ''slice index out of range'', s')"
proof -
  have "next_multiple_of (length pkt) 16 = 2032"
  proof -
    obtain q where q: "next_multiple_of (length pkt) 16 = 16 * q"
      using next_multiple_of_props(3) [of 16 "length pkt"] by (auto simp: mod_eq_0_iff_dvd)
    with next_multiple_of_props(1,2) [of 16 "length pkt"] assms(3,4) have "q = 127" by simp
    with q show ?thesis by simp
  qed
  moreover have "handle_intern api pf lookup s reply_buf (16 + length pkt)
      = (frame_reply api pf (16 + next_multiple_of (length pkt) 16)
           (overwrite 16 cipher reply_buf) (Data ep metadata), s')"
    using handle_intern_in_range [of pf "16 + length pkt" reply_buf pkt "16 + next_multiple_of (length pkt) 16"
        api lookup s] assms calculation
    by simp
  ultimately show ?thesis
    using assms(2,8) by (simp add: frame_reply_def slice_def TAG_FOOTER_SIZE_def)
qed

text \<open>Witnesses: a small packet, and one of 2020 bytes, in a buffer of 2048.\<close>

definition buffer_demo :: "u8 list \<Rightarrow> u8 list" where
  "buffer_demo pkt = replicate 16 0 @ pkt @ replicate (2032 - length pkt) 0"

lemma buffer_demo_packet:
  "length pkt \<le> 2032 \<Longrightarrow> length (buffer_demo pkt) = 2048"
  "n = 16 + length pkt \<Longrightarrow> packet_of pf_demo (buffer_demo pkt) n = pkt"
  by (simp_all add: buffer_demo_def packet_of_def pf_demo_ok)

definition big_packet_demo :: "u8 list" where
  "big_packet_demo = packet_demo 0x0A000001 0xC0A80001 @ replicate 2000 0"

lemma packet_demo_facts:
  "length (packet_demo s d) = 20" "ip_dst (packet_demo s d @ body) = Some (IpV4 d)"
  "length big_packet_demo = 2020" "ip_dst big_packet_demo = Some (IpV4 0xC0A80001)"
proof -
  show len: "length (packet_demo s d) = 20" for s d by (simp add: packet_demo_def)
  show dst: "ip_dst (packet_demo s d @ body) = Some (IpV4 d)" for s d body
    by (simp add: packet_demo_def ip_dst_def ip_at_def drop_Cons')
  show "length big_packet_demo = 2020" by (simp add: big_packet_demo_def len)
  show "ip_dst big_packet_demo = Some (IpV4 0xC0A80001)" by (simp add: big_packet_demo_def dst)
qed

lemma sess_demo_send_eq:
  "send_message (sess_demo a) s p payload = (Data a (), Suc s, payload)"
  by (simp add: sess_demo_def)

theorem handle_intern_frames_padded_packet_witness:
  "let pkt = packet_demo 0x0A000001 0xC0A80001 @ [1];
       pad_to = IP_PACKET_START pf_demo + next_multiple_of (length pkt) 16
   in handle_intern (sess_demo addr_demo) pf_demo (\<lambda>_. 1) 0 (buffer_demo pkt) (16 + length pkt) =
      (Ok (Outbound (frame_in_place (sess_demo addr_demo) ()
         (take (DATA_HEADER_SIZE pf_demo) (drop (WG_PACKET_START pf_demo) (buffer_demo pkt))
          @ padded pkt @ take TAG_FOOTER_SIZE (drop pad_to (buffer_demo pkt)))) addr_demo), Suc 0)
    \<and> 16 dvd length (padded pkt) \<and> length (padded pkt) < length pkt + 16
    \<and> take (length pkt) (padded pkt) = pkt"
  unfolding Let_def
  by (rule handle_intern_frames_padded_packet [OF _ _ _ refl _ packet_demo_facts(2) sess_demo_send_eq])
     (simp_all add: buffer_demo_packet packet_demo_facts pf_demo_ok next_multiple_of_def TAG_FOOTER_SIZE_def)

theorem handle_intern_no_panic_witness:
  "fst (handle_intern (sess_demo addr_demo) pf_demo (\<lambda>_. 1) 0
      (buffer_demo (packet_demo 0x0A000001 0xC0A80001)) 36) \<noteq> Panic ''slice index out of range''"
  by (rule handle_intern_no_panic [OF _ _ _ sess_demo_send [where n = 148]])
     (simp_all add: buffer_demo_packet packet_demo_facts pf_demo_ok next_multiple_of_def TAG_FOOTER_SIZE_def)

theorem handle_intern_oversized_packet_panics_witness:
  "handle_intern (sess_demo addr_demo) pf_demo (\<lambda>_. 1) 0 (buffer_demo big_packet_demo)
     (16 + length big_packet_demo) = (Panic ''slice index out of range'', Suc 0)"
  by (rule handle_intern_oversized_packet_panics [OF pf_demo_ok(2) _ _ _ _ packet_demo_facts(4) sess_demo_send_eq])
     (simp_all add: buffer_demo_packet packet_demo_facts)

end
