(* ===== verification/Dns.thy ===== *)
theory Dns
  imports NetTypes
begin

text \<open>
  \<^verbatim>\<open>smartguard/src/dns.rs\<close>: the system resolver while the tunnel is up.  The target operating
  system, a compile-time choice in the code, is an argument.  A helper program is one command
  with the text written to its standard input; it may fail to start, refuse its input (the
  child is then killed), fail to be waited for, or exit with a status.
\<close>

section \<open>The functions of the file\<close>

datatype target_os = MacOS | Linux | OtherOS

record applied_dns =
  ad_tun_name :: string

definition nl :: string where
  "nl = [CHR 0x0A]"

definition service_key :: "string \<Rightarrow> string" where
  "service_key tun_name = ''State:/Network/Service/'' @ tun_name @ ''/DNS''"

definition macos_script :: "string \<Rightarrow> ip_addr list \<Rightarrow> string" where
  "macos_script tun_name dns_servers =
     ''open'' @ nl @ ''d.init'' @ nl
     @ ''d.add ServerAddresses *'' @ concat (map (\<lambda>ip. '' '' @ ip_string ip) dns_servers) @ nl
     @ ''d.add SupplementalMatchDomains * '' @ [CHR 0x22, CHR 0x22] @ nl
     @ ''d.add SearchDomains *'' @ nl
     @ ''set '' @ service_key tun_name @ nl @ ''quit'' @ nl"

definition macos_cleanup_script :: "string \<Rightarrow> string" where
  "macos_cleanup_script tun_name =
     ''open'' @ nl @ ''remove '' @ service_key tun_name @ nl @ ''quit'' @ nl"

definition scutil :: "string \<Rightarrow> cmd" where
  "scutil script = \<lparr>prog = ''scutil'', args = [], stdin = script\<rparr>"

text \<open>What becomes of a child that is given its input: \<^verbatim>\<open>spawn\<close>, \<^verbatim>\<open>write_all\<close>, \<^verbatim>\<open>wait\<close>.\<close>

fun child_ok :: "cmd_result \<Rightarrow> bool" where
  "child_ok SpawnFailed = False"
| "child_ok WriteFailed = False"
| "child_ok WaitFailed = False"
| "child_ok (Exited success out) = success"

definition run_scutil :: "'w os \<Rightarrow> string \<Rightarrow> ('w sys, bool) state" where
  "run_scutil run script = do {
     r \<leftarrow> exec run (scutil script);
     State_Monad.return (child_ok r)
   }"

definition apply_macos :: "'w os \<Rightarrow> string \<Rightarrow> ip_addr list \<Rightarrow> ('w sys, bool) state" where
  "apply_macos run tun_name dns_servers = run_scutil run (macos_script tun_name dns_servers)"

definition cleanup_macos :: "'w os \<Rightarrow> string \<Rightarrow> ('w sys, unit) state" where
  "cleanup_macos run tun_name = do {
     _ \<leftarrow> run_scutil run (macos_cleanup_script tun_name);
     State_Monad.return ()
   }"

definition iface_id :: "string \<Rightarrow> string" where
  "iface_id tun_name = ''tun.'' @ tun_name"

definition resolvconf_input :: "ip_addr list \<Rightarrow> string" where
  "resolvconf_input dns_servers = concat (map (\<lambda>ip. ''nameserver '' @ ip_string ip @ nl) dns_servers)"

definition resolvconf_add :: "string \<Rightarrow> ip_addr list \<Rightarrow> cmd" where
  "resolvconf_add tun_name dns_servers =
     \<lparr>prog = ''resolvconf'', args = [''-a'', iface_id tun_name, ''-m'', ''0'', ''-x''],
      stdin = resolvconf_input dns_servers\<rparr>"

definition resolvconf_delete :: "string \<Rightarrow> cmd" where
  "resolvconf_delete tun_name =
     \<lparr>prog = ''resolvconf'', args = [''-d'', iface_id tun_name, ''-f''], stdin = []\<rparr>"

definition apply_linux :: "'w os \<Rightarrow> string \<Rightarrow> ip_addr list \<Rightarrow> ('w sys, bool) state" where
  "apply_linux run tun_name dns_servers = do {
     r \<leftarrow> exec run (resolvconf_add tun_name dns_servers);
     State_Monad.return (child_ok r)
   }"

definition cleanup_linux :: "'w os \<Rightarrow> string \<Rightarrow> ('w sys, unit) state" where
  "cleanup_linux run tun_name = do {
     _ \<leftarrow> exec run (resolvconf_delete tun_name);
     State_Monad.return ()
   }"

definition apply_dns ::
  "'w os \<Rightarrow> target_os \<Rightarrow> string \<Rightarrow> ip_addr list \<Rightarrow> ('w sys, applied_dns option) state" where
  "apply_dns run target tun_name dns_servers =
     (if dns_servers = [] then State_Monad.return None
      else do {
        ok \<leftarrow> (case target of
                 MacOS \<Rightarrow> apply_macos run tun_name dns_servers
               | Linux \<Rightarrow> apply_linux run tun_name dns_servers
               | OtherOS \<Rightarrow> State_Monad.return False);
        State_Monad.return (if ok then Some \<lparr>ad_tun_name = tun_name\<rparr> else None)
      })"

definition cleanup_dns :: "'w os \<Rightarrow> target_os \<Rightarrow> applied_dns \<Rightarrow> ('w sys, unit) state" where
  "cleanup_dns run target applied =
     (case target of
        MacOS \<Rightarrow> cleanup_macos run (ad_tun_name applied)
      | Linux \<Rightarrow> cleanup_linux run (ad_tun_name applied)
      | OtherOS \<Rightarrow> State_Monad.return ())"

section \<open>The commands, for every target\<close>

fun dns_set_cmd :: "target_os \<Rightarrow> string \<Rightarrow> ip_addr list \<Rightarrow> cmd option" where
  "dns_set_cmd MacOS tun ips = Some (scutil (macos_script tun ips))"
| "dns_set_cmd Linux tun ips = Some (resolvconf_add tun ips)"
| "dns_set_cmd OtherOS tun ips = None"

fun dns_clear_cmd :: "target_os \<Rightarrow> string \<Rightarrow> cmd option" where
  "dns_clear_cmd MacOS tun = Some (scutil (macos_cleanup_script tun))"
| "dns_clear_cmd Linux tun = Some (resolvconf_delete tun)"
| "dns_clear_cmd OtherOS tun = None"

lemma child_ok_succeeded: "child_ok r = succeeded r"
  by (cases r) simp_all

lemma run_apply_dns:
  "run_state (apply_dns run target tun ips) s =
     (case (if ips = [] then None else dns_set_cmd target tun ips) of
        None \<Rightarrow> (None, s)
      | Some c \<Rightarrow>
          (if succeeded (fst (run c (world s))) then Some \<lparr>ad_tun_name = tun\<rparr> else None,
           snd (run_state (exec run c) s)))"
  by (cases target) (auto simp: apply_dns_def apply_macos_def apply_linux_def run_scutil_def child_ok_succeeded)

lemma run_cleanup_dns:
  "run_state (cleanup_dns run target a) s =
     ((), case dns_clear_cmd target (ad_tun_name a) of
            None \<Rightarrow> s | Some c \<Rightarrow> snd (run_state (exec run c) s))"
  by (cases target) (simp_all add: cleanup_dns_def cleanup_macos_def cleanup_linux_def run_scutil_def)

section \<open>Addresses contain no white space\<close>

definition ip_chars :: "char set" where
  "ip_chars = set ''0123456789abcdef.:''"

lemma digit_ip: "n < 16 \<Longrightarrow> digit n \<in> ip_chars"
  unfolding digit_def ip_chars_def by (rule subsetD [OF _ nth_mem]) auto

lemma dec_ip: "set (dec_of_nat n) \<subseteq> ip_chars"
  by (induction n rule: dec_of_nat.induct) (subst dec_of_nat.simps, auto simp: digit_ip)

lemma hex_ip: "set (hex_of_nat n) \<subseteq> ip_chars"
  by (induction n rule: hex_of_nat.induct) (subst hex_of_nat.simps, auto simp: digit_ip)

lemma join_chars:
  "set sep \<subseteq> A \<Longrightarrow> (\<And>x. x \<in> set xs \<Longrightarrow> set x \<subseteq> A) \<Longrightarrow> set (join sep xs) \<subseteq> A"
  by (induction sep xs rule: join.induct) auto

lemma ipv4_ip: "set (ipv4_string w) \<subseteq> ip_chars"
  unfolding ipv4_string_def
  by (rule join_chars) (auto simp: ip_chars_def dest: subsetD [OF dec_ip])

lemma fmt_subslice_ip: "set (fmt_subslice ss) \<subseteq> ip_chars"
  unfolding fmt_subslice_def
  by (rule join_chars) (auto simp: ip_chars_def dest: subsetD [OF hex_ip])

lemma ip_string_ip: "set (ip_string a) \<subseteq> ip_chars"
proof (cases a)
  case (IpV6 w)
  have "set ''::'' \<subseteq> ip_chars" "set ''::ffff:'' \<subseteq> ip_chars" by (simp_all add: ip_chars_def)
  then show ?thesis
    using IpV6 ipv4_ip [of "ucast w"] fmt_subslice_ip
    by (auto simp: ipv6_string_def Let_def split: prod.split)
qed (simp add: ipv4_ip)

lemma ip_string_no_space: "CHR '' '' \<notin> set (ip_string a)" "CHR 0x0A \<notin> set (ip_string a)"
    "CHR 0x0D \<notin> set (ip_string a)"
  using ip_string_ip [of a] by (auto simp: ip_chars_def)

section \<open>The contract of a resolver\<close>

text \<open>Where the entry of the tunnel is kept, and the names for which that is well defined.\<close>

fun dns_slot :: "target_os \<Rightarrow> string \<Rightarrow> string" where
  "dns_slot MacOS tun = service_key tun"
| "dns_slot Linux tun = iface_id tun"
| "dns_slot OtherOS tun = tun"

definition one_line :: "string \<Rightarrow> bool" where
  "one_line s \<longleftrightarrow> CHR 0x0A \<notin> set s"

text \<open>
  \<open>resolver_base\<close> is what the exit status of the helper says of the entries \<open>res\<close> of a world: a
  command that succeeded did what it says, a \<^verbatim>\<open>set\<close> that failed (also one whose input could not be
  written, or that was not waited for) touched at most the entry it is about.  \<open>resolver_os\<close> adds
  that a \<^verbatim>\<open>set\<close> that failed did nothing at all.
\<close>

locale resolver_base =
  fixes run :: "'w os"
    and target :: target_os
    and res :: "'w \<Rightarrow> string \<Rightarrow> string list option"
  assumes res_set:
      "one_line tun \<Longrightarrow> dns_set_cmd target tun ips = Some c \<Longrightarrow> succeeded (fst (run c w)) \<Longrightarrow>
       res (snd (run c w)) = (res w)(dns_slot target tun \<mapsto> map ip_string ips)"
    and res_set_frame:
      "dns_set_cmd target tun ips = Some c \<Longrightarrow> \<not> succeeded (fst (run c w)) \<Longrightarrow>
       k \<noteq> dns_slot target tun \<Longrightarrow> res (snd (run c w)) k = res w k"
    and res_clear:
      "one_line tun \<Longrightarrow> dns_clear_cmd target tun = Some c \<Longrightarrow> succeeded (fst (run c w)) \<Longrightarrow>
       res (snd (run c w)) = (res w)(dns_slot target tun := None)"

text \<open>Some command of the tunnel to its resolver failed.\<close>

definition dns_refused ::
  "target_os \<Rightarrow> string \<Rightarrow> ip_addr list \<Rightarrow> (cmd \<times> cmd_result) list \<Rightarrow> bool" where
  "dns_refused target tun ips es \<longleftrightarrow>
     list_ex (\<lambda>(c, r). Some c \<in> {dns_set_cmd target tun ips, dns_clear_cmd target tun} \<and> \<not> succeeded r) es"

context resolver_base
begin

lemma cleanup_dns_effect:
  assumes "one_line (ad_tun_name a)" and "dns_clear_cmd target (ad_tun_name a) = Some c"
    and "succeeded (fst (run c (world s)))"
  shows "res (world (snd (run_state (cleanup_dns run target a) s)))
    = (res (world s))(dns_slot target (ad_tun_name a) := None)"
  using assms by (simp add: run_cleanup_dns res_clear)

lemma apply_dns_slot:
  assumes "one_line tun" and "run_state (apply_dns run target tun ips) s = (a, s')"
  shows "\<exists>es. cmd_log s' = cmd_log s @ es
    \<and> (\<forall>k. k \<noteq> dns_slot target tun \<longrightarrow> res (world s') k = res (world s) k)
    \<and> (case a of
         None \<Rightarrow> res (world s') = res (world s) \<or> dns_refused target tun ips es
       | Some x \<Rightarrow> ad_tun_name x = tun \<and> dns_clear_cmd target tun \<noteq> None)"
proof (cases "if ips = [] then None else dns_set_cmd target tun ips")
  case None
  with assms(2) show ?thesis by (auto simp: run_apply_dns split: option.splits)
next
  case (Some c)
  then have c: "ips \<noteq> []" "dns_set_cmd target tun ips = Some c" by (simp_all split: if_splits)
  then have "dns_clear_cmd target tun \<noteq> None" by (cases target) auto
  with c assms(2) res_set [OF assms(1) c(2), of "world s"] res_set_frame [OF c(2), of "world s"]
  show ?thesis
    by (intro exI [of _ "[(c, fst (run c (world s)))]"])
      (auto simp: run_apply_dns dns_refused_def split: if_splits)
qed

end

locale resolver_os = resolver_base run target res
  for run :: "'w os" and target :: target_os and res :: "'w \<Rightarrow> string \<Rightarrow> string list option" +
  assumes res_set_fails:
      "dns_set_cmd target tun ips = Some c \<Longrightarrow> \<not> succeeded (fst (run c w)) \<Longrightarrow>
       res (snd (run c w)) = res w"
begin

text \<open>What the resolver holds after \<^verbatim>\<open>apply_dns\<close>, by what it returned.\<close>

lemma apply_dns_effect:
  assumes "one_line tun" and "run_state (apply_dns run target tun ips) s = (a, s')"
  shows "res (world s') =
    (case a of None \<Rightarrow> res (world s)
             | Some _ \<Rightarrow> (res (world s))(dns_slot target tun \<mapsto> map ip_string ips))
    \<and> (\<forall>x. a = Some x \<longrightarrow> ad_tun_name x = tun)"
  using assms
  by (auto simp: run_apply_dns res_set res_set_fails split: option.splits if_splits)

end

section \<open>Resolvers that meet it\<close>

text \<open>
  The two helper programs as far as the tunnel uses them: \<^verbatim>\<open>scutil\<close> runs its script line by
  line over a dictionary under construction and a store, \<^verbatim>\<open>resolvconf\<close> keeps the name servers
  of its input under the interface it is given.
\<close>

fun split_on :: "char \<Rightarrow> string \<Rightarrow> string list" where
  "split_on c [] = [[]]"
| "split_on c (x # xs) =
     (if x = c then [] # split_on c xs
      else (x # hd (split_on c xs)) # tl (split_on c xs))"

lemma split_on_not_Nil [simp]: "split_on c r \<noteq> []"
  by (cases r) auto

lemma split_on_append:
  "c \<notin> set w \<Longrightarrow> split_on c (w @ r) = (w @ hd (split_on c r)) # tl (split_on c r)"
  by (induction w) auto

lemma split_on_spaced:
  "(\<And>x. x \<in> set xs \<Longrightarrow> CHR '' '' \<notin> set x) \<Longrightarrow>
   split_on CHR '' '' (concat (map (\<lambda>x. '' '' @ x) xs)) = [] # xs"
  by (induction xs) (simp_all add: split_on_append)

type_synonym res_store = "(string, string list) map"

definition scutil_line :: "string \<Rightarrow> string list \<times> res_store \<Rightarrow> string list \<times> res_store" where
  "scutil_line l = (\<lambda>(d, t).
     case strip_prefix ''d.add ServerAddresses *'' l of
       Some r \<Rightarrow> (tl (split_on CHR '' '' r), t)
     | None \<Rightarrow> (case strip_prefix ''set '' l of
         Some k \<Rightarrow> (d, t(k \<mapsto> d))
       | None \<Rightarrow> (case strip_prefix ''remove '' l of
           Some k \<Rightarrow> (d, t(k := None))
         | None \<Rightarrow> if l = ''d.init'' then ([], t) else (d, t))))"

definition run_script :: "string \<Rightarrow> res_store \<Rightarrow> res_store" where
  "run_script script t = snd (fold scutil_line (lines script) ([], t))"

definition nameservers :: "string \<Rightarrow> string list" where
  "nameservers text = List.map_filter (strip_prefix ''nameserver '') (lines text)"

definition ref_resolver :: "cmd \<Rightarrow> res_store \<Rightarrow> cmd_result \<times> res_store" where
  "ref_resolver c t =
     (if prog c = ''scutil'' then (Exited True [], run_script (stdin c) t)
      else if prog c = ''resolvconf'' then
        (case args c of
           flag # iface # _ \<Rightarrow>
             if flag = ''-a'' then (Exited True [], t(iface \<mapsto> nameservers (stdin c)))
             else if flag = ''-d'' then (Exited True [], t(iface := None))
             else (Exited False [], t)
         | _ \<Rightarrow> (Exited False [], t))
      else (SpawnFailed, t))"

text \<open>A text put together from clean lines consists of those lines.\<close>

definition clean :: "string \<Rightarrow> bool" where
  "clean l \<longleftrightarrow> CHR 0x0A \<notin> set l \<and> (l = [] \<or> last l \<noteq> CHR 0x0D)"

lemma lines_of_clean: "list_all clean ls \<Longrightarrow> lines (concat (map (\<lambda>l. l @ nl) ls)) = ls"
  by (induction ls) (auto simp: clean_def nl_def lines_line)

lemma clean_append: "CHR 0x0A \<notin> set p \<Longrightarrow> p \<noteq> [] \<Longrightarrow> last p \<noteq> CHR 0x0D \<Longrightarrow> clean q \<Longrightarrow> clean (p @ q)"
  by (auto simp: clean_def last_append)

lemma clean_ip: "clean (ip_string a)"
  using ip_string_no_space [of a] by (auto simp: clean_def dest: last_in_set)

lemma clean_ips: "clean (concat (map (\<lambda>ip. '' '' @ ip_string ip) ips))"
  by (induction ips)
    (use ip_string_no_space in \<open>auto simp: clean_def dest: last_in_set split: if_splits\<close>)

lemma strip_all: "List.map_filter (strip_prefix p) (map (\<lambda>x. p @ x) xs) = xs"
  by (induction xs) (simp_all add: List.map_filter_def)

lemma resolvconf_roundtrip: "nameservers (resolvconf_input ips) = map ip_string ips"
proof -
  let ?ls = "map (\<lambda>ip. ''nameserver '' @ ip_string ip) ips"
  have "resolvconf_input ips = concat (map (\<lambda>l. l @ nl) ?ls)"
    by (simp add: resolvconf_input_def comp_def)
  moreover have "list_all clean ?ls"
    by (simp add: list_all_iff clean_append [OF _ _ _ clean_ip, of "''nameserver ''", simplified])
  ultimately have "lines (resolvconf_input ips) = ?ls" using lines_of_clean by metis
  then show ?thesis
    using strip_all [of "''nameserver ''" "map ip_string ips"]
    by (simp add: nameservers_def comp_def)
qed

lemma script_lines:
  assumes "one_line tun"
  shows "lines (macos_script tun ips) =
    [''open'', ''d.init'', ''d.add ServerAddresses *'' @ concat (map (\<lambda>ip. '' '' @ ip_string ip) ips),
     ''d.add SupplementalMatchDomains * '' @ [CHR 0x22, CHR 0x22], ''d.add SearchDomains *'',
     ''set '' @ service_key tun, ''quit'']" (is "_ = ?ls")
proof -
  have "macos_script tun ips = concat (map (\<lambda>l. l @ nl) ?ls)"
    by (simp add: macos_script_def)
  moreover have "list_all clean ?ls"
    using assms clean_append [OF _ _ _ clean_ips, of "''d.add ServerAddresses *''"]
    by (simp add: clean_def service_key_def one_line_def)
  ultimately show ?thesis using lines_of_clean by metis
qed

lemma cleanup_script_lines:
  assumes "one_line tun"
  shows "lines (macos_cleanup_script tun) = [''open'', ''remove '' @ service_key tun, ''quit'']"
    (is "_ = ?ls")
proof -
  have "macos_cleanup_script tun = concat (map (\<lambda>l. l @ nl) ?ls)"
    by (simp add: macos_cleanup_script_def)
  moreover have "list_all clean ?ls"
    using assms by (simp add: clean_def service_key_def one_line_def)
  ultimately show ?thesis using lines_of_clean by metis
qed

lemma macos_script_sets:
  assumes "one_line tun"
  shows "run_script (macos_script tun ips) t = t(service_key tun \<mapsto> map ip_string ips)"
proof -
  have "split_on CHR '' '' (concat (map (\<lambda>x. '' '' @ x) (map ip_string ips))) = [] # map ip_string ips"
    by (rule split_on_spaced) (auto simp: ip_string_no_space)
  then show ?thesis
    using assms by (simp add: run_script_def script_lines scutil_line_def strip_prefix_def comp_def)
qed

lemma macos_script_removes:
  "one_line tun \<Longrightarrow> run_script (macos_cleanup_script tun) t = t(service_key tun := None)"
  by (simp add: run_script_def cleanup_script_lines scutil_line_def strip_prefix_def)

interpretation ref_macos: resolver_os ref_resolver MacOS "\<lambda>t. t"
  by unfold_locales
    (auto simp: ref_resolver_def scutil_def macos_script_sets macos_script_removes)

interpretation ref_linux: resolver_os ref_resolver Linux "\<lambda>t. t"
  by unfold_locales
    (auto simp: ref_resolver_def resolvconf_add_def resolvconf_delete_def resolvconf_roundtrip)

section \<open>Properties\<close>

text \<open>C16: What is handed to the helper program names exactly the servers configured.  A reader of
  \<^verbatim>\<open>resolvconf\<close> input gets the servers back, in order; running the \<^verbatim>\<open>scutil\<close> script binds the
  service key of the tunnel, and only that, to them, and the clean-up script unbinds that very
  key, for every tunnel name without a line break.\<close>

theorem dns_texts_roundtrip:
  "nameservers (resolvconf_input ips) = map ip_string ips
   \<and> (one_line tun \<longrightarrow>
        run_script (macos_script tun ips) t = t(service_key tun \<mapsto> map ip_string ips)
        \<and> run_script (macos_cleanup_script tun) t = t(service_key tun := None))"
  by (simp add: resolvconf_roundtrip macos_script_sets macos_script_removes)

theorem dns_texts_roundtrip_witness:
  "run_script (macos_script ''utun5'' [IpV4 0x01010101]) Map.empty
     = [''State:/Network/Service/utun5/DNS'' \<mapsto> [''1.1.1.1'']]"
  using dns_texts_roundtrip [of "[IpV4 0x01010101]" "''utun5''" Map.empty]
  by (simp add: one_line_def service_key_def ipv4_string_def to_be_numeral dec_of_nat.simps digit_def)

text \<open>C17: One command in, at most one command out.  \<^verbatim>\<open>apply_dns\<close> runs nothing for an empty server
  list or an unsupported target and otherwise exactly one command, and returns the handle of
  the tunnel if and only if that command succeeded; \<^verbatim>\<open>cleanup_dns\<close> of the handle then runs
  exactly the one command that undoes it, for the same tunnel.\<close>

theorem apply_cleanup_dns_commands:
  "let (a, s1) = run_state (apply_dns run target tun ips) s;
       s2 = (case a of None \<Rightarrow> s1 | Some x \<Rightarrow> snd (run_state (cleanup_dns run target x) s1))
   in case (if ips = [] then None else dns_set_cmd target tun ips) of
        None \<Rightarrow> a = None \<and> s2 = s
      | Some c \<Rightarrow> \<exists>r. cmd_log s1 = cmd_log s @ [(c, r)]
          \<and> (a \<noteq> None \<longleftrightarrow> succeeded r)
          \<and> (case a of None \<Rightarrow> s2 = s1
             | Some x \<Rightarrow> ad_tun_name x = tun
                 \<and> (\<exists>d r'. dns_clear_cmd target tun = Some d \<and> cmd_log s2 = cmd_log s1 @ [(d, r')]))"
  by (cases target) (auto simp: run_apply_dns run_cleanup_dns Let_def)

text \<open>Cleaning up restores the resolver.  Over a resolver that keeps its contract, when the
  tunnel had no entry before, applying and cleaning up leave every entry as it was, provided
  the clean-up command itself succeeds; and a failed \<^verbatim>\<open>apply_dns\<close> has changed nothing.\<close>

theorem dns_restored:
  assumes "resolver_os run target res" and "one_line tun"
    and "res (world s) (dns_slot target tun) = None"
    and "run_state (apply_dns run target tun ips) s = (a, s1)"
    and "\<And>c. dns_clear_cmd target tun = Some c \<Longrightarrow> succeeded (fst (run c (world s1)))"
  shows "(case a of None \<Rightarrow> res (world s1)
            | Some x \<Rightarrow> res (world (snd (run_state (cleanup_dns run target x) s1))))
         = res (world s)"
proof (cases a)
  case None
  with resolver_os.apply_dns_effect [OF assms(1,2,4)] show ?thesis by simp
next
  case (Some x)
  with assms(4) obtain c where "dns_clear_cmd target tun = Some c"
    by (cases target) (auto simp: run_apply_dns split: if_splits)
  with Some resolver_os.apply_dns_effect [OF assms(1,2,4)] assms(2,3,5)
    resolver_base.cleanup_dns_effect [OF resolver_os.axioms(1) [OF assms(1)], of x c s1]
  show ?thesis by (auto simp: fun_eq_iff)
qed

theorem dns_restored_witness:
  "world (snd (run_state (cleanup_dns ref_resolver Linux \<lparr>ad_tun_name = ''utun5''\<rparr>)
     (snd (run_state (apply_dns ref_resolver Linux ''utun5'' [IpV4 0x01010101])
        \<lparr>cmd_log = [], world = Map.empty\<rparr>)))) = Map.empty"
proof -
  let ?s = "\<lparr>cmd_log = [], world = Map.empty\<rparr> :: res_store sys"
  have run: "run_state (apply_dns ref_resolver Linux ''utun5'' [IpV4 0x01010101]) ?s
      = (Some \<lparr>ad_tun_name = ''utun5''\<rparr>,
         snd (run_state (apply_dns ref_resolver Linux ''utun5'' [IpV4 0x01010101]) ?s))"
    by (simp add: run_apply_dns ref_resolver_def resolvconf_add_def)
  from dns_restored [OF ref_linux.resolver_os_axioms _ _ run] show ?thesis
    by (simp add: one_line_def ref_resolver_def resolvconf_delete_def)
qed

end
