(* ===== verification/Tunnel.thy ===== *)
theory Tunnel
  imports Packet RouteLaws Dns
begin

text \<open>
  \<^verbatim>\<open>smartguard/src/tunnel.rs\<close>: bringing the tunnel up, its event loop, and the guard that
  takes everything down again.

  Each branch of the \<^verbatim>\<open>select!\<close> is an event, with what the awaited call returned and the
  clocks read in the branch: one reading of the monotonic clock, and in a tick also the wall
  clock, which is read anew for each \<^verbatim>\<open>turn\<close>; a run is a list of events.  The sessions, the socket and the TUN
  device are parameters (\<open>tunnel_api\<close>) over a network world \<open>'n\<close>; commands go to the
  operating system of \<open>Prelude\<close>.  The buffers are reused between iterations; an event brings a
  buffer as it is after the read, so what is left in it from before is arbitrary.
\<close>

section \<open>State\<close>

record cleanup_guard =
  added_routes :: "added_route list"
  applied_dns :: "applied_dns option"

record 'id peer_runtime =
  pr_id :: 'id
  pr_endpoint :: "socket_addr option"
  pr_keepalive :: "duration option"
  pr_last_sent :: instant

record ('s, 'id, 'n, 'w) tunnel =
  sessions :: 's
  peer_rt :: "'id peer_runtime list"
  guard :: cleanup_guard
  osys :: "'w sys"
  network :: 'n
  sent :: "(u8 list \<times> socket_addr) list"

text \<open>A reading of the wall clock (\<^verbatim>\<open>Tai64N::now()\<close>).\<close>

type_synonym tai64n = nat

text \<open>The sessions' timers, \<^verbatim>\<open>send_to\<close> and the device's \<^verbatim>\<open>write_all\<close>; an error is its text.\<close>

record ('s, 'id, 'm, 'n) tunnel_api =
  sess :: "('s, 'id, 'm) sess_api"
  turn :: "tai64n \<Rightarrow> 's \<Rightarrow> (u8 list \<times> socket_addr) option \<times> 's"
  pf :: platform
  udp_send_to :: "u8 list \<Rightarrow> socket_addr \<Rightarrow> 'n \<Rightarrow> bool \<times> 'n"
  tun_write_all :: "u8 list \<Rightarrow> 'n \<Rightarrow> (string + unit) \<times> 'n"

text \<open>What is fixed once the loop runs.\<close>

record 'id loop_ctx =
  lookup :: "ip_addr \<Rightarrow> 'id"
  endpoint_to_idx :: "socket_addr \<Rightarrow> nat option"
  host_route_idx :: "nat option"

datatype exit = ExitOk | ExitErr string | ExitPanic string

datatype 'st progress = Going 'st | Stopped exit 'st

section \<open>Commands and the guard\<close>

definition ipv6_addr_cmd :: "target_os \<Rightarrow> string \<Rightarrow> string \<Rightarrow> cmd option" where
  "ipv6_addr_cmd target tun_name cidr =
     (case target of
        MacOS \<Rightarrow> Some \<lparr>prog = ''ifconfig'', args = [tun_name, ''inet6'', cidr, ''alias''], stdin = []\<rparr>
      | Linux \<Rightarrow> Some \<lparr>prog = ''ip'', args = [''-6'', ''addr'', ''add'', cidr, ''dev'', tun_name], stdin = []\<rparr>
      | OtherOS \<Rightarrow> None)"

definition apply_ipv6_addr ::
  "'w os \<Rightarrow> target_os \<Rightarrow> (ip_net \<Rightarrow> string) \<Rightarrow> string \<Rightarrow> ip_net \<Rightarrow> ('w sys, bool) state" where
  "apply_ipv6_addr run target net_str tun_name net =
     (case ipv6_addr_cmd target tun_name (net_str net) of
        None \<Rightarrow> State_Monad.return False
      | Some c \<Rightarrow> do {
          r \<leftarrow> exec run c;
          State_Monad.return (succeeded r)
        })"

fun apply_ipv6_addrs ::
  "'w os \<Rightarrow> target_os \<Rightarrow> (ip_net \<Rightarrow> string) \<Rightarrow> string \<Rightarrow> ip_net list \<Rightarrow> ('w sys, unit) state" where
  "apply_ipv6_addrs run target net_str tun_name [] = State_Monad.return ()"
| "apply_ipv6_addrs run target net_str tun_name (net # nets) = do {
     _ \<leftarrow> (if is_net_v6 net
           then do { _ \<leftarrow> apply_ipv6_addr run target net_str tun_name net; State_Monad.return () }
           else State_Monad.return ());
     apply_ipv6_addrs run target net_str tun_name nets
   }"

text \<open>\<^verbatim>\<open>CleanupGuard::drop\<close>.\<close>

definition drop_guard :: "'w os \<Rightarrow> target_os \<Rightarrow> cleanup_guard \<Rightarrow> ('w sys, unit) state" where
  "drop_guard run target g = do {
     _ \<leftarrow> (case applied_dns g of None \<Rightarrow> State_Monad.return () | Some d \<Rightarrow> cleanup_dns run target d);
     cleanup_routes run (added_routes g)
   }"

text \<open>The guard with its routes rechecked.\<close>

definition recheck_guard :: "'w os \<Rightarrow> ('s, 'id, 'n, 'w) tunnel \<Rightarrow> ('s, 'id, 'n, 'w) tunnel" where
  "recheck_guard run st =
     (case run_state (recheck_routes run (added_routes (guard st))) (osys st) of
        (rs, s') \<Rightarrow> st\<lparr>guard := (guard st)\<lparr>added_routes := rs\<rparr>, osys := s'\<rparr>)"

section \<open>Sending\<close>

definition udp_send ::
  "('s, 'id, 'm, 'n) tunnel_api \<Rightarrow> u8 list \<Rightarrow> socket_addr \<Rightarrow> ('s, 'id, 'n, 'w) tunnel
     \<Rightarrow> bool \<times> ('s, 'id, 'n, 'w) tunnel" where
  "udp_send api data addr st =
     (case udp_send_to api data addr (network st) of
        (ok, n') \<Rightarrow> (ok, st\<lparr>network := n', sent := sent st @ [(data, addr)]\<rparr>))"

fun send_messages ::
  "('s, 'id, 'm, 'n) tunnel_api \<Rightarrow> (u8 list \<times> socket_addr) list \<Rightarrow> ('s, 'id, 'n, 'w) tunnel
     \<Rightarrow> ('s, 'id, 'n, 'w) tunnel" where
  "send_messages api [] st = st"
| "send_messages api ((data, addr) # msgs) st = send_messages api msgs (snd (udp_send api data addr st))"

definition keepalive_buf :: "platform \<Rightarrow> u8 list" where
  "keepalive_buf p = replicate (DATA_HEADER_SIZE p + TAG_FOOTER_SIZE) 0"

definition send_keepalive ::
  "('s, 'id, 'm, 'n) tunnel_api \<Rightarrow> 'id \<Rightarrow> ('s, 'id, 'n, 'w) tunnel \<Rightarrow> ('s, 'id, 'n, 'w) tunnel" where
  "send_keepalive api peer_id st =
     (case send_message (sess api) (sessions st) peer_id [] of
        (r, s', _) \<Rightarrow>
          let st' = st\<lparr>sessions := s'\<rparr> in
          (case r of
             Data ep metadata \<Rightarrow>
               snd (udp_send api (frame_in_place (sess api) metadata (keepalive_buf (pf api))) ep st')
           | Maintenance data to \<Rightarrow> snd (udp_send api data to st')
           | SendErr \<Rightarrow> st'))"

definition due :: "instant \<Rightarrow> 'id peer_runtime \<Rightarrow> bool" where
  "due now p = (case pr_keepalive p of None \<Rightarrow> False | Some interval \<Rightarrow> now - pr_last_sent p \<ge> interval)"

fun keepalive_loop ::
  "('s, 'id, 'm, 'n) tunnel_api \<Rightarrow> instant \<Rightarrow> 'id peer_runtime list \<Rightarrow> ('s, 'id, 'n, 'w) tunnel
     \<Rightarrow> 'id peer_runtime list \<times> ('s, 'id, 'n, 'w) tunnel" where
  "keepalive_loop api now [] st = ([], st)"
| "keepalive_loop api now (p # ps) st =
     (if due now p
      then (case keepalive_loop api now ps (send_keepalive api (pr_id p) st) of
              (ps', st') \<Rightarrow> (p\<lparr>pr_last_sent := now\<rparr> # ps', st'))
      else (case keepalive_loop api now ps st of (ps', st') \<Rightarrow> (p # ps', st')))"

section \<open>The branches of the loop\<close>

text \<open>\<^verbatim>\<open>while let Some(msg) = sessions.turn(Tai64N::now(), ..)\<close>: \<open>clock i\<close> is what the wall clock says
  before the \<open>i\<close>-th turn; \<open>None\<close> if the sessions never run dry.\<close>

partial_function (option) turn_all ::
  "(tai64n \<Rightarrow> 's \<Rightarrow> (u8 list \<times> socket_addr) option \<times> 's) \<Rightarrow> (nat \<Rightarrow> tai64n) \<Rightarrow> 's
     \<Rightarrow> ((u8 list \<times> socket_addr) list \<times> 's) option" where
  "turn_all trn clock s =
     (case trn (clock 0) s of
        (None, s') \<Rightarrow> Some ([], s')
      | (Some msg, s') \<Rightarrow>
          Option.bind (turn_all trn (\<lambda>i. clock (Suc i)) s') (\<lambda>(msgs, s''). Some (msg # msgs, s'')))"

fun gateway_less_host :: "added_route \<Rightarrow> bool" where
  "gateway_less_host (Host ip family None) = True"
| "gateway_less_host _ = False"

text \<open>Should the tick recheck?  \<open>None\<close> when the stored index is out of bounds.\<close>

definition tick_recheck :: "nat option \<Rightarrow> added_route list \<Rightarrow> bool option" where
  "tick_recheck idx rs =
     (case idx of
        None \<Rightarrow> Some False
      | Some i \<Rightarrow> if i < length rs then Some (gateway_less_host (rs ! i)) else None)"

definition on_tick ::
  "('s, 'id, 'm, 'n) tunnel_api \<Rightarrow> 'w os \<Rightarrow> 'id loop_ctx \<Rightarrow> (nat \<Rightarrow> tai64n) \<Rightarrow> instant \<Rightarrow> ('s, 'id, 'n, 'w) tunnel
     \<Rightarrow> ('s, 'id, 'n, 'w) tunnel progress option" where
  "on_tick api run ctx clock now st =
     Option.bind (turn_all (turn api) clock (sessions st)) (\<lambda>(maintenance_buffer, s').
       let st1 = st\<lparr>sessions := s'\<rparr> in
       case tick_recheck (host_route_idx ctx) (added_routes (guard st1)) of
         None \<Rightarrow> Some (Stopped (ExitPanic ''index out of bounds'') st1)
       | Some b \<Rightarrow>
           let st2 = (if b then recheck_guard run st1 else st1);
               st3 = send_messages api maintenance_buffer st2
           in (case keepalive_loop api now (peer_rt st3) st3 of
                 (ps, st4) \<Rightarrow> Some (Going (st4\<lparr>peer_rt := ps\<rparr>))))"

definition on_udp ::
  "('s, 'id, 'm, 'n) tunnel_api \<Rightarrow> 'w os \<Rightarrow> 'id loop_ctx \<Rightarrow> socket_addr \<Rightarrow> u8 list
     \<Rightarrow> ('s, 'id, 'n, 'w) tunnel \<Rightarrow> ('s, 'id, 'n, 'w) tunnel progress" where
  "on_udp api run ctx addr ep_buf st =
     (case handle_extern (sess api) (pf api) (lookup ctx) (sessions st) addr ep_buf of
        (r, s') \<Rightarrow>
          let st1 = st\<lparr>sessions := s'\<rparr> in
          (case r of
             Panic m \<Rightarrow> Stopped (ExitPanic m) st1
           | Err _ \<Rightarrow> Going st1
           | Ok (Inbound data) \<Rightarrow>
               (case tun_write_all api data (network st1) of
                  (Inl e, n') \<Rightarrow> Stopped (ExitErr e) (st1\<lparr>network := n'\<rparr>)
                | (Inr _, n') \<Rightarrow> Going (st1\<lparr>network := n'\<rparr>))
           | Ok (Outbound data _) \<Rightarrow>
               (case udp_send api data addr st1 of
                  (ok, st2) \<Rightarrow> Going (if ok then st2 else recheck_guard run st2))
           | Ok NoWrite \<Rightarrow> Going st1))"

definition on_tun ::
  "('s, 'id, 'm, 'n) tunnel_api \<Rightarrow> 'w os \<Rightarrow> 'id loop_ctx \<Rightarrow> instant \<Rightarrow> u8 list \<Rightarrow> nat
     \<Rightarrow> ('s, 'id, 'n, 'w) tunnel \<Rightarrow> ('s, 'id, 'n, 'w) tunnel progress" where
  "on_tun api run ctx now tun_buffer n st =
     (case handle_intern (sess api) (pf api) (lookup ctx) (sessions st) tun_buffer
             (TUN_BUF_START (pf api) + n) of
        (r, s') \<Rightarrow>
          let st1 = st\<lparr>sessions := s'\<rparr> in
          (case r of
             Panic m \<Rightarrow> Stopped (ExitPanic m) st1
           | Ok (Outbound data dst) \<Rightarrow>
               (case udp_send api data dst st1 of
                  (False, st2) \<Rightarrow> Going (recheck_guard run st2)
                | (True, st2) \<Rightarrow>
                    (case endpoint_to_idx ctx dst of
                       None \<Rightarrow> Going st2
                     | Some i \<Rightarrow>
                         if i < length (peer_rt st2)
                         then Going (st2\<lparr>peer_rt := (peer_rt st2)
                                [i := (peer_rt st2 ! i)\<lparr>pr_last_sent := now\<rparr>]\<rparr>)
                         else Stopped (ExitPanic ''index out of bounds'') st2))
           | _ \<Rightarrow> Going st1))"

text \<open>Which future of the \<^verbatim>\<open>select!\<close> completed, and with what.  A tick brings the readings of the
  wall clock for its turns and the monotonic clock as it is after the sends.\<close>

datatype event =
    SigInt
  | SigTerm
  | Tick "nat \<Rightarrow> tai64n" instant
  | UdpRecv "string + (socket_addr \<times> u8 list)"
  | TunRead instant "string + (nat \<times> u8 list)"  \<comment> \<open>the bytes read and the whole buffer\<close>

fun on_event ::
  "('s, 'id, 'm, 'n) tunnel_api \<Rightarrow> 'w os \<Rightarrow> 'id loop_ctx \<Rightarrow> event \<Rightarrow> ('s, 'id, 'n, 'w) tunnel
     \<Rightarrow> ('s, 'id, 'n, 'w) tunnel progress option" where
  "on_event api run ctx SigInt st = Some (Stopped ExitOk st)"
| "on_event api run ctx SigTerm st = Some (Stopped ExitOk st)"
| "on_event api run ctx (Tick clock now) st = on_tick api run ctx clock now st"
| "on_event api run ctx (UdpRecv (Inl e)) st = Some (Stopped (ExitErr e) st)"
| "on_event api run ctx (UdpRecv (Inr (addr, ep_buf))) st = Some (on_udp api run ctx addr ep_buf st)"
| "on_event api run ctx (TunRead now (Inl e)) st = Some (Stopped (ExitErr e) st)"
| "on_event api run ctx (TunRead now (Inr (n, tun_buffer))) st =
     Some (on_tun api run ctx now tun_buffer n st)"

fun run_loop ::
  "('s, 'id, 'm, 'n) tunnel_api \<Rightarrow> 'w os \<Rightarrow> 'id loop_ctx \<Rightarrow> event list \<Rightarrow> ('s, 'id, 'n, 'w) tunnel
     \<Rightarrow> ('s, 'id, 'n, 'w) tunnel progress option" where
  "run_loop api run ctx [] st = Some (Going st)"
| "run_loop api run ctx (e # es) st =
     Option.bind (on_event api run ctx e st) (\<lambda>p.
       case p of Going st' \<Rightarrow> run_loop api run ctx es st'
               | Stopped x st' \<Rightarrow> Some (Stopped x st'))"

section \<open>Bringing the tunnel up\<close>

record tun_config =
  tc_v4 :: "ip_net option"
  tc_mtu :: int

record tunnel_env =
  udp_bind :: "u16 \<Rightarrow> string + unit"
  tun_create :: "tun_config \<Rightarrow> string + string"
  tun_async :: "string + unit"
  signals :: "string + unit"
  now0 :: instant

definition tun_configuration :: "ip_net list \<Rightarrow> int \<Rightarrow> tun_config" where
  "tun_configuration tun_addrs mtu =
     \<lparr>tc_v4 = find_map (\<lambda>n. if is_net_v4 n then Some n else None) tun_addrs, tc_mtu = mtu\<rparr>"

definition new_peer_rt :: "instant \<Rightarrow> 'id list \<Rightarrow> peer_config list \<Rightarrow> 'id peer_runtime list" where
  "new_peer_rt now ids peers =
     map (\<lambda>(i, p). \<lparr>pr_id = i, pr_endpoint = pc_endpoint p,
                    pr_keepalive = pc_persistent_keepalive p, pr_last_sent = now\<rparr>) (zip ids peers)"

text \<open>Collecting into a hash map: a later peer replaces an earlier one with the same endpoint.\<close>

definition endpoint_index :: "'id peer_runtime list \<Rightarrow> socket_addr \<Rightarrow> nat option" where
  "endpoint_index rt =
     fold (\<lambda>(i, p) m. case pr_endpoint p of None \<Rightarrow> m | Some ep \<Rightarrow> m(ep \<mapsto> i))
       (enumerate 0 rt) Map.empty"

definition has_addr :: "family \<Rightarrow> ip_net list \<Rightarrow> bool" where
  "has_addr family tun_addrs \<longleftrightarrow> list_ex (\<lambda>n. net_family n = family) tun_addrs"

definition unconfigured ::
  "'w os \<Rightarrow> family \<Rightarrow> ip_net list \<Rightarrow> string \<Rightarrow> socket_addr list \<Rightarrow> ('w sys, added_route list) state" where
  "unconfigured run family tun_addrs tun_name peer_endpoints =
     (if has_addr family tun_addrs then State_Monad.return []
      else setup_unconfigured_family run family tun_name peer_endpoints)"

text \<open>The routes and the resolver: the guard as the loop starts with it.\<close>

definition take_over ::
  "'w os \<Rightarrow> target_os \<Rightarrow> (ip_net \<Rightarrow> string) \<Rightarrow> string \<Rightarrow> ip_net list \<Rightarrow> ip_net list \<Rightarrow> socket_addr list
     \<Rightarrow> ip_addr list \<Rightarrow> ('w sys, cleanup_guard) state" where
  "take_over run target net_str tun_name tun_addrs allowed_ips peer_endpoints dns_servers = do {
     rs \<leftarrow> setup_routes run net_str tun_name allowed_ips peer_endpoints;
     r4 \<leftarrow> unconfigured run V4 tun_addrs tun_name peer_endpoints;
     r6 \<leftarrow> unconfigured run V6 tun_addrs tun_name peer_endpoints;
     d \<leftarrow> apply_dns run target tun_name dns_servers;
     State_Monad.return \<lparr>added_routes = rs @ r4 @ r6, applied_dns = d\<rparr>
   }"

fun initiate_handshakes ::
  "('s, 'id, 'm, 'n) tunnel_api \<Rightarrow> 'id peer_runtime list \<Rightarrow> ('s, 'id, 'n, 'w) tunnel
     \<Rightarrow> ('s, 'id, 'n, 'w) tunnel" where
  "initiate_handshakes api [] st = st"
| "initiate_handshakes api (p # ps) st =
     (case send_message (sess api) (sessions st) (pr_id p) (replicate 16 0) of
        (r, s', _) \<Rightarrow>
          let st' = st\<lparr>sessions := s'\<rparr> in
          initiate_handshakes api ps
            (case r of Maintenance data to \<Rightarrow> snd (udp_send api data to st') | _ \<Rightarrow> st'))"

fun is_host :: "added_route \<Rightarrow> bool" where
  "is_host (Host ip family gateway) = True"
| "is_host _ = False"

text \<open>Before the guard exists a failure leaves the system as it is (\<open>Inl\<close>); afterwards there is a
  tunnel, which a failure to install the signal handlers stops at once.\<close>

definition start_tunnel ::
  "('s, 'id, 'm, 'n) tunnel_api \<Rightarrow> tunnel_env \<Rightarrow> ('oracle, 'cfg, 'id, 's) core_api
     \<Rightarrow> (32 word, 'p4, 'r4, 't4, 'id) trie_api \<Rightarrow> (128 word, 'p6, 'r6, 't6, 'id) trie_api
     \<Rightarrow> (ip_net \<Rightarrow> string) \<Rightarrow> 'w os \<Rightarrow> target_os
     \<Rightarrow> 'oracle \<Rightarrow> peer_config list \<Rightarrow> u16 \<Rightarrow> ip_net list \<Rightarrow> int \<Rightarrow> ip_addr list \<Rightarrow> 'n \<Rightarrow> 'w sys
     \<Rightarrow> (exit \<times> 'w sys) + ('id loop_ctx \<times> ('s, 'id, 'n, 'w) tunnel progress)" where
  "start_tunnel api env core api4 api6 net_str run target
      orc peers listen_port tun_addrs mtu dns_servers n s =
     (case build_sessions core api4 api6 net_str orc peers of
        Panic m \<Rightarrow> Inl (ExitPanic m, s)
      | Err _ \<Rightarrow> Inl (ExitErr [], s)
      | Ok (sessions0, peer_net, peer_ids) \<Rightarrow>
     (case udp_bind env listen_port of Inl e \<Rightarrow> Inl (ExitErr e, s) | Inr _ \<Rightarrow>
     (case tun_create env (tun_configuration tun_addrs mtu) of Inl e \<Rightarrow> Inl (ExitErr e, s) | Inr tun_name \<Rightarrow>
     (case tun_async env of Inl e \<Rightarrow> Inl (ExitErr e, s) | Inr _ \<Rightarrow>
        let s1 = snd (run_state (apply_ipv6_addrs run target net_str tun_name tun_addrs) s);
            rt = new_peer_rt (now0 env) peer_ids peers;
            allowed_ips = concat (map pc_allowed_ips peers);
            peer_endpoints = List.map_filter pc_endpoint peers
        in (case run_state (take_over run target net_str tun_name tun_addrs allowed_ips
                   peer_endpoints dns_servers) s1 of
              (g, s2) \<Rightarrow>
                let ctx = \<lparr>lookup = peer_net_lookup api4 api6 peer_net,
                           endpoint_to_idx = endpoint_index rt,
                           host_route_idx = position is_host (added_routes g)\<rparr>;
                    st = initiate_handshakes api rt
                      \<lparr>sessions = sessions0, peer_rt = rt, guard = g, osys = s2, network = n, sent = []\<rparr>
                in Inr (ctx, case signals env of Inl e \<Rightarrow> Stopped (ExitErr e) st | Inr _ \<Rightarrow> Going st))))))"

text \<open>The whole function over a list of events: how it ended, \<open>None\<close> while the loop still runs,
  and the operating system; the guard is dropped on every way out.\<close>

fun leave ::
  "'w os \<Rightarrow> target_os \<Rightarrow> ('s, 'id, 'n, 'w) tunnel progress \<Rightarrow> exit option \<times> 'w sys" where
  "leave run target (Going st) = (None, osys st)"
| "leave run target (Stopped x st) =
     (Some x, snd (run_state (drop_guard run target (guard st)) (osys st)))"

definition run_tunnel ::
  "('s, 'id, 'm, 'n) tunnel_api \<Rightarrow> tunnel_env \<Rightarrow> ('oracle, 'cfg, 'id, 's) core_api
     \<Rightarrow> (32 word, 'p4, 'r4, 't4, 'id) trie_api \<Rightarrow> (128 word, 'p6, 'r6, 't6, 'id) trie_api
     \<Rightarrow> (ip_net \<Rightarrow> string) \<Rightarrow> 'w os \<Rightarrow> target_os
     \<Rightarrow> 'oracle \<Rightarrow> peer_config list \<Rightarrow> u16 \<Rightarrow> ip_net list \<Rightarrow> int \<Rightarrow> ip_addr list \<Rightarrow> 'n
     \<Rightarrow> event list \<Rightarrow> 'w sys \<Rightarrow> (exit option \<times> 'w sys) option" where
  "run_tunnel api env core api4 api6 net_str run target
      orc peers listen_port tun_addrs mtu dns_servers n es s =
     (case start_tunnel api env core api4 api6 net_str run target
             orc peers listen_port tun_addrs mtu dns_servers n s of
        Inl (x, s') \<Rightarrow> Some (Some x, s')
      | Inr (ctx, Stopped x st) \<Rightarrow> Some (leave run target (Stopped x st))
      | Inr (ctx, Going st) \<Rightarrow> map_option (leave run target) (run_loop api run ctx es st))"

end
