(* ===== verification/TunnelProps.thy ===== *)
theory TunnelProps
  imports Tunnel RouteKernel
begin

text \<open>
  What the tunnel guarantees over its whole life.  Every branch of the loop leaves the guard
  and the operating system alone or rechecks the routes, once; so whatever a recheck keeps
  holds as long as the loop runs (\<open>kept_by_recheck\<close>).  The locale is interpreted on the keys of
  the routes, for any operating system, and on the ownership of the routing table, for one that
  keeps its contract.
\<close>

section \<open>The loop touches the system only by rechecking\<close>

fun progress_state :: "'st progress \<Rightarrow> 'st" where
  "progress_state (Going st) = st"
| "progress_state (Stopped x st) = st"

definition on_guard :: "('s, 'id, 'n, 'w) tunnel \<Rightarrow> cleanup_guard \<times> 'w sys" where
  "on_guard st = (guard st, osys st)"

definition at_most_rechecked ::
  "'w os \<Rightarrow> ('s, 'id, 'n, 'w) tunnel \<Rightarrow> ('s, 'id, 'n, 'w) tunnel \<Rightarrow> bool" where
  "at_most_rechecked run st st' \<longleftrightarrow>
     on_guard st' = on_guard st \<or> on_guard st' = on_guard (recheck_guard run st)"

lemma on_guard_update [simp]:
  "on_guard (st\<lparr>sessions := a\<rparr>) = on_guard st" "on_guard (st\<lparr>peer_rt := b\<rparr>) = on_guard st"
  "on_guard (st\<lparr>network := c\<rparr>) = on_guard st"
  by (simp_all add: on_guard_def)

lemma on_guard_recheck:
  "on_guard st = on_guard st' \<Longrightarrow> on_guard (recheck_guard run st) = on_guard (recheck_guard run st')"
  by (simp add: recheck_guard_def on_guard_def split: prod.split)

lemma udp_send_frame [simp]:
  "on_guard (snd (udp_send api data addr st)) = on_guard st"
  "peer_rt (snd (udp_send api data addr st)) = peer_rt st"
  by (simp_all add: udp_send_def on_guard_def split: prod.split)

lemma send_messages_frame [simp]:
  "on_guard (send_messages api msgs st) = on_guard st"
  "peer_rt (send_messages api msgs st) = peer_rt st"
  by (induction api msgs st rule: send_messages.induct) simp_all

lemma send_keepalive_frame [simp]:
  "on_guard (send_keepalive api i st) = on_guard st"
  "peer_rt (send_keepalive api i st) = peer_rt st"
  by (simp_all add: send_keepalive_def Let_def split: prod.split send_message.split)

lemma keepalive_loop_frame:
  "keepalive_loop api now ps st = (ps', st') \<Longrightarrow> on_guard st' = on_guard st \<and> peer_rt st' = peer_rt st"
  by (induction api now ps st arbitrary: ps' st' rule: keepalive_loop.induct)
    (auto split: if_splits prod.splits)

lemma recheck_guard_frame [simp]:
  "peer_rt (recheck_guard run st) = peer_rt st" "sessions (recheck_guard run st) = sessions st"
  "network (recheck_guard run st) = network st" "sent (recheck_guard run st) = sent st"
  by (simp_all add: recheck_guard_def split: prod.split)

lemma udp_send_guard:
  assumes "udp_send api data addr st = (ok, st')"
  shows "on_guard st' = on_guard st" and "peer_rt st' = peer_rt st"
  using udp_send_frame [of api data addr st] assms by simp_all

lemma at_most_rechecked_refl: "on_guard st' = on_guard st \<Longrightarrow> at_most_rechecked run st st'"
  by (simp add: at_most_rechecked_def)

lemma at_most_recheckedI:
  "on_guard st' = on_guard st \<Longrightarrow> on_guard st'' = on_guard (recheck_guard run st')
   \<Longrightarrow> at_most_rechecked run st st''"
  using on_guard_recheck [of st' st run] by (simp add: at_most_rechecked_def)

lemma tick_at_most_rechecked:
  assumes "on_tick api run ctx clock now st = Some p"
  shows "at_most_rechecked run st (progress_state p)"
proof -
  obtain msgs s' where turned: "turn_all (turn api) clock (sessions st) = Some (msgs, s')"
    using assms by (auto simp: on_tick_def bind_eq_Some_conv)
  let ?st1 = "st\<lparr>sessions := s'\<rparr>"
  show ?thesis
  proof (cases "tick_recheck (host_route_idx ctx) (added_routes (guard ?st1))")
    case None
    with assms turned show ?thesis by (auto simp: on_tick_def intro: at_most_rechecked_refl)
  next
    case (Some b)
    let ?st2 = "if b then recheck_guard run ?st1 else ?st1"
    obtain ps st4 where k: "keepalive_loop api now (peer_rt (send_messages api msgs ?st2))
        (send_messages api msgs ?st2) = (ps, st4)" by fastforce
    have "on_guard st4 = on_guard ?st2" using keepalive_loop_frame [OF k] by simp
    moreover have "p = Going (st4\<lparr>peer_rt := ps\<rparr>)"
      using assms turned Some k by (simp add: on_tick_def Let_def)
    ultimately show ?thesis
      by (cases b) (auto intro: at_most_rechecked_refl at_most_recheckedI [of ?st1])
  qed
qed

lemma udp_at_most_rechecked: "at_most_rechecked run st (progress_state (on_udp api run ctx addr buf st))"
proof -
  obtain r s' where h: "handle_extern (sess api) (pf api) (lookup ctx) (sessions st) addr buf = (r, s')"
    by fastforce
  let ?st1 = "st\<lparr>sessions := s'\<rparr>"
  show ?thesis
  proof (cases "\<exists>data to. r = Ok (Outbound data to)")
    case True
    then obtain data to where r: "r = Ok (Outbound data to)" by blast
    obtain ok st2 where u: "udp_send api data addr ?st1 = (ok, st2)" by fastforce
    have "on_guard st2 = on_guard st" using udp_send_guard(1) [OF u] by simp
    with h r u show ?thesis
      by (cases ok) (auto simp: on_udp_def intro: at_most_rechecked_refl at_most_recheckedI)
  next
    case False
    with h show ?thesis
      by (auto simp: on_udp_def Let_def intro!: at_most_rechecked_refl
          split: outcome.split write_result.split prod.split sum.split)
  qed
qed

lemma tun_at_most_rechecked: "at_most_rechecked run st (progress_state (on_tun api run ctx now buf n st))"
proof -
  obtain r s' where h: "handle_intern (sess api) (pf api) (lookup ctx) (sessions st) buf
      (TUN_BUF_START (pf api) + n) = (r, s')"
    by fastforce
  let ?st1 = "st\<lparr>sessions := s'\<rparr>"
  show ?thesis
  proof (cases "\<exists>data to. r = Ok (Outbound data to)")
    case True
    then obtain data to where r: "r = Ok (Outbound data to)" by blast
    obtain ok st2 where u: "udp_send api data to ?st1 = (ok, st2)" by fastforce
    have "on_guard st2 = on_guard st" using udp_send_guard(1) [OF u] by simp
    with h r u at_most_recheckedI [of st2 st "recheck_guard run st2"] show ?thesis
      by (cases ok) (auto simp: on_tun_def intro!: at_most_rechecked_refl split: option.split)
  next
    case False
    with h show ?thesis
      by (auto simp: on_tun_def Let_def intro!: at_most_rechecked_refl
          split: outcome.split write_result.split)
  qed
qed

lemma event_at_most_rechecked:
  assumes "on_event api run ctx e st = Some p"
  shows "at_most_rechecked run st (progress_state p)"
  using assms tick_at_most_rechecked udp_at_most_rechecked tun_at_most_rechecked
  by (cases "(api, run, ctx, e, st)" rule: on_event.cases)
    (auto intro: at_most_rechecked_refl)

section \<open>What a recheck keeps holds while the loop runs\<close>

locale kept_by_recheck =
  fixes run :: "'w os" and kept :: "cleanup_guard \<Rightarrow> 'w sys \<Rightarrow> bool"
  assumes recheck_keeps:
    "kept g s \<Longrightarrow> run_state (recheck_routes run (added_routes g)) s = (rs, s')
      \<Longrightarrow> kept (g\<lparr>added_routes := rs\<rparr>) s'"
begin

abbreviation kept_in :: "('s, 'id, 'n, 'w) tunnel \<Rightarrow> bool" where
  "kept_in st \<equiv> kept (guard st) (osys st)"

lemma rechecked_kept: "kept_in st \<Longrightarrow> at_most_rechecked run st st' \<Longrightarrow> kept_in st'"
  by (auto simp: at_most_rechecked_def on_guard_def recheck_guard_def recheck_keeps split: prod.splits)

lemma loop_kept:
  "run_loop api run ctx es st = Some p \<Longrightarrow> kept_in st \<Longrightarrow> kept_in (progress_state p)"
proof (induction es arbitrary: st)
  case Nil
  then show ?case by auto
next
  case (Cons e es)
  then obtain q where q: "on_event api run ctx e st = Some q"
      "(case q of Going st' \<Rightarrow> run_loop api run ctx es st' | Stopped x st' \<Rightarrow> Some (Stopped x st')) = Some p"
    by (auto simp: bind_eq_Some_conv)
  have "kept_in (progress_state q)"
    using rechecked_kept [OF Cons.prems(2) event_at_most_rechecked [OF q(1)]] .
  with q Cons.IH show ?case by (cases q) auto
qed

end

text \<open>The keys of the routes and the handle of the resolver never change.\<close>

interpretation same_keys: kept_by_recheck run
    "\<lambda>g s. map route_key (added_routes g) = ks \<and> applied_dns g = d" for run ks d
  by unfold_locales (auto, metis fst_conv recheck_keys)

section \<open>The contract of the operating system\<close>

text \<open>
  The kernel's routes and the resolver, and that the commands of the one do not touch the other:
  \<open>tunnel_base\<close> over the contracts that allow for refused deletes and half-done settings,
  \<open>tunnel_os\<close> over those that do not; \<open>tunnel_routes\<close> is about the routes alone.  (Adding an
  address to an interface may well add routes; it happens before the guard exists.)
\<close>

locale tunnel_routes = kernel: route_table run tbl key
  for run :: "'w os" and tbl :: "'w \<Rightarrow> 'k \<Rightarrow> via option" and key :: "rkey \<Rightarrow> 'k" +
  assumes dns_keeps_routes: "prog c \<in> {''scutil'', ''resolvconf''} \<Longrightarrow> tbl (snd (run c w)) = tbl w"

locale tunnel_base = tunnel_routes run tbl key + resolver: resolver_base run target res
  for run :: "'w os" and tbl :: "'w \<Rightarrow> 'k \<Rightarrow> via option" and key :: "rkey \<Rightarrow> 'k"
    and target :: target_os and res :: "'w \<Rightarrow> string \<Rightarrow> string list option" +
  assumes routes_keep_dns: "prog c = ''route'' \<Longrightarrow> res (snd (run c w)) = res w"

locale tunnel_os = tunnel_base run tbl key target res
    + strict: route_kernel run tbl key + exact: resolver_os run target res
  for run :: "'w os" and tbl :: "'w \<Rightarrow> 'k \<Rightarrow> via option" and key :: "rkey \<Rightarrow> 'k"
    and target :: target_os and res :: "'w \<Rightarrow> string \<Rightarrow> string list option"

context tunnel_routes
begin

lemma dns_set_prog: "dns_set_cmd target tun ips = Some c \<Longrightarrow> prog c \<in> {''scutil'', ''resolvconf''}"
  by (cases target) (auto simp: scutil_def resolvconf_add_def)

lemma dns_clear_prog: "dns_clear_cmd target tun = Some c \<Longrightarrow> prog c \<in> {''scutil'', ''resolvconf''}"
  by (cases target) (auto simp: scutil_def resolvconf_delete_def)

lemma apply_dns_table: "tbl (world (snd (run_state (apply_dns run target tun ips) s))) = tbl (world s)"
  using dns_keeps_routes [OF dns_set_prog]
  by (auto simp: run_apply_dns split: option.split if_splits)

lemma cleanup_dns_table: "tbl (world (snd (run_state (cleanup_dns run target d) s))) = tbl (world s)"
  using dns_keeps_routes [OF dns_clear_prog] by (simp add: run_cleanup_dns split: option.split)

text \<open>Taking over: the guard owns exactly what differs from the table before.\<close>

lemma unconfigured_installed:
  "installed key (tbl (world s)) (fst (run_state (unconfigured run f addrs tun eps) s))
     (tbl (world (snd (run_state (unconfigured run f addrs tun eps) s))))"
  using kernel.table.unconfigured by (simp add: unconfigured_def)

lemma take_over_owns:
  assumes "run_state (take_over run target net_str tun addrs ips eps dns) s = (g, s')"
  shows "kernel.owns (tbl (world s)) (added_routes g) (world s')"
proof -
  let ?a = "run_state (setup_routes run net_str tun ips eps) s"
  let ?b = "run_state (unconfigured run V4 addrs tun eps) (snd ?a)"
  let ?c = "run_state (unconfigured run V6 addrs tun eps) (snd ?b)"
  have "installed key (tbl (world s)) (fst ?a @ fst ?b @ fst ?c) (tbl (world (snd ?c)))"
    by (intro installed_append [OF kernel.table.all_setup] installed_append [OF unconfigured_installed]
        unconfigured_installed)
  then have "kernel.owns (tbl (world s)) (fst ?a @ fst ?b @ fst ?c) (world (snd ?c))"
    by (rule kernel.owns_installed)
  moreover have "added_routes g = fst ?a @ fst ?b @ fst ?c"
      "s' = snd (run_state (apply_dns run target tun dns) (snd ?c))"
    using assms by (auto simp: take_over_def case_prod_beta)
  ultimately show ?thesis using kernel.owns_world apply_dns_table by metis
qed

lemma recheck_owns: "kept_by_recheck run (\<lambda>g s. kernel.owns t0 (added_routes g) (world s))"
  by unfold_locales (metis kernel.owns_recheck fst_conv snd_conv cleanup_guard.select_convs(1)
      cleanup_guard.surjective cleanup_guard.update_convs(1))

end

sublocale tunnel_routes \<subseteq> owned: kept_by_recheck run "\<lambda>g s. kernel.owns t0 (added_routes g) (world s)" for t0
  by (rule recheck_owns)

context tunnel_os
begin

lemma drop_restores_table:
  assumes "kernel.owns t0 (added_routes g) (world s)"
  shows "tbl (world (snd (run_state (drop_guard run target g) s))) = t0"
proof (cases "applied_dns g")
  case None
  with strict.owns_cleanup [OF assms] show ?thesis by (simp add: drop_guard_def)
next
  case (Some d)
  let ?s = "snd (run_state (cleanup_dns run target d) s)"
  have "kernel.owns t0 (added_routes g) (world ?s)"
    using kernel.owns_world [OF assms cleanup_dns_table] .
  from strict.owns_cleanup [OF this] Some show ?thesis
    by (simp add: drop_guard_def case_prod_beta)
qed

end

section \<open>Starting\<close>

lemma initiate_frame [simp]:
  "on_guard (initiate_handshakes api ps st) = on_guard st"
  "peer_rt (initiate_handshakes api ps st) = peer_rt st"
  by (induction api ps st rule: initiate_handshakes.induct)
    (auto simp: Let_def split: prod.split send_message.split)

lemma initiate_guard [simp]:
  "guard (initiate_handshakes api ps st) = guard st" "osys (initiate_handshakes api ps st) = osys st"
  using initiate_frame(1) [of api ps st] by (simp_all add: on_guard_def)

text \<open>What a started tunnel looks like, without the sessions.\<close>

definition before_guard ::
  "tunnel_env \<Rightarrow> 'w os \<Rightarrow> target_os \<Rightarrow> (ip_net \<Rightarrow> string) \<Rightarrow> ip_net list \<Rightarrow> int \<Rightarrow> 'w sys \<Rightarrow> 'w sys" where
  "before_guard env run target net_str addrs mtu s =
     (case tun_create env (tun_configuration addrs mtu) of
        Inl e \<Rightarrow> s
      | Inr tun \<Rightarrow> snd (run_state (apply_ipv6_addrs run target net_str tun addrs) s))"

lemma start_tunnel_cases:
  assumes "start_tunnel api env core api4 api6 net_str run target orc peers port addrs mtu dns n s = r"
  obtains (early) x where "r = Inl (x, s)"
  | (started) ctx p tun s2 where "r = Inr (ctx, p)"
      and "tun_create env (tun_configuration addrs mtu) = Inr tun"
      and "run_state (take_over run target net_str tun addrs (concat (map pc_allowed_ips peers))
             (List.map_filter pc_endpoint peers) dns) (before_guard env run target net_str addrs mtu s)
           = (guard (progress_state p), s2)"
      and "osys (progress_state p) = s2"
      and "endpoint_to_idx ctx = endpoint_index (peer_rt (progress_state p))"
      and "host_route_idx ctx = position is_host (added_routes (guard (progress_state p)))"
      and "\<And>x st. p = Stopped x st \<Longrightarrow> \<exists>e. signals env = Inl e \<and> x = ExitErr e"
  using assms unfolding start_tunnel_def before_guard_def
  by (auto simp: Let_def split: outcome.splits prod.splits sum.splits) 

context kept_by_recheck
begin

lemma run_tunnel_kept:
  assumes "run_tunnel api env core api4 api6 net_str run target orc peers port addrs mtu dns n es s
      = Some (x, s')"
    and "\<And>tun g s2. tun_create env (tun_configuration addrs mtu) = Inr tun \<Longrightarrow>
      run_state (take_over run target net_str tun addrs
        (concat (map pc_allowed_ips peers)) (List.map_filter pc_endpoint peers) dns)
        (before_guard env run target net_str addrs mtu s) = (g, s2) \<Longrightarrow> kept g s2"
  shows "s' = s \<or> (\<exists>g s2. kept g s2 \<and>
      s' = (if x = None then s2 else snd (run_state (drop_guard run target g) s2)))"
proof (cases rule: start_tunnel_cases [OF refl, of api env core api4 api6 net_str run target orc peers
      port addrs mtu dns n s, case_names early started])
  case (early y)
  with assms(1) show ?thesis by (simp add: run_tunnel_def)
next
  case (started ctx p tun s2)
  have kept: "kept_in (progress_state p)" using assms(2) [OF started(2,3)] started(4) by simp
  have left: ?thesis if "leave run target q = (x, s')" "kept_in (progress_state q)"
    for q :: "('a, 'b, 'd, 'w) tunnel progress"
    using that by (cases q) auto
  show ?thesis
  proof (cases p)
    case (Stopped y st)
    with assms(1) started(1) kept left [of p] show ?thesis by (simp add: run_tunnel_def)
  next
    case (Going st)
    with assms(1) started(1) obtain q where q: "run_loop api run ctx es st = Some q"
        "leave run target q = (x, s')"
      by (auto simp: run_tunnel_def)
    with loop_kept kept Going left [OF q(2)] show ?thesis by fastforce
  qed
qed

end

context tunnel_os
begin

lemma run_tunnel_table:
  assumes "run_tunnel api env core api4 api6 net_str run target orc peers port addrs mtu dns n es s
           = Some (Some x, s')"
  shows "tbl (world s') \<in> {tbl (world s), tbl (world (before_guard env run target net_str addrs mtu s))}"
proof -
  let ?t0 = "tbl (world (before_guard env run target net_str addrs mtu s))"
  have "s' = s \<or> (\<exists>g s2. kernel.owns ?t0 (added_routes g) (world s2)
      \<and> s' = (if Some x = None then s2 else snd (run_state (drop_guard run target g) s2)))"
    by (rule owned.run_tunnel_kept [OF assms]) (rule take_over_owns)
  then show ?thesis using drop_restores_table by auto
qed

end

section \<open>A host that meets the contract\<close>

record host_world =
  hw_routes :: ref_world
  hw_resolver :: res_store

definition host_run :: "host_world os" where
  "host_run c w =
     (if prog c \<in> {''scutil'', ''resolvconf''}
      then (case ref_resolver c (hw_resolver w) of (r, t) \<Rightarrow> (r, w\<lparr>hw_resolver := t\<rparr>))
      else if prog c = ''route''
      then (case ref_run c (hw_routes w) of (r, t) \<Rightarrow> (r, w\<lparr>hw_routes := t\<rparr>))
      else (Exited True [], w))"

lemma host_run_route [simp]:
  "host_run (route_command as) w =
     (fst (ref_run (route_command as) (hw_routes w)),
      w\<lparr>hw_routes := snd (ref_run (route_command as) (hw_routes w))\<rparr>)"
  by (simp add: host_run_def route_command_def case_prod_beta)

interpretation host: route_kernel host_run "\<lambda>w. rw_table (hw_routes w)" "\<lambda>k. k"
  by unfold_locales (use ref.get_reads ref.add_ok ref.add_fail ref.delete_clears in simp_all)

interpretation host_macos: tunnel_os host_run "\<lambda>w. rw_table (hw_routes w)" "\<lambda>k. k" MacOS hw_resolver
  by unfold_locales
    (auto simp: host_run_def scutil_def ref_resolver_def macos_script_sets macos_script_removes
      split: prod.split)

interpretation host_linux: tunnel_os host_run "\<lambda>w. rw_table (hw_routes w)" "\<lambda>k. k" Linux hw_resolver
  by unfold_locales
    (auto simp: host_run_def resolvconf_add_def resolvconf_delete_def ref_resolver_def
      resolvconf_roundtrip split: prod.split)

definition host_demo :: "host_world sys" where
  "host_demo = \<lparr>cmd_log = [], world = \<lparr>hw_routes = world ref_init, hw_resolver = Map.empty\<rparr>\<rparr>"

text \<open>A socket that loses what goes to port 9, sessions whose timers are quiet.\<close>

definition api_demo :: "(nat, nat, unit, nat) tunnel_api" where
  "api_demo = \<lparr>sess = sess_demo addr_demo, turn = (\<lambda>now s. (None, s)), pf = pf_demo,
     udp_send_to = (\<lambda>data addr n. (sa_port addr \<noteq> 9, Suc n)),
     tun_write_all = (\<lambda>data n. (Inr (), Suc n))\<rparr>"

definition env_demo :: tunnel_env where
  "env_demo = \<lparr>udp_bind = (\<lambda>_. Inr ()), tun_create = (\<lambda>_. Inr ''utun5''), tun_async = Inr (),
     signals = Inr (), now0 = 0\<rparr>"

abbreviation run_demo :: "event list \<Rightarrow> (exit option \<times> host_world sys) option" where
  "run_demo es \<equiv> run_tunnel api_demo env_demo core_demo radix_api radix_api net_bit_text host_run Linux
     () peers_demo 51820 [NetV4 0x0A000001 24] 1420 [IpV4 0x01010101] 0 es host_demo"

section \<open>Properties\<close>

text \<open>C2: The tunnel gives the routing table back.  Over an operating system that keeps its
  contract, whatever the configuration, the answers of the sessions, the socket and the device,
  and whatever events the loop has seen, when \<^verbatim>\<open>run_tunnel\<close> ends, by a signal, an error or
  a panic, the table is what it was on entry, or what it was once the new interface had its
  addresses; the rechecks in between do not change that.\<close>

theorem run_tunnel_restores_routes:
  assumes "tunnel_os run tbl key target res"
    and "run_tunnel api env core api4 api6 net_str run target orc peers port addrs mtu dns n es s
           = Some (Some x, s')"
  shows "tbl (world s') \<in> {tbl (world s), tbl (world (before_guard env run target net_str addrs mtu s))}"
  by (rule tunnel_os.run_tunnel_table [OF assms])

theorem run_tunnel_restores_routes_witness:
  "\<exists>s'. run_demo [UdpRecv (Inr (addr_demo, [])), SigInt] = Some (Some ExitOk, s')
     \<and> rw_table (hw_routes (world s')) = rw_table (hw_routes (world host_demo))"
proof -
  obtain s' where run: "run_demo [UdpRecv (Inr (addr_demo, [])), SigInt] = Some (Some ExitOk, s')"
    by (simp add: run_tunnel_def start_tunnel_def build_demo env_demo_def Let_def case_prod_beta
        on_udp_def handle_extern_def api_demo_def sess_demo_def)
  with run_tunnel_restores_routes [OF host_linux.tunnel_os_axioms run] show ?thesis
    by (auto simp: before_guard_def env_demo_def is_net_v6_def)
qed

end
