(* ===== verification/TunnelLoop.thy ===== *)
theory TunnelLoop
  imports TunnelProps
begin

text \<open>
  The two indices that \<^verbatim>\<open>run_tunnel\<close> computes before its loop, of the peers by endpoint and of
  the first endpoint bypass, stay right while the loop runs; and what a data packet does to the
  runtime state of the peers.
\<close>

section \<open>The two indices\<close>

text \<open>The endpoint index leads to the last peer configured with that endpoint.\<close>

lemma endpoint_index_snoc:
  "endpoint_index (rt @ [p]) =
     (case pr_endpoint p of None \<Rightarrow> endpoint_index rt | Some ep \<Rightarrow> (endpoint_index rt)(ep \<mapsto> length rt))"
  by (simp add: endpoint_index_def enumerate_append_eq split: option.split)

lemma endpoint_index_Some:
  "endpoint_index rt ep = Some i \<longleftrightarrow>
     i < length rt \<and> pr_endpoint (rt ! i) = Some ep
     \<and> (\<forall>j. i < j \<and> j < length rt \<longrightarrow> pr_endpoint (rt ! j) \<noteq> Some ep)"
proof (induction rt rule: rev_induct)
  case Nil
  then show ?case by (simp add: endpoint_index_def)
next
  case (snoc p rt)
  then show ?case
    by (auto simp: endpoint_index_snoc nth_append less_Suc_eq split: option.splits if_splits)
qed

lemma endpoint_index_cong:
  "map pr_endpoint rt = map pr_endpoint rt' \<Longrightarrow> endpoint_index rt = endpoint_index rt'"
proof (induction rt arbitrary: rt' rule: rev_induct)
  case (snoc p rt)
  then obtain qs q where "rt' = qs @ [q]" "map pr_endpoint rt = map pr_endpoint qs"
      "pr_endpoint p = pr_endpoint q"
    by (cases rt' rule: rev_cases) auto
  moreover from this(2) have "length rt = length qs" by (rule map_eq_imp_length_eq)
  ultimately show ?case using snoc.IH [of qs]
    by (auto simp: endpoint_index_snoc fun_eq_iff split: option.split)
qed (simp add: endpoint_index_def)

lemma is_host_key: "is_host r \<longleftrightarrow> fst (snd (route_key r)) = ''-host''"
  by (cases r) simp_all

lemma position_host_cong:
  assumes "map route_key rs = map route_key rs'"
  shows "position is_host rs = position is_host rs'"
proof (rule position_cong_map)
  have "map is_host rs = map (\<lambda>k. fst (snd k) = ''-host'') (map route_key rs)" for rs
    by (simp add: is_host_key)
  then show "map is_host rs = map is_host rs'" by (metis assms)
qed

text \<open>The indices computed before the loop, and what they are indices of.\<close>

definition indexed :: "'id loop_ctx \<Rightarrow> ('s, 'id, 'n, 'w) tunnel \<Rightarrow> bool" where
  "indexed ctx st \<longleftrightarrow>
     host_route_idx ctx = position is_host (added_routes (guard st))
     \<and> endpoint_to_idx ctx = endpoint_index (peer_rt st)"

lemma recheck_position:
  "position is_host (added_routes (guard (recheck_guard run st))) = position is_host (added_routes (guard st))"
  by (rule position_host_cong)
    (auto simp: recheck_guard_def split: prod.split, metis fst_conv recheck_keys)

lemma indexed_rechecked:
  assumes "indexed ctx st" and "at_most_rechecked run st st'"
    and "map pr_endpoint (peer_rt st') = map pr_endpoint (peer_rt st)"
  shows "indexed ctx st'"
  using assms recheck_position [of run st] endpoint_index_cong [OF assms(3)]
  by (auto simp: indexed_def at_most_rechecked_def on_guard_def)

lemma keepalive_loop_peers:
  "fst (keepalive_loop api now ps st) = map (\<lambda>p. if due now p then p\<lparr>pr_last_sent := now\<rparr> else p) ps"
  by (induction api now ps st rule: keepalive_loop.induct) (auto split: prod.split)

lemma keepalive_loop_peersD:
  "keepalive_loop api now ps st = (ps', st')
   \<Longrightarrow> ps' = map (\<lambda>p. if due now p then p\<lparr>pr_last_sent := now\<rparr> else p) ps"
  using keepalive_loop_peers [of api now ps st] by simp

lemma slice_panic [simp]: "slice a b xs \<noteq> Panic ''index out of bounds''"
  by (simp add: slice_def)

lemma extern_panic: "fst (handle_extern api p look s addr buf) \<noteq> Panic ''index out of bounds''"
  by (simp add: handle_extern_def bind_outcome_Panic Let_def
      split: prod.split message.split option.split)

lemma frame_panic [simp]: "frame_reply api p pad buf r \<noteq> Panic ''index out of bounds''"
  by (simp add: frame_reply_def bind_outcome_Panic split: send_message.split)

lemma intern_panic: "fst (handle_intern api p look s buf n) \<noteq> Panic ''index out of bounds''"
  using slice_panic [of "IP_PACKET_START p" n buf]
  by (cases "slice (IP_PACKET_START p) n buf")
    (simp_all add: handle_intern_def Let_def split: prod.split option.split)

lemma tick_indexed:
  assumes "indexed ctx st" and "on_tick api run ctx clock now st = Some p"
  shows "\<exists>st'. p = Going st' \<and> indexed ctx st'
    \<and> peer_rt st' = map (\<lambda>p. if due now p then p\<lparr>pr_last_sent := now\<rparr> else p) (peer_rt st)"
proof -
  have "tick_recheck (host_route_idx ctx) (added_routes (guard st)) \<noteq> None"
    using assms(1) by (auto simp: tick_recheck_def indexed_def position_Some_iff split: option.split)
  with assms(2) obtain st' where p: "p = Going st'"
      "peer_rt st' = map (\<lambda>p. if due now p then p\<lparr>pr_last_sent := now\<rparr> else p) (peer_rt st)"
    by (auto simp: on_tick_def bind_eq_Some_conv Let_def split: option.splits prod.splits
        dest!: keepalive_loop_peersD split: if_splits)
  moreover have "map pr_endpoint (peer_rt st') = map pr_endpoint (peer_rt st)"
    by (simp add: p(2))
  ultimately show ?thesis
    using indexed_rechecked [OF assms(1) tick_at_most_rechecked [OF assms(2)]] by simp
qed

lemma udp_indexed:
  assumes "indexed ctx st"
  shows "indexed ctx (progress_state (on_udp api run ctx addr buf st))"
    and "on_udp api run ctx addr buf st \<noteq> Stopped (ExitPanic ''index out of bounds'') st'"
proof -
  obtain r s' where h: "handle_extern (sess api) (pf api) (lookup ctx) (sessions st) addr buf = (r, s')"
    by fastforce
  have "peer_rt (progress_state (on_udp api run ctx addr buf st)) = peer_rt st
      \<and> on_udp api run ctx addr buf st \<noteq> Stopped (ExitPanic ''index out of bounds'') st'"
  proof (cases "\<exists>data to. r = Ok (Outbound data to)")
    case True
    then obtain data to where r: "r = Ok (Outbound data to)" by blast
    obtain ok st2 where u: "udp_send api data addr (st\<lparr>sessions := s'\<rparr>) = (ok, st2)" by fastforce
    show ?thesis using h r u udp_send_guard(2) [OF u] by (simp add: on_udp_def)
  next
    case False
    then show ?thesis
      using h extern_panic [of "sess api" "pf api" "lookup ctx" "sessions st" addr buf]
      by (auto simp: on_udp_def Let_def split: outcome.split write_result.split prod.split sum.split)
  qed
  then have p: "peer_rt (progress_state (on_udp api run ctx addr buf st)) = peer_rt st"
    and n: "on_udp api run ctx addr buf st \<noteq> Stopped (ExitPanic ''index out of bounds'') st'"
    by blast+
  show "indexed ctx (progress_state (on_udp api run ctx addr buf st))"
    by (rule indexed_rechecked [OF assms udp_at_most_rechecked]) (simp add: p)
  show "on_udp api run ctx addr buf st \<noteq> Stopped (ExitPanic ''index out of bounds'') st'"
    by (rule n)
qed

text \<open>What a data packet does to the peers: the last one configured with the endpoint is
  postponed, when the send succeeded.\<close>

lemma tun_step:
  assumes "endpoint_to_idx ctx = endpoint_index (peer_rt st)"
    and "handle_intern (sess api) (pf api) (lookup ctx) (sessions st) buf (TUN_BUF_START (pf api) + n)
           = (Ok (Outbound data dst), s')"
    and "udp_send_to api data dst (network st) = (ok, n')"
  shows "\<exists>st'. on_tun api run ctx now buf n st = Going st'
    \<and> on_guard st' = (if ok then on_guard st else on_guard (recheck_guard run st))
    \<and> sent st' = sent st @ [(data, dst)]
    \<and> peer_rt st' = (case (if ok then endpoint_index (peer_rt st) dst else None) of
         None \<Rightarrow> peer_rt st
       | Some i \<Rightarrow> (peer_rt st)[i := (peer_rt st ! i)\<lparr>pr_last_sent := now\<rparr>])"
proof -
  let ?st = "st\<lparr>sessions := s', network := n', sent := sent st @ [(data, dst)]\<rparr>"
  have u: "udp_send api data dst (st\<lparr>sessions := s'\<rparr>) = (ok, ?st)"
    using assms(3) by (simp add: udp_send_def)
  have g: "on_guard ?st = on_guard st" "on_guard (recheck_guard run ?st) = on_guard (recheck_guard run st)"
    by (simp_all add: on_guard_def recheck_guard_def split: prod.split)
  show ?thesis
  proof (cases ok)
    case False
    then show ?thesis using assms(2) u g by (simp add: on_tun_def)
  next
    case True
    show ?thesis
    proof (cases "endpoint_index (peer_rt st) dst")
      case None
      with True show ?thesis using assms(1,2) u g by (simp add: on_tun_def)
    next
      case (Some i)
      then have "i < length (peer_rt st)" by (simp add: endpoint_index_Some)
      with True Some show ?thesis using assms(1,2) u g by (simp add: on_tun_def)
    qed
  qed
qed

lemma tun_indexed:
  assumes "indexed ctx st"
  shows "indexed ctx (progress_state (on_tun api run ctx now buf n st))"
    and "on_tun api run ctx now buf n st \<noteq> Stopped (ExitPanic ''index out of bounds'') st'"
proof -
  obtain r s' where h: "handle_intern (sess api) (pf api) (lookup ctx) (sessions st) buf
      (TUN_BUF_START (pf api) + n) = (r, s')" by fastforce
  have "map pr_endpoint (peer_rt (progress_state (on_tun api run ctx now buf n st)))
        = map pr_endpoint (peer_rt st)
     \<and> on_tun api run ctx now buf n st \<noteq> Stopped (ExitPanic ''index out of bounds'') st'"
  proof (cases "\<exists>data dst. r = Ok (Outbound data dst)")
    case True
    then obtain data dst where r: "r = Ok (Outbound data dst)" by blast
    obtain ok n' where "udp_send_to api data dst (network st) = (ok, n')" by fastforce
    from tun_step [OF conjunct2 [OF assms [unfolded indexed_def]] h [unfolded r] this, where run = run and now = now] show ?thesis
      by (auto split: option.splits if_splits simp: map_update endpoint_index_Some)
        (metis list_update_id map_update nth_map length_map)
  next
    case False
    then show ?thesis
      using h intern_panic [of "sess api" "pf api" "lookup ctx" "sessions st" buf "TUN_BUF_START (pf api) + n"]
      by (auto simp: on_tun_def Let_def split: outcome.split write_result.split)
  qed
  then have p: "map pr_endpoint (peer_rt (progress_state (on_tun api run ctx now buf n st)))
        = map pr_endpoint (peer_rt st)"
    and m: "on_tun api run ctx now buf n st \<noteq> Stopped (ExitPanic ''index out of bounds'') st'"
    by blast+
  show "indexed ctx (progress_state (on_tun api run ctx now buf n st))"
    by (rule indexed_rechecked [OF assms tun_at_most_rechecked p])
  show "on_tun api run ctx now buf n st \<noteq> Stopped (ExitPanic ''index out of bounds'') st'"
    by (rule m)
qed

lemma event_indexed:
  assumes "indexed ctx st" and "on_event api run ctx e st = Some p"
  shows "indexed ctx (progress_state p)" and "p \<noteq> Stopped (ExitPanic ''index out of bounds'') st'"
proof -
  have "indexed ctx (progress_state p) \<and> p \<noteq> Stopped (ExitPanic ''index out of bounds'') st'"
  proof (cases e)
    case (Tick clock now)
    with assms tick_indexed [OF assms(1), of api run clock now p] show ?thesis by auto
  next
    case (UdpRecv r)
    show ?thesis
    proof (cases r)
      case (Inr ab)
      obtain addr buf where "ab = (addr, buf)" by fastforce
      with assms(2) UdpRecv Inr have "p = on_udp api run ctx addr buf st" by simp
      with udp_indexed(1) [OF assms(1), of api run addr buf]
        udp_indexed(2) [OF assms(1), of api run addr buf st'] show ?thesis by simp
    qed (use assms UdpRecv in auto)
  next
    case (TunRead now r)
    show ?thesis
    proof (cases r)
      case (Inr ab)
      obtain n buf where "ab = (n, buf)" by fastforce
      with assms(2) TunRead Inr have "p = on_tun api run ctx now buf n st" by simp
      with tun_indexed(1) [OF assms(1), of api run now buf n]
        tun_indexed(2) [OF assms(1), of api run now buf n st'] show ?thesis by simp
    qed (use assms TunRead in auto)
  qed (use assms in auto)
  then show "indexed ctx (progress_state p)" and "p \<noteq> Stopped (ExitPanic ''index out of bounds'') st'"
    by blast+
qed

lemma loop_indexed:
  assumes "indexed ctx st" and "run_loop api run ctx es st = Some p"
  shows "indexed ctx (progress_state p) \<and> (\<forall>st'. p \<noteq> Stopped (ExitPanic ''index out of bounds'') st')"
  using assms
proof (induction es arbitrary: st)
  case Nil
  then show ?case by auto
next
  case (Cons e es)
  then obtain q where q: "on_event api run ctx e st = Some q"
      "(case q of Going st' \<Rightarrow> run_loop api run ctx es st' | Stopped x st' \<Rightarrow> Some (Stopped x st')) = Some p"
    by (auto simp: bind_eq_Some_conv)
  from event_indexed [OF Cons.prems(1) q(1)] q(2) Cons.IH show ?case by (cases q) auto
qed

section \<open>Properties\<close>

text \<open>C8: The indices the loop was given stay right.  From the start on and after any events, the
  endpoint index leads to the last peer configured with that endpoint, the stored position is
  that of the first endpoint bypass, through all rechecks; so the loop never stops with an
  index out of bounds.\<close>

theorem loop_indices_stay_right:
  assumes "start_tunnel api env core api4 api6 net_str run target orc peers port addrs mtu dns n s
      = Inr (ctx, Going st0)"
    and "run_loop api run ctx es st0 = Some p"
  shows "host_route_idx ctx = position is_host (added_routes (guard (progress_state p)))
    \<and> (\<forall>ep i. endpoint_to_idx ctx ep = Some i \<longleftrightarrow>
          i < length (peer_rt (progress_state p))
          \<and> pr_endpoint (peer_rt (progress_state p) ! i) = Some ep
          \<and> (\<forall>j. i < j \<and> j < length (peer_rt (progress_state p)) \<longrightarrow>
                pr_endpoint (peer_rt (progress_state p) ! j) \<noteq> Some ep))
    \<and> (\<forall>st. p \<noteq> Stopped (ExitPanic ''index out of bounds'') st)"
proof -
  have "indexed ctx st0"
    using assms(1) by (cases rule: start_tunnel_cases) (auto simp: indexed_def)
  from loop_indexed [OF this assms(2)] show ?thesis
    by (simp add: indexed_def endpoint_index_Some)
qed

abbreviation start_demo :: "(exit \<times> host_world sys) + (nat loop_ctx \<times> (nat, nat, nat, host_world) tunnel progress)" where
  "start_demo \<equiv> start_tunnel api_demo env_demo core_demo radix_api radix_api net_bit_text host_run Linux
     () peers_demo 51820 [NetV4 0x0A000001 24] 1420 [IpV4 0x01010101] 0 host_demo"

lemma start_demo: "\<exists>ctx st. start_demo = Inr (ctx, Going st)"
  by (simp add: start_tunnel_def build_demo env_demo_def Let_def case_prod_beta)

theorem loop_indices_stay_right_witness:
  "\<exists>ctx st0 p. start_demo = Inr (ctx, Going st0)
     \<and> run_loop api_demo host_run ctx [UdpRecv (Inr (addr_demo, [])), SigInt] st0 = Some p
     \<and> host_route_idx ctx = position is_host (added_routes (guard (progress_state p)))"
proof -
  obtain ctx st0 where start: "start_demo = Inr (ctx, Going st0)" using start_demo by blast
  obtain p where run: "run_loop api_demo host_run ctx [UdpRecv (Inr (addr_demo, [])), SigInt] st0 = Some p"
    by (simp add: on_udp_def handle_extern_def api_demo_def sess_demo_def)
  from loop_indices_stay_right [OF start run] start run show ?thesis by blast
qed

end
