(* ===== verification/TunnelLeak.thy ===== *)
theory TunnelLeak
  imports TunnelLoop
begin

text \<open>
  Where the traffic of a family goes.  For a family with a \<^verbatim>\<open>/0\<close> among the allowed prefixes, or of
  which the interface has no address, both halves of the address space are added into the tunnel
  before the loop starts.  The locale fixes one half of one family and follows its entry in the
  kernel's table through every operation; an add may be refused, which the program only reports.
\<close>

section \<open>One half of the address space\<close>

text \<open>What a log says of a command, and a kernel that does not take the entry of a half for that of
  a host, of another family or of an exempted prefix.\<close>

definition results_of :: "cmd \<Rightarrow> (cmd \<times> cmd_result) list \<Rightarrow> cmd_result list" where
  "results_of c es = map snd (filter (\<lambda>(c', r). c' = c) es)"

lemma results_of_append [simp]: "results_of c (xs @ ys) = results_of c xs @ results_of c ys"
  by (simp add: results_of_def)

lemma results_of_one: "results_of c [(c', r)] = (if c' = c then [r] else [])"
  by (simp add: results_of_def)

definition half_apart :: "(rkey \<Rightarrow> 'k) \<Rightarrow> family \<Rightarrow> string \<Rightarrow> bool" where
  "half_apart key f half \<longleftrightarrow>
     (\<forall>flag kind dst. key (flag, kind, dst) = key (route_flag f, ''-net'', half)
        \<longrightarrow> flag = route_flag f \<and> kind = ''-net'' \<and> dst \<notin> set (exemptions f))"

locale tunnel_half = tunnel_routes run tbl key
  for run :: "'w os" and tbl :: "'w \<Rightarrow> 'k \<Rightarrow> via option" and key :: "rkey \<Rightarrow> 'k" +
  fixes tun :: string and f :: family and half :: string
  assumes apart: "half_apart key f half"
    and a_half: "half \<in> set (catchall_halves f)"
begin

abbreviation half_key :: 'k where
  "half_key \<equiv> key (route_flag f, ''-net'', half)"

abbreviation half_cmd :: cmd where
  "half_cmd \<equiv> route_command (add_net_args tun half f)"

abbreviation via_tun :: "via option" where
  "via_tun \<equiv> Some (''-interface'', tun)"

text \<open>Since \<open>s0\<close>, the entry has stayed or become the way into the tunnel, and has become it if an add
  of the half succeeded; \<open>tried\<close> tells that there was one.\<close>

definition since :: "bool \<Rightarrow> 'w sys \<Rightarrow> 'w sys \<Rightarrow> bool" where
  "since tried s0 s \<longleftrightarrow>
     (\<exists>es. cmd_log s = cmd_log s0 @ es
        \<and> tbl (world s) half_key \<in> {tbl (world s0) half_key, via_tun}
        \<and> (list_ex succeeded (results_of half_cmd es) \<longrightarrow> tbl (world s) half_key = via_tun)
        \<and> (tried \<longrightarrow> results_of half_cmd es \<noteq> []))"

lemma since_refl: "since False b b"
  by (simp add: since_def results_of_def)

lemma since_cmd:
  assumes "since tried s0 s"
    and "tbl (snd (run c (world s))) half_key \<in> {tbl (world s) half_key, via_tun}"
    and "c = half_cmd \<Longrightarrow> succeeded (fst (run c (world s))) \<Longrightarrow> tbl (snd (run c (world s))) half_key = via_tun"
  shows "since (tried \<or> c = half_cmd) s0 (snd (run_state (exec run c) s))"
proof -
  obtain es where "cmd_log s = cmd_log s0 @ es"
      "tbl (world s) half_key \<in> {tbl (world s0) half_key, via_tun}"
      "list_ex succeeded (results_of half_cmd es) \<longrightarrow> tbl (world s) half_key = via_tun"
      "tried \<longrightarrow> results_of half_cmd es \<noteq> []"
    using assms(1) unfolding since_def by blast
  with assms(2,3) show ?thesis
    unfolding since_def
    by (intro exI [of _ "es @ [(c, fst (run c (world s)))]"]) (auto simp: results_of_one)
qed

lemma since_weaken: "since (tried \<or> P) s0 s \<Longrightarrow> since tried s0 s"
  by (auto simp: since_def)

lemma since_exec:
  assumes "\<And>w. tbl (snd (run c w)) half_key \<in> {tbl w half_key, via_tun}"
    and "\<And>w. c = half_cmd \<Longrightarrow> succeeded (fst (run c w)) \<Longrightarrow> tbl (snd (run c w)) half_key = via_tun"
  shows "keeps (since tried s0) (exec run c)"
  using since_cmd [OF _ assms(1,2)] by (blast intro: keepsI since_weaken)

lemma other_key:
  assumes "kind \<noteq> ''-net'' \<or> dst \<in> set (exemptions g)"
  shows "key (route_flag g, kind, dst) \<noteq> half_key"
proof
  assume "key (route_flag g, kind, dst) = half_key"
  with apart have "route_flag g = route_flag f" "kind = ''-net''" "dst \<notin> set (exemptions f)"
    unfolding half_apart_def by blast+
  moreover from this(1) have "g = f" by (cases g; cases f) simp_all
  ultimately show False using assms by simp
qed

lemma get_entry [intro, simp]: "keeps (since tried s0) (get_route_info run ip g)"
proof -
  have "route_command [''-n'', ''get'', route_flag g, ip] \<noteq> half_cmd"
    by (simp add: add_net_args_def route_command_def)
  then have "keeps (since tried s0) (exec run (route_command [''-n'', ''get'', route_flag g, ip]))"
    by (intro since_exec) (simp_all add: kernel.get_reads)
  then show ?thesis unfolding get_route_info_def by (intro keeps_bind keeps_return)
qed

text \<open>Only an add into the tunnel can change the entry.\<close>

lemma add_entry:
  assumes "key (flag, kind, dst) = half_key \<Longrightarrow> (how, via) = (''-interface'', tun)"
  shows "keeps (since tried s0) (route_cmd run [''-n'', ''add'', flag, kind, dst, how, via])"
  unfolding route_cmd_def
proof (intro keeps_bind since_exec keeps_return)
  fix w
  let ?c = "route_command [''-n'', ''add'', flag, kind, dst, how, via]"
  note ok = kernel.add_ok [of flag kind dst how via w] and fail = kernel.add_fail [of flag kind dst how via w]
  show "tbl (snd (run ?c w)) half_key \<in> {tbl w half_key, via_tun}"
    using ok fail assms by (cases "succeeded (fst (run ?c w))") auto
  assume "?c = half_cmd" and "succeeded (fst (run ?c w))"
  with ok show "tbl (snd (run ?c w)) half_key = via_tun"
    by (auto simp: add_net_args_def route_command_def)
qed

lemma add_net_entry: "keeps (since tried s0) (add_net run tun p g)"
  unfolding add_net_def add_net_args_def by (intro keeps_bind add_entry keeps_return) simp_all

lemma add_via_entry:
  "kind \<noteq> ''-net'' \<or> dst \<in> set (exemptions g) \<Longrightarrow> keeps (since tried s0) (add_via run g kind dst i)"
  using other_key [of kind dst g]
  by (auto simp: add_via_def add_via_args_def intro!: add_entry split: option.split)

lemma add_nets_entry: "keeps (since tried s0) (add_nets run tun g ps)"
  by (induction ps) (auto intro!: keeps_bind add_net_entry)

lemma allowed_entry: "keeps (since tried s0) (add_allowed_ips run net_str tun ns)"
  by (induction ns) (auto intro!: keeps_bind add_nets_entry)

lemma pass_entry: "keeps (since tried s0) (install_passthroughs run g)"
proof -
  have "set ps \<subseteq> set (exemptions g) \<Longrightarrow> keeps (since tried s0) (passthrough_loop run g i ps)" for i ps
    by (induction ps) (auto intro!: keeps_bind add_via_entry)
  then show ?thesis
    by (auto simp: install_passthroughs_def intro!: keeps_bind split: option.split)
qed

lemma bypass_entry: "keeps (since tried s0) (install_endpoint_bypass run eps g)"
  by (induction eps) (auto intro!: keeps_bind add_via_entry split: option.split)

lemma bypass_if_entry: "keeps (since tried s0) (bypass_if run b eps g)"
  by (simp add: bypass_if_def bypass_entry)

lemma setup_entry: "keeps (since tried s0) (setup_routes run net_str tun ips eps)"
  by (auto simp: setup_routes_def intro!: keeps_bind bypass_if_entry allowed_entry)

lemma unconfigured_entry: "keeps (since tried s0) (unconfigured run g addrs tun eps)"
  by (auto simp: unconfigured_def setup_unconfigured_family_def
      intro!: keeps_bind bypass_entry pass_entry add_nets_entry)

text \<open>A program tries to add the half.\<close>

definition tries :: "('w sys, 'a) state \<Rightarrow> bool" where
  "tries m \<longleftrightarrow> (\<forall>b s. since False b s \<longrightarrow> since True b (snd (run_state m s)))"

lemma tries_first:
  "tries m \<Longrightarrow> (\<And>a b. keeps (since True b) (g a)) \<Longrightarrow> tries (State_Monad.bind m g)"
  by (fastforce simp: tries_def keeps_def split: prod.split)

lemma tries_then:
  "(\<And>b. keeps (since False b) m) \<Longrightarrow> (\<And>a. tries (g a)) \<Longrightarrow> tries (State_Monad.bind m g)"
  by (fastforce simp: tries_def keeps_def split: prod.split)

lemma add_net_tries: "tries (add_net run tun half f)"
proof -
  have "since True b (snd (run_state (exec run half_cmd) s))" if "since False b s" for b s
  proof -
    note ok = kernel.add_ok [of "route_flag f" "''-net''" half "''-interface''" tun "world s"]
      and fail = kernel.add_fail [of "route_flag f" "''-net''" half "''-interface''" tun "world s"]
    have "since (False \<or> half_cmd = half_cmd) b (snd (run_state (exec run half_cmd) s))"
      using ok fail
      by (intro since_cmd [OF that]; cases "succeeded (fst (run half_cmd (world s)))")
        (auto simp: add_net_args_def)
    then show ?thesis by simp
  qed
  then have "tries (route_cmd run (add_net_args tun half f))"
    by (simp add: tries_def route_cmd_def)
  then show ?thesis
    unfolding add_net_def by (rule tries_first) simp
qed

lemma add_nets_tries: "half \<in> set ps \<Longrightarrow> tries (add_nets run tun f ps)"
proof (induction ps)
  case (Cons p ps)
  show ?case
  proof (cases "p = half")
    case True
    show ?thesis
      unfolding add_nets.simps True
      by (intro tries_first [OF add_net_tries] keeps_bind add_nets_entry keeps_return)
  next
    case False
    with Cons have "tries (add_nets run tun f ps)" by simp
    then show ?thesis
      unfolding add_nets.simps
      by (intro tries_then [OF add_net_entry] tries_first keeps_return)
  qed
qed simp

lemma allowed_tries:
  "has_catchall f ns \<Longrightarrow> tries (add_allowed_ips run net_str tun ns)"
proof (induction ns)
  case (Cons n ns)
  show ?case
  proof (cases "net_family n = f \<and> prefix_len n = 0")
    case True
    with a_half have "half \<in> set (tun_prefixes net_str n)" by (simp add: tun_prefixes_def)
    then have "tries (add_nets run tun (net_family n) (tun_prefixes net_str n))"
      using True add_nets_tries by simp
    then show ?thesis
      unfolding add_allowed_ips.simps
      by (intro tries_first keeps_bind allowed_entry keeps_return)
  next
    case False
    with Cons have "tries (add_allowed_ips run net_str tun ns)" by (auto simp: has_catchall_def)
    then show ?thesis
      unfolding add_allowed_ips.simps
      by (intro tries_then [OF add_nets_entry] tries_first keeps_return)
  qed
qed (simp add: has_catchall_def)

lemma setup_tries: "has_catchall f ips \<Longrightarrow> tries (setup_routes run net_str tun ips eps)"
  unfolding setup_routes_def
  by (intro tries_then [OF bypass_if_entry] tries_first [OF allowed_tries] keeps_return)

lemma unconfigured_tries: "\<not> has_addr f addrs \<Longrightarrow> tries (unconfigured run f addrs tun eps)"
  using a_half by (auto simp: unconfigured_def setup_unconfigured_family_def
      intro!: tries_then [OF bypass_entry] tries_then [OF pass_entry] tries_first [OF add_nets_tries])

lemma apply_dns_entry: "keeps (since tried s0) (apply_dns run target tun' ips)"
proof (cases "if ips = [] then None else dns_set_cmd target tun' ips")
  case None
  then show ?thesis by (auto simp: keeps_def run_apply_dns split: option.splits)
next
  case (Some c)
  then have c: "ips \<noteq> []" "dns_set_cmd target tun' ips = Some c" by (simp_all split: if_splits)
  note p = dns_set_prog [OF c(2)]
  have "c \<noteq> half_cmd" using p by (auto simp: route_command_def)
  then have "keeps (since tried s0) (exec run c)"
    using dns_keeps_routes [OF p] by (intro since_exec) simp_all
  with c show ?thesis by (auto simp: keeps_def run_apply_dns)
qed

lemma take_over_tries:
  assumes "has_catchall f ips \<or> \<not> has_addr f addrs"
  shows "tries (take_over run target net_str tun addrs ips eps dns)"
proof (cases "has_catchall f ips")
  case True
  then show ?thesis
    unfolding take_over_def
    by (intro tries_first [OF setup_tries] keeps_bind unconfigured_entry apply_dns_entry keeps_return)
next
  case False
  with assms have fills: "tries (unconfigured run f addrs tun eps)" by (simp add: unconfigured_tries)
  note keeps = keeps_bind unconfigured_entry apply_dns_entry keeps_return
  show ?thesis
  proof (cases "f = V4")
    case True
    show ?thesis
      unfolding take_over_def True [symmetric]
      by (intro tries_then [OF setup_entry] tries_first [OF fills] keeps)
  next
    case False
    then have "f = V6" by (cases f) simp_all
    show ?thesis
      unfolding take_over_def \<open>f = V6\<close> [symmetric]
      by (intro tries_then [OF setup_entry] tries_then [OF unconfigured_entry] tries_first [OF fills] keeps)
  qed
qed

text \<open>Rechecks touch host routes only.\<close>

lemma recheck_one_entry:
  "tbl (world (snd (run_state (recheck_one run current r) s))) half_key = tbl (world s) half_key"
proof (cases r)
  case (Host ip g gw)
  have "half_key \<noteq> key (route_key r)" using other_key [of "''-host''" ip g] Host by auto
  then show ?thesis by (rule kernel.recheck_one_frame)
qed simp_all

lemma recheck_entry:
  "run_state (recheck_routes run rs) s = (rs', s') \<Longrightarrow> tbl (world s') half_key = tbl (world s) half_key"
proof -
  have loop: "tbl (world (snd (run_state (recheck_loop run current rs) s))) half_key
      = tbl (world s) half_key" for current s
    by (induction rs arbitrary: s) (simp_all add: case_prod_beta recheck_one_entry)
  assume "run_state (recheck_routes run rs) s = (rs', s')"
  then have "s' = snd (run_state (recheck_routes run rs) s)" by simp
  then show ?thesis
    by (simp add: recheck_routes_def case_prod_beta loop kernel.gateway_reads)
qed

end

sublocale tunnel_half \<subseteq> routed: kept_by_recheck run "\<lambda>g s. tbl (world s) half_key = v" for v
  by unfold_locales (simp add: recheck_entry)

context tunnel_half
begin

lemma half_routed:
  assumes "start_tunnel api env core api4 api6 net_str run target orc peers port addrs mtu dns n s
      = Inr (ctx, Going st0)"
    and "tun_create env (tun_configuration addrs mtu) = Inr tun"
    and "has_catchall f (concat (map pc_allowed_ips peers)) \<or> \<not> has_addr f addrs"
    and "run_loop api run ctx es st0 = Some p"
  shows "since True (before_guard env run target net_str addrs mtu s) (osys st0)
    \<and> tbl (world (osys (progress_state p))) half_key = tbl (world (osys st0)) half_key"
  using assms(1)
proof (cases rule: start_tunnel_cases)
  case (started ctx' q tun' s2)
  then have "tun' = tun" "q = Going st0" "ctx' = ctx" using assms(2) by simp_all
  then have "since True (before_guard env run target net_str addrs mtu s) (osys st0)"
    using take_over_tries [OF assms(3), of target net_str "List.map_filter pc_endpoint peers" dns]
      since_refl [of "before_guard env run target net_str addrs mtu s"] started(3,4)
    by (force simp: tries_def)
  with routed.loop_kept [OF assms(4) refl] show ?thesis by simp
qed simp

end

interpretation host_half: tunnel_half host_run "\<lambda>w. rw_table (hw_routes w)" "\<lambda>k. k" tun V6 "''8000::/1''"
  for tun
  by unfold_locales (simp_all add: half_apart_def V6_BLACKHOLE_EXEMPTIONS_def)

section \<open>Property\<close>

text \<open>C4: The halves lead into the tunnel.  Over a kernel that may refuse adds and deletes and does not
  take a half for a host, another family or an exempted prefix: for every family with a \<^verbatim>\<open>/0\<close> among
  the allowed prefixes, or of which the interface has no address, an add of each half into the
  tunnel is issued before the first event; when one succeeded, the half leads into the tunnel,
  then and after any events, whatever rechecks, failing commands and lost gateways they bring.
  When every add was refused, which the program only reports, the entry of the half is the one
  that was there before (or leads into the tunnel by another spelling of the same prefix), then
  and after any events.\<close>

theorem halves_lead_into_tunnel:
  assumes "tunnel_routes run tbl key"
    and "\<And>half. half \<in> set (catchall_halves f) \<Longrightarrow> half_apart key f half"
    and "start_tunnel api env core api4 api6 net_str run target orc peers port addrs mtu dns n s
      = Inr (ctx, Going st0)"
    and "tun_create env (tun_configuration addrs mtu) = Inr tun"
    and "has_catchall f (concat (map pc_allowed_ips peers)) \<or> \<not> has_addr f addrs"
    and "run_loop api run ctx es st0 = Some p"
  shows "\<forall>half\<in>set (catchall_halves f). \<exists>ls.
    let before = before_guard env run target net_str addrs mtu s;
        add = route_command (add_net_args tun half f);
        k = key (route_flag f, ''-net'', half)
    in cmd_log (osys st0) = cmd_log before @ ls
       \<and> results_of add ls \<noteq> []
       \<and> tbl (world (osys (progress_state p))) k = tbl (world (osys st0)) k
       \<and> (if list_ex succeeded (results_of add ls)
          then tbl (world (osys st0)) k = Some (''-interface'', tun)
          else tbl (world (osys st0)) k \<in> {tbl (world before) k, Some (''-interface'', tun)})"
proof
  fix half
  assume half: "half \<in> set (catchall_halves f)"
  then have h: "tunnel_half run tbl key f half"
    by (intro tunnel_half.intro tunnel_half_axioms.intro assms(1,2))
  from tunnel_half.half_routed [OF h assms(3-6)]
  show "\<exists>ls. let before = before_guard env run target net_str addrs mtu s;
        add = route_command (add_net_args tun half f);
        k = key (route_flag f, ''-net'', half)
    in cmd_log (osys st0) = cmd_log before @ ls
       \<and> results_of add ls \<noteq> []
       \<and> tbl (world (osys (progress_state p))) k = tbl (world (osys st0)) k
       \<and> (if list_ex succeeded (results_of add ls)
          then tbl (world (osys st0)) k = Some (''-interface'', tun)
          else tbl (world (osys st0)) k \<in> {tbl (world before) k, Some (''-interface'', tun)})"
    unfolding tunnel_half.since_def [OF h] Let_def by auto
qed

lemma half_added_demo:
  "case start_demo of
     Inr (ctx, Going st0) \<Rightarrow>
       list_ex succeeded (results_of (route_command (add_net_args ''utun5'' ''8000::/1'' V6)) (cmd_log (osys st0)))
   | _ \<Rightarrow> False"
  by code_simp

theorem halves_lead_into_tunnel_witness:
  "\<exists>ctx st0 p. start_demo = Inr (ctx, Going st0)
     \<and> run_loop api_demo host_run ctx [UdpRecv (Inr (addr_demo, [])), SigInt] st0 = Some p
     \<and> rw_table (hw_routes (world (osys (progress_state p)))) (''-inet6'', ''-net'', ''8000::/1'')
         = Some (''-interface'', ''utun5'')"
proof -
  obtain ctx st0 where start: "start_demo = Inr (ctx, Going st0)" using start_demo by blast
  obtain p where run: "run_loop api_demo host_run ctx [UdpRecv (Inr (addr_demo, [])), SigInt] st0 = Some p"
    by (simp add: on_udp_def handle_extern_def api_demo_def sess_demo_def)
  have b: "cmd_log (before_guard env_demo host_run Linux net_bit_text [NetV4 0x0A000001 24] 1420 host_demo) = []"
    by (simp add: before_guard_def env_demo_def is_net_v6_def host_demo_def)
  have added: "list_ex succeeded (results_of (route_command (add_net_args ''utun5'' ''8000::/1'' V6)) (cmd_log (osys st0)))"
    using half_added_demo by (simp only: start sum.case prod.case progress.case)
  have prem: "half_apart (\<lambda>k. k) V6 half" "tun_create env_demo (tun_configuration [NetV4 0x0A000001 24] 1420) = Inr ''utun5''"
      "has_catchall V6 (concat (map pc_allowed_ips peers_demo)) \<or> \<not> has_addr V6 [NetV4 0x0A000001 24]"
      "''8000::/1'' \<in> set (catchall_halves V6)" for half
    by (simp_all add: half_apart_def V6_BLACKHOLE_EXEMPTIONS_def env_demo_def has_addr_def)
  from bspec [OF halves_lead_into_tunnel [OF host_macos.tunnel_routes_axioms prem(1) start prem(2,3) run] prem(4)]
  have "rw_table (hw_routes (world (osys (progress_state p)))) (''-inet6'', ''-net'', ''8000::/1'')
      = Some (''-interface'', ''utun5'')"
    using added by (auto simp: b Let_def)
  with start run show ?thesis by blast
qed

end
