(* ===== verification/TunnelTick.thy ===== *)
theory TunnelTick
  imports TunnelLoop
begin

text \<open>
  What the branches of the event loop send and recheck: a tick sends the maintenance of the
  sessions, then the keepalives that are due, and rechecks the routes for the first bypass only;
  a data packet postpones the keepalive of its peer, a failed send rechecks.  A tick ends when the
  sessions run dry; then the loop answers every event, and a signal takes the tunnel down.
\<close>

section \<open>Ticks\<close>

text \<open>The frames sent for a list of peers, by the sessions' answers.\<close>

fun keepalive_frames ::
  "('s, 'id, 'm, 'n) tunnel_api \<Rightarrow> 'id list \<Rightarrow> 's \<Rightarrow> (u8 list \<times> socket_addr) list" where
  "keepalive_frames api [] s = []"
| "keepalive_frames api (i # is) s =
     (case send_message (sess api) s i [] of
        (r, s', _) \<Rightarrow>
          (case r of
             Data ep metadata \<Rightarrow> [(frame_in_place (sess api) metadata (keepalive_buf (pf api)), ep)]
           | Maintenance data to \<Rightarrow> [(data, to)]
           | SendErr \<Rightarrow> []) @ keepalive_frames api is s')"

lemma udp_send_log:
  "sent (snd (udp_send api data addr st)) = sent st @ [(data, addr)]"
  "sessions (snd (udp_send api data addr st)) = sessions st"
  by (simp_all add: udp_send_def split: prod.split)

lemma send_messages_log:
  "sent (send_messages api msgs st) = sent st @ msgs \<and> sessions (send_messages api msgs st) = sessions st"
  by (induction api msgs st rule: send_messages.induct) (simp_all add: udp_send_log)

lemma send_keepalive_log:
  "sent (send_keepalive api i st) @ keepalive_frames api is (sessions (send_keepalive api i st))
     = sent st @ keepalive_frames api (i # is) (sessions st)"
  by (simp add: send_keepalive_def udp_send_log Let_def split: prod.split send_message.split)

lemma keepalive_loop_log:
  "sent (snd (keepalive_loop api now ps st))
     = sent st @ keepalive_frames api (map pr_id (filter (due now) ps)) (sessions st)"
proof (induction api now ps st rule: keepalive_loop.induct)
  case (2 api now p ps st)
  then show ?case
    using send_keepalive_log [of api "pr_id p" st "map pr_id (filter (due now) ps)"]
    by (cases "due now p") (simp_all add: case_prod_beta del: keepalive_frames.simps)
qed simp

lemma tick_recheck_first:
  "tick_recheck (position is_host rs) rs
    = Some (case find is_host rs of None \<Rightarrow> False | Some r \<Rightarrow> gateway_less_host r)"
  by (induction rs) (auto simp: tick_recheck_def split: option.splits)

lemma gateway_less_host_cases:
  "gateway_less_host r \<longleftrightarrow> (\<exists>ip f. r = Host ip f None)"
  by (cases r rule: gateway_less_host.cases) simp_all

section \<open>Progress\<close>

text \<open>The timers of the sessions run dry: each message handed out brings a measure down.\<close>

definition runs_dry ::
  "(tai64n \<Rightarrow> 's \<Rightarrow> (u8 list \<times> socket_addr) option \<times> 's) \<Rightarrow> ('s \<Rightarrow> nat) \<Rightarrow> bool" where
  "runs_dry trn left \<longleftrightarrow> (\<forall>now s msg s'. trn now s = (Some msg, s') \<longrightarrow> left s' < left s)"

lemma turn_all_returns:
  assumes "runs_dry trn left"
  shows "\<exists>msgs s'. turn_all trn clock s = Some (msgs, s') \<and> length msgs \<le> left s"
proof (induction "left s" arbitrary: s clock rule: less_induct)
  case less
  obtain m s1 where t: "trn (clock 0) s = (m, s1)" by fastforce
  show ?case
  proof (cases m)
    case None
    with t show ?thesis by (simp add: turn_all.simps)
  next
    case (Some msg)
    with t assms have lt: "left s1 < left s" unfolding runs_dry_def by blast
    from less [OF lt] obtain msgs s' where "turn_all trn (\<lambda>i. clock (Suc i)) s1 = Some (msgs, s')"
        "length msgs \<le> left s1" by blast
    with t Some lt show ?thesis
      by (intro exI [of _ "msg # msgs"]) (simp add: turn_all.simps [of trn clock s])
  qed
qed

text \<open>The sessions after some turns, and what each turn hands out.\<close>

primrec turned ::
  "(tai64n \<Rightarrow> 's \<Rightarrow> (u8 list \<times> socket_addr) option \<times> 's) \<Rightarrow> (nat \<Rightarrow> tai64n) \<Rightarrow> 's \<Rightarrow> nat \<Rightarrow> 's" where
  "turned trn clock s 0 = s"
| "turned trn clock s (Suc i) = snd (trn (clock i) (turned trn clock s i))"

definition turn_msg ::
  "(tai64n \<Rightarrow> 's \<Rightarrow> (u8 list \<times> socket_addr) option \<times> 's) \<Rightarrow> (nat \<Rightarrow> tai64n) \<Rightarrow> 's \<Rightarrow> nat
     \<Rightarrow> (u8 list \<times> socket_addr) option" where
  "turn_msg trn clock s i = fst (trn (clock i) (turned trn clock s i))"

lemma turned_shift:
  "turned trn clock s (Suc i) = turned trn (\<lambda>i. clock (Suc i)) (snd (trn (clock 0) s)) i"
  by (induction i) simp_all

lemma turn_msg_shift:
  "turn_msg trn clock s (Suc i) = turn_msg trn (\<lambda>i. clock (Suc i)) (snd (trn (clock 0) s)) i"
  by (simp only: turn_msg_def turned_shift)

lemma upt_shift: "map f [0..<Suc n] = f 0 # map (\<lambda>i. f (Suc i)) [0..<n]"
  by (simp only: upt_conv_Cons [OF zero_less_Suc] list.map map_Suc_upt [symmetric] map_map comp_def)

lemma turn_all_ends:
  "turn_msg trn clock s n = None
   \<Longrightarrow> \<exists>msgs. map (turn_msg trn clock s) [0..<Suc (length msgs)] = map Some msgs @ [None]
        \<and> turn_all trn clock s = Some (msgs, turned trn clock s (Suc (length msgs)))"
proof (induction n arbitrary: clock s rule: less_induct)
  case (less n)
  obtain m s1 where t: "trn (clock 0) s = (m, s1)" by fastforce
  show ?case
  proof (cases m)
    case None
    with t show ?thesis
      by (intro exI [of _ "[]"]) (simp add: turn_all.simps [of trn clock] turn_msg_def)
  next
    case (Some msg)
    with t less.prems obtain n' where n: "n = Suc n'" by (cases n) (auto simp: turn_msg_def)
    let ?clock = "\<lambda>i. clock (Suc i)"
    from less.prems have "turn_msg trn ?clock s1 n' = None"
      unfolding n turn_msg_shift by (simp add: t)
    from less.IH [OF _ this] obtain msgs where
        "map (turn_msg trn ?clock s1) [0..<Suc (length msgs)] = map Some msgs @ [None]"
        "turn_all trn ?clock s1 = Some (msgs, turned trn ?clock s1 (Suc (length msgs)))"
      by (auto simp: n)
    moreover have "turn_msg trn clock s 0 = Some msg"
      by (simp add: turn_msg_def t Some)
    ultimately show ?thesis
      by (intro exI [of _ "msg # msgs"])
        (simp add: upt_shift [of _ "Suc (length msgs)"] turn_msg_shift t Some
          turn_all.simps [of trn clock s] turned_shift [of trn clock s "Suc (length msgs)"]
          del: upt_Suc turned.simps)
  qed
qed

lemma turn_all_ended:
  assumes "turn_all trn clock s = Some r"
  shows "\<exists>n. turn_msg trn clock s n = None"
proof (rule turn_all.raw_induct [where P = "\<lambda>trn clock s r. \<exists>n. turn_msg trn clock s n = None", OF _ assms])
  fix all and trn :: "tai64n \<Rightarrow> 'a \<Rightarrow> (u8 list \<times> socket_addr) option \<times> 'a" and clock s r
  assume IH: "\<And>trn clock s r. all trn clock s = Some r \<Longrightarrow> \<exists>n. turn_msg trn clock s n = None"
    and run: "(case trn (clock 0) s of (None, s') \<Rightarrow> Some ([], s')
      | (Some msg, s') \<Rightarrow> Option.bind (all trn (\<lambda>i. clock (Suc i)) s') (\<lambda>(msgs, s''). Some (msg # msgs, s'')))
      = Some r"
  obtain m s1 where t: "trn (clock 0) s = (m, s1)" by fastforce
  show "\<exists>n. turn_msg trn clock s n = None"
  proof (cases m)
    case None
    with t show ?thesis by (intro exI [of _ 0]) (simp add: turn_msg_def)
  next
    case (Some msg)
    with run t obtain r' where "all trn (\<lambda>i. clock (Suc i)) s1 = Some r'"
      by (auto simp: bind_eq_Some_conv)
    from IH [OF this] obtain n where "turn_msg trn (\<lambda>i. clock (Suc i)) s1 n = None" by blast
    then show ?thesis by (intro exI [of _ "Suc n"]) (simp add: turn_msg_shift t)
  qed
qed

text \<open>The turns of a tick: they end, with exactly the messages handed out before the first turn
  without one, exactly if there is such a turn.\<close>

lemma turn_all_cases:
  obtains (spins) "turn_all trn clock s = None" "\<And>i. turn_msg trn clock s i \<noteq> None"
    | (ends) msgs where
        "turn_all trn clock s = Some (msgs, turned trn clock s (Suc (length msgs)))"
        "map (turn_msg trn clock s) [0..<Suc (length msgs)] = map Some msgs @ [None]"
proof (cases "\<exists>n. turn_msg trn clock s n = None")
  case True
  with turn_all_ends ends show ?thesis by metis
next
  case False
  with turn_all_ended [of trn clock s] have "turn_all trn clock s = None"
    by (cases "turn_all trn clock s") blast+
  with False show ?thesis by (intro spins) auto
qed

lemma tick_ends:
  assumes "turn_all (turn api) clock (sessions st) = Some (msgs, s')"
  shows "\<exists>p. on_tick api run ctx clock now st = Some p"
  using assms by (simp add: on_tick_def Let_def case_prod_beta split: option.split)

lemma tick_returns:
  assumes "runs_dry (turn api) left"
  shows "\<exists>p. on_tick api run ctx clock now st = Some p"
proof -
  obtain msgs s' where "turn_all (turn api) clock (sessions st) = Some (msgs, s')"
    using turn_all_returns [OF assms] by blast
  then show ?thesis by (rule tick_ends)
qed

lemma event_returns:
  assumes "runs_dry (turn api) left"
  shows "\<exists>q. on_event api run ctx e st = Some q"
  using tick_returns [OF assms]
  by (cases "(api, run, ctx, e, st)" rule: on_event.cases) auto

lemma loop_returns:
  assumes "runs_dry (turn api) left"
  shows "\<exists>p. run_loop api run ctx es st = Some p"
proof (induction es arbitrary: st)
  case (Cons e es)
  obtain q where "on_event api run ctx e st = Some q"
    using event_returns [OF assms] by blast
  with Cons show ?case by (cases q) auto
qed simp

lemma loop_append:
  "run_loop api run ctx (es @ fs) st = Option.bind (run_loop api run ctx es st) (\<lambda>p.
     case p of Going st' \<Rightarrow> run_loop api run ctx fs st' | Stopped x st' \<Rightarrow> Some (Stopped x st'))"
  by (induction es arbitrary: st) (auto split: progress.split bind_split)

lemma signal_stops:
  assumes "runs_dry (turn api) left" and "sig \<in> {SigInt, SigTerm}"
  shows "\<exists>x st'. run_loop api run ctx (pre @ sig # post) st = Some (Stopped x st')
    \<and> (run_loop api run ctx pre st = Some (Stopped x st')
       \<or> run_loop api run ctx pre st = Some (Going st') \<and> x = ExitOk)"
proof -
  obtain p where "run_loop api run ctx pre st = Some p" using loop_returns [OF assms(1)] by blast
  with assms(2) show ?thesis by (cases p) (auto simp: loop_append)
qed

section \<open>What the guard takes down\<close>

text \<open>The commands that undo a guard: the resolver first, then the routes in their order.\<close>

definition guard_cmds :: "target_os \<Rightarrow> cleanup_guard \<Rightarrow> cmd list" where
  "guard_cmds target g =
     (case applied_dns g of
        None \<Rightarrow> []
      | Some d \<Rightarrow> (case dns_clear_cmd target (ad_tun_name d) of None \<Rightarrow> [] | Some c \<Rightarrow> [c]))
     @ map (\<lambda>r. route_command (delete_args r)) (added_routes g)"

lemma cleanup_cmds:
  "map fst (cmd_log (snd (run_state (cleanup_routes run rs) s)))
     = map fst (cmd_log s) @ map (\<lambda>r. route_command (delete_args r)) rs"
  by (induction rs arbitrary: s) (simp_all add: case_prod_beta)

lemma drop_guard_cmds:
  "map fst (cmd_log (snd (run_state (drop_guard run target g) s)))
     = map fst (cmd_log s) @ guard_cmds target g"
  by (auto simp: drop_guard_def guard_cmds_def case_prod_beta cleanup_cmds run_cleanup_dns
      split: option.split)

lemma tick_exact:
  assumes "turn_all (turn api) clock (sessions st) = Some (msgs, s')"
    and "on_tick api run ctx clock now st = Some (Going st')"
  shows "sent st' = sent st @ msgs @ keepalive_frames api (map pr_id (filter (due now) (peer_rt st))) s'
    \<and> peer_rt st' = map (\<lambda>p. if due now p then p\<lparr>pr_last_sent := now\<rparr> else p) (peer_rt st)"
proof -
  obtain b where b: "tick_recheck (host_route_idx ctx) (added_routes (guard st)) = Some b"
    using assms by (auto simp: on_tick_def Let_def split: option.splits)
  let ?st2 = "if b then recheck_guard run (st\<lparr>sessions := s'\<rparr>) else st\<lparr>sessions := s'\<rparr>"
  let ?st3 = "send_messages api msgs ?st2"
  let ?k = "keepalive_loop api now (peer_rt ?st3) ?st3"
  have st': "st' = snd ?k\<lparr>peer_rt := fst ?k\<rparr>"
    using assms b by (simp add: on_tick_def Let_def case_prod_beta)
  have two: "sent ?st2 = sent st" "sessions ?st2 = s'" "peer_rt ?st2 = peer_rt st" by simp_all
  have "sent st' = sent st @ msgs @ keepalive_frames api (map pr_id (filter (due now) (peer_rt st))) s'"
    using keepalive_loop_log [of api now "peer_rt ?st3" ?st3] send_messages_log [of api msgs ?st2] two
    by (simp add: st')
  moreover have peers: "peer_rt st' = map (\<lambda>p. if due now p then p\<lparr>pr_last_sent := now\<rparr> else p) (peer_rt st)"
    using keepalive_loop_peers [of api now "peer_rt ?st3" ?st3] two by (simp add: st')
  ultimately show ?thesis by blast
qed

section \<open>A running tunnel\<close>

text \<open>Two peers, one with a keepalive of 25 seconds; the first bypass has a gateway, the second none.\<close>

definition ctx_demo :: "nat loop_ctx" where
  "ctx_demo = \<lparr>lookup = (\<lambda>_. 1), endpoint_to_idx = (\<lambda>a. if a = addr_demo then Some 0 else None),
     host_route_idx = Some 0\<rparr>"

definition st_demo :: "(nat, nat, nat, host_world) tunnel" where
  "st_demo = \<lparr>sessions = 0,
     peer_rt = [\<lparr>pr_id = 1, pr_endpoint = Some addr_demo, pr_keepalive = Some 25000000000, pr_last_sent = 5000000000\<rparr>,
                \<lparr>pr_id = 2, pr_endpoint = None, pr_keepalive = None, pr_last_sent = 0\<rparr>],
     guard = \<lparr>added_routes = [Host ''203.0.113.2'' V4 (Some ''10.9.9.9''), Host ''203.0.113.3'' V4 None],
              applied_dns = None\<rparr>,
     osys = host_demo, network = 0, sent = []\<rparr>"

lemma tick_demo: "\<exists>p. on_tick api_demo host_run ctx_demo clock now st_demo = Some (Going p)"
  by (simp add: on_tick_def api_demo_def st_demo_def ctx_demo_def turn_all.simps tick_recheck_def
      Let_def case_prod_beta)

lemma turn_demo: "turn_all (turn api_demo) clock s = Some ([], s)"
  by (simp add: api_demo_def turn_all.simps)

definition tun_demo :: "u8 list" where
  "tun_demo = replicate 16 0 @ packet_demo 0x0A000001 0xC0A80001 @ replicate 60 0"

lemma intern_demo:
  "\<exists>data s'. handle_intern (sess api_demo) (pf api_demo) (lookup ctx_demo) (sessions st_demo) tun_demo
     (TUN_BUF_START (pf api_demo) + 24) = (Ok (Outbound data addr_demo), s')"
proof -
  have "case handle_intern (sess_demo addr_demo) pf_demo (\<lambda>_. 1) 0 tun_demo 36 of
          (Ok (Outbound data dst), s') \<Rightarrow> dst = addr_demo | _ \<Rightarrow> False"
    by code_simp
  then show ?thesis
    by (auto simp: api_demo_def ctx_demo_def st_demo_def pf_demo_def
        split: prod.splits outcome.splits write_result.splits)
qed

section \<open>Properties\<close>

text \<open>C7: A tick sends exactly what is due.  It sends the maintenance messages of the sessions in
  their order and then, in the order of the configuration, one keepalive frame (or the handshake
  the sessions answer with) per peer whose interval has passed since the last packet to it;
  exactly these peers are marked as sent to now, so no peer with a positive interval is due any
  more.\<close>

theorem tick_sends_what_is_due:
  assumes "turn_all (turn api) clock (sessions st) = Some (msgs, s')"
    and "on_tick api run ctx clock now st = Some (Going st')"
  shows "sent st' = sent st @ msgs @ keepalive_frames api (map pr_id (filter (due now) (peer_rt st))) s'
    \<and> peer_rt st' = map (\<lambda>p. if due now p then p\<lparr>pr_last_sent := now\<rparr> else p) (peer_rt st)
    \<and> (\<forall>p\<in>set (peer_rt st'). \<forall>k. pr_keepalive p = Some k \<and> 0 < k \<longrightarrow> now - pr_last_sent p < k)"
  using tick_exact [OF assms] by (auto simp: due_def not_le)

theorem tick_sends_what_is_due_witness:
  "\<exists>p. on_tick api_demo host_run ctx_demo id 30000000000 st_demo = Some (Going p)
     \<and> sent p = [(replicate 32 0, addr_demo)]"
proof -
  obtain p where p: "on_tick api_demo host_run ctx_demo id 30000000000 st_demo = Some (Going p)"
    using tick_demo by blast
  have "sent p = [(keepalive_buf (pf api_demo), addr_demo)]"
    using tick_sends_what_is_due [OF turn_demo p]
    by (simp add: st_demo_def due_def api_demo_def sess_demo_def)
  with p show ?thesis by (simp add: keepalive_buf_def api_demo_def pf_demo_def TAG_FOOTER_SIZE_def)
qed

text \<open>The tick looks at one bypass only.  It rechecks the routes, once, exactly if the first
  endpoint bypass in the list was installed without a gateway; any other bypass without a
  gateway waits for a failed send.\<close>

theorem tick_rechecks_for_first_bypass_only:
  assumes "host_route_idx ctx = position is_host (added_routes (guard st))"
    and "on_tick api run ctx clock now st = Some p"
  shows "(guard (progress_state p), osys (progress_state p)) =
    (if \<exists>ip f. find is_host (added_routes (guard st)) = Some (Host ip f None)
     then (case run_state (recheck_routes run (added_routes (guard st))) (osys st) of
            (rs, s') \<Rightarrow> ((guard st)\<lparr>added_routes := rs\<rparr>, s'))
     else (guard st, osys st))"
proof -
  let ?b = "\<exists>ip f. find is_host (added_routes (guard st)) = Some (Host ip f None)"
  have b: "tick_recheck (host_route_idx ctx) (added_routes (guard st)) = Some ?b"
    unfolding assms(1) tick_recheck_first
    by (auto simp: gateway_less_host_cases split: option.split)
  obtain msgs s' where turned: "turn_all (turn api) clock (sessions st) = Some (msgs, s')"
    using assms(2) by (auto simp: on_tick_def bind_eq_Some_conv)
  let ?st2 = "if ?b then recheck_guard run (st\<lparr>sessions := s'\<rparr>) else st\<lparr>sessions := s'\<rparr>"
  let ?st3 = "send_messages api msgs ?st2"
  obtain ps st4 where k: "keepalive_loop api now (peer_rt ?st3) ?st3 = (ps, st4)" by fastforce
  have "p = Going (st4\<lparr>peer_rt := ps\<rparr>)"
    using assms(2) turned b k by (simp add: on_tick_def Let_def)
  moreover have "on_guard st4 = on_guard ?st2" using keepalive_loop_frame [OF k] by simp
  ultimately have "on_guard (progress_state p) = on_guard ?st2" by simp
  then show ?thesis by (simp add: on_guard_def recheck_guard_def split: prod.split)
qed

theorem tick_rechecks_for_first_bypass_only_witness:
  "\<exists>p. on_tick api_demo host_run ctx_demo id 30000000000 st_demo = Some p \<and> osys (progress_state p) = host_demo"
proof -
  obtain p where p: "on_tick api_demo host_run ctx_demo id 30000000000 st_demo = Some p" using tick_demo by blast
  from tick_rechecks_for_first_bypass_only [OF _ p] have "osys (progress_state p) = host_demo"
    by (simp add: ctx_demo_def st_demo_def)
  with p show ?thesis by blast
qed

text \<open>A tick ends exactly when the sessions run dry.  It asks the sessions turn by turn, each time
  with a fresh reading of the wall clock and the sessions as the last turn left them.  If no turn
  comes without a message it never ends; otherwise it stops at the first such turn and has sent
  exactly the messages handed out before, in their order, ahead of the keepalives, which are
  framed by the sessions as that turn left them; if a wrong bypass index ends the loop instead,
  nothing was sent.\<close>

theorem tick_drains_sessions:
  "case on_tick api run ctx clock now st of
     None \<Rightarrow> (\<forall>i. turn_msg (turn api) clock (sessions st) i \<noteq> None)
   | Some p \<Rightarrow> (\<exists>msgs. let s' = turned (turn api) clock (sessions st) (Suc (length msgs)) in
       map (turn_msg (turn api) clock (sessions st)) [0..<Suc (length msgs)] = map Some msgs @ [None]
       \<and> (case p of
            Going st' \<Rightarrow> sent st' = sent st @ msgs
              @ keepalive_frames api (map pr_id (filter (due now) (peer_rt st))) s'
          | Stopped x st' \<Rightarrow> (sent st', sessions st') = (sent st, s')))"
proof (cases rule: turn_all_cases [of "turn api" clock "sessions st"])
  case spins
  then show ?thesis by (simp add: on_tick_def)
next
  case (ends msgs)
  let ?s = "turned (turn api) clock (sessions st) (Suc (length msgs))"
  obtain p where p: "on_tick api run ctx clock now st = Some p"
    using tick_ends [OF ends(1)] by blast
  show ?thesis
  proof (cases p)
    case (Going st')
    with tick_exact [OF ends(1)] p ends(2) show ?thesis by (auto simp: Let_def simp del: upt_Suc)
  next
    case (Stopped x st')
    with p ends(1) have "st' = st\<lparr>sessions := ?s\<rparr>"
      by (auto simp: on_tick_def Let_def case_prod_beta split: option.splits)
    with p Stopped ends(2) show ?thesis by (auto simp: Let_def simp del: upt_Suc)
  qed
qed


text \<open>C13: A data packet postpones the keepalive of its peer.  When a packet from the TUN device was
  sent, exactly the last peer configured with its destination counts as sent to now, and routes
  and operating system are untouched; when the send failed, no peer does, and the routes are
  rechecked once.\<close>

theorem data_packet_postpones_keepalive:
  assumes "endpoint_to_idx ctx = endpoint_index (peer_rt st)"
    and "handle_intern (sess api) (pf api) (lookup ctx) (sessions st) buf (TUN_BUF_START (pf api) + n)
           = (Ok (Outbound data dst), s')"
    and "udp_send_to api data dst (network st) = (ok, n')"
  shows "\<exists>st'. on_tun api run ctx now buf n st = Going st' \<and> sent st' = sent st @ [(data, dst)]
    \<and> length (peer_rt st') = length (peer_rt st)
    \<and> (if ok
       then (guard st', osys st') = (guard st, osys st)
         \<and> (\<forall>i < length (peer_rt st).
              pr_last_sent (peer_rt st' ! i) =
                (if endpoint_index (peer_rt st) dst = Some i then now else pr_last_sent (peer_rt st ! i)))
       else peer_rt st' = peer_rt st
         \<and> (guard st', osys st') =
             (case run_state (recheck_routes run (added_routes (guard st))) (osys st) of
                (rs, s1) \<Rightarrow> ((guard st)\<lparr>added_routes := rs\<rparr>, s1)))"
proof -
  from tun_step [OF assms] obtain st' where st': "on_tun api run ctx now buf n st = Going st'"
      "on_guard st' = (if ok then on_guard st else on_guard (recheck_guard run st))"
      "sent st' = sent st @ [(data, dst)]"
      "peer_rt st' = (case (if ok then endpoint_index (peer_rt st) dst else None) of
         None \<Rightarrow> peer_rt st
       | Some i \<Rightarrow> (peer_rt st)[i := (peer_rt st ! i)\<lparr>pr_last_sent := now\<rparr>])"
    by blast
  then show ?thesis
    by (cases ok) (auto simp: on_guard_def recheck_guard_def nth_list_update split: option.split prod.split)
qed

theorem data_packet_postpones_keepalive_witness:
  "\<exists>st'. on_tun api_demo host_run ctx_demo 30000000000 tun_demo 24 st_demo = Going st'
     \<and> map pr_last_sent (peer_rt st') = [30000000000, 0]"
proof -
  obtain data s' where h: "handle_intern (sess api_demo) (pf api_demo) (lookup ctx_demo) (sessions st_demo)
      tun_demo (TUN_BUF_START (pf api_demo) + 24) = (Ok (Outbound data addr_demo), s')"
    using intern_demo by blast
  have i: "endpoint_index (peer_rt st_demo) = endpoint_to_idx ctx_demo"
    by (simp add: endpoint_index_def st_demo_def ctx_demo_def fun_eq_iff enumerate_eq_zip)
  have u: "udp_send_to api_demo data addr_demo (network st_demo) = (True, 1)"
    by (simp add: api_demo_def addr_demo_def st_demo_def)
  from data_packet_postpones_keepalive [OF i [symmetric] h u, of host_run 30000000000]
  obtain st' where st': "on_tun api_demo host_run ctx_demo 30000000000 tun_demo 24 st_demo = Going st'"
      "length (peer_rt st') = length (peer_rt st_demo)"
      "\<forall>i < length (peer_rt st_demo). pr_last_sent (peer_rt st' ! i) =
         (if endpoint_index (peer_rt st_demo) addr_demo = Some i then 30000000000
          else pr_last_sent (peer_rt st_demo ! i))"
    by auto
  have "endpoint_to_idx ctx_demo addr_demo = Some 0" "length (peer_rt st_demo) = 2"
      "pr_last_sent (peer_rt st_demo ! 1) = 0"
    by (simp_all add: ctx_demo_def st_demo_def)
  then have "length (peer_rt st') = 2" "pr_last_sent (peer_rt st' ! 0) = 30000000000"
      "pr_last_sent (peer_rt st' ! 1) = 0"
    using st'(2) st'(3) [rule_format, of 0] st'(3) [rule_format, of 1] unfolding i by simp_all
  then have "map pr_last_sent (peer_rt st') = [30000000000, 0]"
    by (simp only: map_two)
  then show ?thesis using st'(1) by (intro exI [of _ st'] conjI)
qed

text \<open>C6: A signal takes the tunnel down.  If the timers of the sessions run dry, a sequence of events
  with an interrupt or a termination in it brings \<^verbatim>\<open>run_tunnel\<close> to its end, whatever the
  configuration and the events.  When starting fails before the guard exists, the operating system
  is as it was and the exit is an error.  Otherwise the guard is dropped exactly once, as it was
  when the loop was left: the commands that undo it, the resolver and then every recorded route
  in order, are the last commands issued.  The exit is that of the event before the signal that
  left the loop, if one did, and success if the signal found the loop still running.\<close>

theorem signal_ends_tunnel:
  assumes "runs_dry (turn api) left" and "sig \<in> {SigInt, SigTerm}"
  shows "case start_tunnel api env core api4 api6 net_str run target orc peers port addrs mtu dns n s of
      Inl (x, s') \<Rightarrow> x \<noteq> ExitOk \<and> s' = s
        \<and> run_tunnel api env core api4 api6 net_str run target orc peers port addrs mtu dns n
            (pre @ sig # post) s = Some (Some x, s)
    | Inr (ctx, p) \<Rightarrow> (\<exists>x st s'.
        run_tunnel api env core api4 api6 net_str run target orc peers port addrs mtu dns n
            (pre @ sig # post) s = Some (Some x, s')
        \<and> (case p of
             Stopped y st1 \<Rightarrow> (y, st1) = (x, st) \<and> x \<noteq> ExitOk
           | Going st0 \<Rightarrow> run_loop api run ctx pre st0 = Some (Stopped x st)
               \<or> run_loop api run ctx pre st0 = Some (Going st) \<and> x = ExitOk)
        \<and> s' = snd (run_state (drop_guard run target (guard st)) (osys st))
        \<and> map fst (cmd_log s') = map fst (cmd_log (osys st)) @ guard_cmds target (guard st))"
proof (cases "start_tunnel api env core api4 api6 net_str run target orc peers port addrs mtu dns n s")
  case (Inl e)
  obtain x s' where e: "e = (x, s')" by fastforce
  have "x \<noteq> ExitOk \<and> s' = s"
    using Inl e unfolding start_tunnel_def
    by (auto simp: Let_def split: outcome.splits prod.splits sum.splits)
  with Inl e show ?thesis by (simp add: run_tunnel_def)
next
  case (Inr e)
  obtain ctx p where e: "e = (ctx, p)" by fastforce
  show ?thesis
  proof (cases p)
    case (Going st0)
    from signal_stops [OF assms, of run ctx pre post st0] obtain x st where
      loop: "run_loop api run ctx (pre @ sig # post) st0 = Some (Stopped x st)"
        "run_loop api run ctx pre st0 = Some (Stopped x st)
          \<or> run_loop api run ctx pre st0 = Some (Going st) \<and> x = ExitOk" by blast
    then have "run_tunnel api env core api4 api6 net_str run target orc peers port addrs mtu dns n
        (pre @ sig # post) s = Some (Some x, snd (run_state (drop_guard run target (guard st)) (osys st)))"
      using Inr e Going by (simp add: run_tunnel_def)
    with loop(2) show ?thesis
      unfolding Inr e Going sum.case prod.case progress.case
      by (intro exI conjI) (assumption, assumption, rule refl, rule drop_guard_cmds)
  next
    case (Stopped y st1)
    from Inr e Stopped have "y \<noteq> ExitOk"
      by (cases rule: start_tunnel_cases) auto
    then show ?thesis
      unfolding Inr e Stopped sum.case prod.case progress.case
      using Inr e Stopped by (intro exI [of _ y] exI [of _ st1]) (simp add: run_tunnel_def drop_guard_cmds)
  qed
qed

theorem signal_ends_tunnel_witness:
  "\<exists>st s'. run_demo [UdpRecv (Inr (addr_demo, [])), SigTerm, Tick id 2] = Some (Some ExitOk, s')
     \<and> map fst (cmd_log s') = map fst (cmd_log (osys (st :: (nat, nat, nat, host_world) tunnel)))
          @ guard_cmds Linux (guard st)"
proof -
  obtain ctx st0 where start: "start_demo = Inr (ctx, Going st0)" using start_demo by blast
  have pre: "run_loop api_demo host_run ctx [UdpRecv (Inr (addr_demo, []))] st0 = Some (Going st0)"
    by (simp add: on_udp_def handle_extern_def api_demo_def sess_demo_def)
  have dry: "runs_dry (turn api_demo) (\<lambda>_. 0)" by (simp add: runs_dry_def api_demo_def)
  have sig: "SigTerm \<in> {SigInt, SigTerm}" by simp
  have events: "[UdpRecv (Inr (addr_demo, [])), SigTerm, Tick id 2]
      = [UdpRecv (Inr (addr_demo, []))] @ SigTerm # [Tick id 2]" by simp
  from signal_ends_tunnel [OF dry sig, where env = env_demo and core = core_demo and ?api4.0 = radix_api
      and ?api6.0 = radix_api and net_str = net_bit_text and run = host_run and target = Linux and orc = "()"
      and peers = peers_demo and port = 51820 and addrs = "[NetV4 0x0A000001 24]" and mtu = 1420
      and dns = "[IpV4 0x01010101]" and n = 0 and s = host_demo
      and pre = "[UdpRecv (Inr (addr_demo, []))]" and post = "[Tick id 2]"]
  show ?thesis
    unfolding start events [symmetric] sum.case prod.case progress.case pre by auto
qed

end
