(* ===== verification/TunnelRelay.thy ===== *)
theory TunnelRelay
  imports TunnelTick
begin

text \<open>
  The event loop against an abstract relay.  A relay is the loop without routes, resolver and
  operating system: it keeps the sessions, the peers, the network and what was sent, turns each
  event into the frames it calls for, and sends them in one go.  The loop refines it: forgetting
  the guard and the operating system commutes with every event.  So whatever the commands on
  routes answer, and whenever they are rechecked, no packet is lost, added or sent elsewhere.
\<close>

section \<open>The relay\<close>

record ('s, 'id, 'n) relay =
  rl_sessions :: 's
  rl_peers :: "'id peer_runtime list"
  rl_network :: 'n
  rl_sent :: "(u8 list \<times> socket_addr) list"

definition transmit ::
  "('s, 'id, 'm, 'n) tunnel_api \<Rightarrow> (u8 list \<times> socket_addr) list \<Rightarrow> ('s, 'id, 'n) relay \<Rightarrow> ('s, 'id, 'n) relay" where
  "transmit api fs r =
     r\<lparr>rl_network := fold (\<lambda>(data, addr) n. snd (udp_send_to api data addr n)) fs (rl_network r),
       rl_sent := rl_sent r @ fs\<rparr>"

text \<open>The sessions after a keepalive to each of the peers.\<close>

definition after_keepalives :: "('s, 'id, 'm, 'n) tunnel_api \<Rightarrow> 'id list \<Rightarrow> 's \<Rightarrow> 's" where
  "after_keepalives api ids s = fold (\<lambda>i s. fst (snd (send_message (sess api) s i []))) ids s"

text \<open>Marking the last peer configured with an endpoint as sent to.\<close>

definition postpone :: "instant \<Rightarrow> socket_addr \<Rightarrow> 'id peer_runtime list \<Rightarrow> 'id peer_runtime list" where
  "postpone now dst ps =
     (case endpoint_index ps dst of None \<Rightarrow> ps | Some i \<Rightarrow> ps[i := (ps ! i)\<lparr>pr_last_sent := now\<rparr>])"

fun relay_event ::
  "('s, 'id, 'm, 'n) tunnel_api \<Rightarrow> (ip_addr \<Rightarrow> 'id) \<Rightarrow> event \<Rightarrow> ('s, 'id, 'n) relay
     \<Rightarrow> ('s, 'id, 'n) relay progress option" where
  "relay_event api look SigInt r = Some (Stopped ExitOk r)"
| "relay_event api look SigTerm r = Some (Stopped ExitOk r)"
| "relay_event api look (Tick clock now) r =
     Option.bind (turn_all (turn api) clock (rl_sessions r)) (\<lambda>(msgs, s).
       let ids = map pr_id (filter (due now) (rl_peers r))
       in Some (Going (transmit api (msgs @ keepalive_frames api ids s)
            (r\<lparr>rl_sessions := after_keepalives api ids s,
               rl_peers := map (\<lambda>p. if due now p then p\<lparr>pr_last_sent := now\<rparr> else p) (rl_peers r)\<rparr>))))"
| "relay_event api look (UdpRecv (Inl e)) r = Some (Stopped (ExitErr e) r)"
| "relay_event api look (UdpRecv (Inr (addr, buf))) r =
     (case handle_extern (sess api) (pf api) look (rl_sessions r) addr buf of
        (res, s) \<Rightarrow>
          let r' = r\<lparr>rl_sessions := s\<rparr> in
          Some (case res of
             Panic m \<Rightarrow> Stopped (ExitPanic m) r'
           | Ok (Inbound data) \<Rightarrow>
               (case tun_write_all api data (rl_network r) of
                  (Inl e, n) \<Rightarrow> Stopped (ExitErr e) (r'\<lparr>rl_network := n\<rparr>)
                | (Inr _, n) \<Rightarrow> Going (r'\<lparr>rl_network := n\<rparr>))
           | Ok (Outbound data _) \<Rightarrow> Going (transmit api [(data, addr)] r')
           | _ \<Rightarrow> Going r'))"
| "relay_event api look (TunRead now (Inl e)) r = Some (Stopped (ExitErr e) r)"
| "relay_event api look (TunRead now (Inr (n, buf))) r =
     (case handle_intern (sess api) (pf api) look (rl_sessions r) buf (TUN_BUF_START (pf api) + n) of
        (res, s) \<Rightarrow>
          let r' = r\<lparr>rl_sessions := s\<rparr> in
          Some (case res of
             Panic m \<Rightarrow> Stopped (ExitPanic m) r'
           | Ok (Outbound data dst) \<Rightarrow>
               let r'' = transmit api [(data, dst)] r' in
               Going (if fst (udp_send_to api data dst (rl_network r))
                      then r''\<lparr>rl_peers := postpone now dst (rl_peers r)\<rparr> else r'')
           | _ \<Rightarrow> Going r'))"

fun relay_loop ::
  "('s, 'id, 'm, 'n) tunnel_api \<Rightarrow> (ip_addr \<Rightarrow> 'id) \<Rightarrow> event list \<Rightarrow> ('s, 'id, 'n) relay
     \<Rightarrow> ('s, 'id, 'n) relay progress option" where
  "relay_loop api look [] r = Some (Going r)"
| "relay_loop api look (e # es) r =
     Option.bind (relay_event api look e r) (\<lambda>p.
       case p of Going r' \<Rightarrow> relay_loop api look es r' | Stopped x r' \<Rightarrow> Some (Stopped x r'))"

section \<open>The abstraction\<close>

definition relay_of :: "('s, 'id, 'n, 'w) tunnel \<Rightarrow> ('s, 'id, 'n) relay" where
  "relay_of st = \<lparr>rl_sessions = sessions st, rl_peers = peer_rt st, rl_network = network st, rl_sent = sent st\<rparr>"

abbreviation relay_progress :: "('s, 'id, 'n, 'w) tunnel progress \<Rightarrow> ('s, 'id, 'n) relay progress" where
  "relay_progress \<equiv> map_progress relay_of"

lemma relay_of_update [simp]:
  "relay_of (st\<lparr>sessions := a\<rparr>) = (relay_of st)\<lparr>rl_sessions := a\<rparr>"
  "relay_of (st\<lparr>peer_rt := b\<rparr>) = (relay_of st)\<lparr>rl_peers := b\<rparr>"
  "relay_of (st\<lparr>network := c\<rparr>) = (relay_of st)\<lparr>rl_network := c\<rparr>"
  by (simp_all add: relay_of_def)

lemma relay_of_select [simp]:
  "rl_sessions (relay_of st) = sessions st" "rl_peers (relay_of st) = peer_rt st"
  "rl_network (relay_of st) = network st" "rl_sent (relay_of st) = sent st"
  by (simp_all add: relay_of_def)

lemma relay_of_recheck [simp]: "relay_of (recheck_guard run st) = relay_of st"
  by (simp add: relay_of_def)

lemma relay_of_send:
  "udp_send api data addr st = (ok, st') \<Longrightarrow>
     relay_of st' = transmit api [(data, addr)] (relay_of st) \<and> ok = fst (udp_send_to api data addr (network st))"
  by (auto simp: udp_send_def relay_of_def transmit_def split: prod.splits)

lemma transmit_append: "transmit api (fs @ gs) r = transmit api gs (transmit api fs r)"
  by (simp add: transmit_def)

lemma transmit_Nil [simp]: "transmit api [] r = r"
  by (simp add: transmit_def)

lemma transmit_update [simp]:
  "transmit api fs (r\<lparr>rl_sessions := s\<rparr>) = (transmit api fs r)\<lparr>rl_sessions := s\<rparr>"
  "transmit api fs (r\<lparr>rl_peers := ps\<rparr>) = (transmit api fs r)\<lparr>rl_peers := ps\<rparr>"
  by (simp_all add: transmit_def)

lemma same_peers:
  "(transmit api fs (relay_of st))\<lparr>rl_sessions := s, rl_peers := peer_rt st\<rparr>
    = (transmit api fs (relay_of st))\<lparr>rl_sessions := s\<rparr>"
  by (simp add: transmit_def relay_of_def)

lemma transmit_select [simp]:
  "rl_sessions (transmit api fs r) = rl_sessions r" "rl_peers (transmit api fs r) = rl_peers r"
  by (simp_all add: transmit_def)

lemma relay_of_messages: "relay_of (send_messages api msgs st) = transmit api msgs (relay_of st)"
proof (induction api msgs st rule: send_messages.induct)
  case (2 api data addr msgs st)
  obtain ok st' where "udp_send api data addr st = (ok, st')" by fastforce
  with 2 relay_of_send [OF this] transmit_append [of api "[(data, addr)]" msgs] show ?case by simp
qed simp

lemma relay_of_send' [simp]:
  "relay_of (snd (udp_send api data addr st)) = transmit api [(data, addr)] (relay_of st)"
  using relay_of_send [of api data addr st] by (metis prod.collapse)

lemma relay_of_keepalive:
  "relay_of (send_keepalive api i st) =
     transmit api (keepalive_frames api [i] (sessions st))
       ((relay_of st)\<lparr>rl_sessions := after_keepalives api [i] (sessions st)\<rparr>)"
  by (simp add: send_keepalive_def after_keepalives_def Let_def split: prod.split send_message.split)

lemma keepalive_frames_Cons:
  "keepalive_frames api (i # is) s =
     keepalive_frames api [i] s @ keepalive_frames api is (after_keepalives api [i] s)"
  by (simp add: after_keepalives_def split: prod.split)

lemma relay_of_keepalives:
  "relay_of (snd (keepalive_loop api now ps st)) =
     (let ids = map pr_id (filter (due now) ps)
      in transmit api (keepalive_frames api ids (sessions st))
           ((relay_of st)\<lparr>rl_sessions := after_keepalives api ids (sessions st)\<rparr>))"
proof (induction api now ps st rule: keepalive_loop.induct)
  case (1 api now st)
  show ?case by (simp add: after_keepalives_def relay_of_def)
next
  case (2 api now p ps st)
  let ?st = "send_keepalive api (pr_id p) st"
  have sess: "sessions ?st = after_keepalives api [pr_id p] (sessions st)"
    using arg_cong [OF relay_of_keepalive [of api "pr_id p" st], of rl_sessions] by simp
  have step: "after_keepalives api (i # is) s = after_keepalives api is (after_keepalives api [i] s)"
    for i "is" s
    by (simp add: after_keepalives_def)
  show ?case
  proof (cases "due now p")
    case True
    with 2 show ?thesis
      by (simp add: Let_def case_prod_beta sess relay_of_keepalive step [of "pr_id p" "map pr_id (filter (due now) ps)"]
          keepalive_frames_Cons [of api "pr_id p" "map pr_id (filter (due now) ps)"] transmit_append
          del: keepalive_frames.simps)
  next
    case False
    with 2 show ?thesis by (simp add: case_prod_beta)
  qed
qed

section \<open>Every event refines the relay\<close>

lemma tick_refines:
  assumes "indexed ctx st"
  shows "map_option relay_progress (on_tick api run ctx clock now st)
    = relay_event api (lookup ctx) (Tick clock now) (relay_of st)"
proof (cases "turn_all (turn api) clock (sessions st)")
  case None
  then show ?thesis by (simp add: on_tick_def)
next
  case (Some r)
  obtain msgs s where turned: "turn_all (turn api) clock (sessions st) = Some (msgs, s)"
    using Some by (cases r) simp
  obtain b where b: "tick_recheck (host_route_idx ctx) (added_routes (guard st)) = Some b"
    using assms tick_recheck_first by (simp add: indexed_def)
  let ?st2 = "if b then recheck_guard run (st\<lparr>sessions := s\<rparr>) else st\<lparr>sessions := s\<rparr>"
  let ?st3 = "send_messages api msgs ?st2"
  let ?k = "keepalive_loop api now (peer_rt ?st3) ?st3"
  have "on_tick api run ctx clock now st = Some (Going (snd ?k\<lparr>peer_rt := fst ?k\<rparr>))"
    using turned b by (simp add: on_tick_def Let_def case_prod_beta)
  moreover have three: "relay_of ?st3 = transmit api msgs ((relay_of st)\<lparr>rl_sessions := s\<rparr>)"
    by (simp add: relay_of_messages)
  moreover have "peer_rt ?st3 = peer_rt st" by simp
  moreover have "sessions ?st3 = s" using arg_cong [OF three, of rl_sessions] by simp
  ultimately show ?thesis
    using turned by (simp add: relay_of_keepalives keepalive_loop_peers Let_def transmit_append)
qed

lemma udp_refines:
  "Some (relay_progress (on_udp api run ctx addr buf st))
    = relay_event api (lookup ctx) (UdpRecv (Inr (addr, buf))) (relay_of st)"
  by (auto simp: on_udp_def Let_def dest!: relay_of_send
      split: prod.split outcome.split write_result.split sum.split)

lemma tun_refines:
  assumes "indexed ctx st"
  shows "Some (relay_progress (on_tun api run ctx now buf n st))
    = relay_event api (lookup ctx) (TunRead now (Inr (n, buf))) (relay_of st)"
proof -
  obtain r s where h: "handle_intern (sess api) (pf api) (lookup ctx) (sessions st) buf
      (TUN_BUF_START (pf api) + n) = (r, s)" by fastforce
  show ?thesis
  proof (cases "\<exists>data dst. r = Ok (Outbound data dst)")
    case False
    with h show ?thesis
      by (auto simp: on_tun_def Let_def split: outcome.split write_result.split)
  next
    case True
    then obtain data dst where r: "r = Ok (Outbound data dst)" by blast
    obtain ok st2 where u: "udp_send api data dst (st\<lparr>sessions := s\<rparr>) = (ok, st2)" by fastforce
    have p: "peer_rt st2 = peer_rt st" using udp_send_guard(2) [OF u] by simp
    have e: "endpoint_to_idx ctx = endpoint_index (peer_rt st)" using assms by (simp add: indexed_def)
    show ?thesis
    proof (cases "endpoint_index (peer_rt st) dst")
      case None
      with h r u p e relay_of_send [OF u] show ?thesis
        by (cases ok) (simp_all add: on_tun_def postpone_def same_peers Let_def)
    next
      case (Some i)
      then have "i < length (peer_rt st)" by (simp add: endpoint_index_Some)
      with Some h r u p e relay_of_send [OF u] show ?thesis
        by (cases ok) (simp_all add: on_tun_def postpone_def Let_def)
    qed
  qed
qed

lemma event_refines:
  assumes "indexed ctx st"
  shows "map_option relay_progress (on_event api run ctx e st)
    = relay_event api (lookup ctx) e (relay_of st)"
  using tick_refines [OF assms] udp_refines tun_refines [OF assms]
  by (cases "(api, run, ctx, e, st)" rule: on_event.cases) simp_all

lemma loop_refines:
  assumes "indexed ctx st"
  shows "map_option relay_progress (run_loop api run ctx es st)
    = relay_loop api (lookup ctx) es (relay_of st)"
  using assms
proof (induction es arbitrary: st)
  case (Cons e es)
  show ?case
  proof (cases "on_event api run ctx e st")
    case None
    with event_refines [OF Cons.prems, of api run e] show ?thesis by simp
  next
    case (Some p)
    with event_refines [OF Cons.prems, of api run e, symmetric] event_indexed(1) [OF Cons.prems Some]
      Cons.IH
    show ?thesis by (cases p) simp_all
  qed
qed simp

section \<open>Property\<close>

text \<open>C5: The loop refines the relay.  From the start on and for any events, forgetting guard and
  operating system turns the run of the loop into the run of the abstract relay: what is sent,
  delivered and remembered of the peers, and how the loop ends, is a function of the sessions,
  the network and the events alone; no answer of the operating system and no recheck has any
  influence on it.\<close>

theorem loop_refines_relay:
  assumes "start_tunnel api env core api4 api6 net_str run target orc peers port addrs mtu dns n s
      = Inr (ctx, Going st0)"
  shows "map_option relay_progress (run_loop api run ctx es st0)
    = relay_loop api (lookup ctx) es (relay_of st0)"
proof -
  have "indexed ctx st0"
    using assms by (cases rule: start_tunnel_cases) (auto simp: indexed_def)
  then show ?thesis by (rule loop_refines)
qed

theorem loop_refines_relay_witness:
  "\<exists>ctx st0. start_demo = Inr (ctx, Going st0)
     \<and> map_option relay_progress (run_loop api_demo host_run ctx [Tick id 1, SigInt] st0)
       = relay_loop api_demo (lookup ctx) [Tick id 1, SigInt] (relay_of st0)"
proof -
  obtain ctx st0 where start: "start_demo = Inr (ctx, Going st0)" using start_demo by blast
  from loop_refines_relay [OF start] start show ?thesis by blast
qed

end
