(* ===== verification/TunnelDns.thy ===== *)
theory TunnelDns
  imports TunnelProps
begin

text \<open>
  The resolver over the whole life of the tunnel: no command on routes touches it, so between
  \<^verbatim>\<open>apply_dns\<close> and the drop of the guard it stays as \<^verbatim>\<open>apply_dns\<close> left it; and the guard takes
  the resolver back before it deletes the first route.
\<close>

section \<open>Commands on routes keep the resolver\<close>

context tunnel_base
begin

abbreviation res_is :: "(string \<Rightarrow> string list option) \<Rightarrow> 'w sys \<Rightarrow> bool" where
  "res_is r s \<equiv> res (world s) = r"

lemma exec_route_res [intro, simp]: "keeps (res_is r) (exec run (route_command as))"
  by (rule keeps_exec) (simp add: routes_keep_dns route_command_def)

lemma route_cmd_res [intro, simp]: "keeps (res_is r) (route_cmd run as)"
  unfolding route_cmd_def by (intro keeps_bind exec_route_res) simp

lemma get_info_res [intro, simp]: "keeps (res_is r) (get_route_info run ip f)"
  unfolding get_route_info_def by (intro keeps_bind exec_route_res) simp

lemma add_via_res [intro, simp]: "keeps (res_is r) (add_via run f kind dst i)"
  by (auto simp: add_via_def split: option.split)

lemma add_nets_res [intro, simp]: "keeps (res_is r) (add_nets run tun f ps)"
  by (induction ps) (auto simp: add_net_def)

lemma allowed_res [intro, simp]: "keeps (res_is r) (add_allowed_ips run net_str tun ns)"
  by (induction ns) auto

lemma pass_loop_res [intro, simp]: "keeps (res_is r) (passthrough_loop run f i ps)"
  by (induction ps) auto

lemma pass_res [intro, simp]: "keeps (res_is r) (install_passthroughs run f)"
  by (auto simp: install_passthroughs_def split: option.split)

lemma bypass_res [intro, simp]: "keeps (res_is r) (install_endpoint_bypass run eps f)"
  by (induction eps) (auto intro!: keeps_bind split: option.split)

lemma setup_res [intro, simp]: "keeps (res_is r) (setup_routes run net_str tun ips eps)"
  by (auto simp: setup_routes_def bypass_if_def)

lemma unconfigured_res [intro, simp]: "keeps (res_is r) (unconfigured run f addrs tun eps)"
  by (auto simp: unconfigured_def setup_unconfigured_family_def)

lemma recheck_one_res: "keeps (res_is r) (recheck_one run current x)"
  by (cases x) (auto simp: reinstall_def split: option.split)

lemma recheck_res [intro, simp]: "keeps (res_is r) (recheck_routes run rs)"
proof -
  have "keeps (res_is r) (recheck_loop run current rs)" for current
    by (induction rs) (auto intro: recheck_one_res)
  then show ?thesis by (auto simp: recheck_routes_def current_default_gateway_def)
qed

lemma cleanup_res [intro, simp]: "keeps (res_is r) (cleanup_routes run rs)"
  by (induction rs) auto

text \<open>What the guard says about the resolver.\<close>

definition resolver_held ::
  "string \<Rightarrow> (string \<Rightarrow> string list option) \<Rightarrow> cleanup_guard \<Rightarrow> 'w sys \<Rightarrow> bool" where
  "resolver_held tun r g s \<longleftrightarrow>
     (case applied_dns g of
        None \<Rightarrow> res (world s) = r
      | Some d \<Rightarrow> ad_tun_name d = tun \<and> dns_clear_cmd target tun \<noteq> None
          \<and> (res (world s))(dns_slot target tun := None) = r)"

lemma recheck_holds: "kept_by_recheck run (resolver_held tun r)"
proof
  fix g s rs s'
  assume "resolver_held tun r g s" "run_state (recheck_routes run (added_routes g)) s = (rs, s')"
  moreover from this(2) have "res (world s') = res (world s)"
    using keepsD [OF recheck_res refl, of "added_routes g" s] by simp
  ultimately show "resolver_held tun r (g\<lparr>added_routes := rs\<rparr>) s'"
    by (auto simp: resolver_held_def split: option.splits)
qed

end

context tunnel_os
begin

lemma take_over_holds:
  assumes "one_line tun" and "res (world s) (dns_slot target tun) = None"
    and "run_state (take_over run target net_str tun addrs ips eps dns) s = (g, s')"
  shows "resolver_held tun (res (world s)) g s'"
proof -
  let ?a = "run_state (setup_routes run net_str tun ips eps) s"
  let ?b = "run_state (unconfigured run V4 addrs tun eps) (snd ?a)"
  let ?c = "run_state (unconfigured run V6 addrs tun eps) (snd ?b)"
  let ?d = "run_state (apply_dns run target tun dns) (snd ?c)"
  have c: "res (world (snd ?c)) = res (world s)"
    using keepsD [OF setup_res refl] keepsD [OF unconfigured_res refl] by metis
  have g: "applied_dns g = fst ?d" "s' = snd ?d"
    using assms(3) by (auto simp: take_over_def case_prod_beta)
  have "fst ?d \<noteq> None \<longrightarrow> dns_clear_cmd target tun \<noteq> None"
    by (cases target) (auto simp: run_apply_dns split: if_splits)
  with g c exact.apply_dns_effect [OF assms(1) surjective_pairing, of dns "snd ?c"] assms(2)
  show ?thesis
    by (auto simp: resolver_held_def fun_eq_iff split: option.splits)
qed

lemma drop_restores_resolver:
  assumes "one_line tun" and "resolver_held tun r g s"
    and "\<And>c w. dns_clear_cmd target tun = Some c \<Longrightarrow> succeeded (fst (run c w))"
  shows "res (world (snd (run_state (drop_guard run target g) s))) = r"
proof (cases "applied_dns g")
  case None
  with assms(2) keepsD [OF cleanup_res, of s r "added_routes g"] show ?thesis
    by (simp add: drop_guard_def resolver_held_def)
next
  case (Some d)
  let ?s = "snd (run_state (cleanup_dns run target d) s)"
  obtain c where c: "dns_clear_cmd target tun = Some c" "ad_tun_name d = tun"
      "(res (world s))(dns_slot target tun := None) = r"
    using assms(2) Some by (auto simp: resolver_held_def)
  then have "res (world ?s) = r"
    using resolver.cleanup_dns_effect [of d c s] assms(1,3) by simp
  with Some keepsD [OF cleanup_res, of ?s r "added_routes g"] show ?thesis
    by (simp add: drop_guard_def case_prod_beta)
qed

lemma run_tunnel_resolver:
  assumes "\<And>tun. tun_create env (tun_configuration addrs mtu) = Inr tun \<Longrightarrow>
           one_line tun
           \<and> res (world (before_guard env run target net_str addrs mtu s)) (dns_slot target tun) = None
           \<and> (\<forall>c w. dns_clear_cmd target tun = Some c \<longrightarrow> succeeded (fst (run c w)))"
    and "run_tunnel api env core api4 api6 net_str run target orc peers port addrs mtu dns n es s
           = Some (Some x, s')"
  shows "res (world s') \<in> {res (world s), res (world (before_guard env run target net_str addrs mtu s))}"
proof (cases "tun_create env (tun_configuration addrs mtu)")
  case (Inl e)
  have "kept_by_recheck run (\<lambda>g s. False)" by unfold_locales simp
  from kept_by_recheck.run_tunnel_kept [OF this assms(2)] Inl show ?thesis by auto
next
  case (Inr tun)
  let ?r = "res (world (before_guard env run target net_str addrs mtu s))"
  note tun = assms(1) [OF Inr]
  have "s' = s \<or> (\<exists>g s2. resolver_held tun ?r g s2
      \<and> s' = (if Some x = None then s2 else snd (run_state (drop_guard run target g) s2)))"
    by (rule kept_by_recheck.run_tunnel_kept [OF recheck_holds assms(2)])
      (use take_over_holds Inr tun in auto)
  then show ?thesis using drop_restores_resolver tun by fastforce
qed

end

section \<open>Properties\<close>

text \<open>C3: The tunnel gives the resolver back.  Over an operating system that keeps its contract and
  whose command to remove a resolver entry works, when the new interface had no entry before,
  then whatever events the loop has seen and however \<^verbatim>\<open>run_tunnel\<close> ends, every resolver entry is
  as it was on entry, or as it was once the interface had its addresses.\<close>

theorem run_tunnel_restores_resolver:
  assumes "tunnel_os run tbl key target res"
    and "\<And>tun. tun_create env (tun_configuration addrs mtu) = Inr tun \<Longrightarrow>
           one_line tun
           \<and> res (world (before_guard env run target net_str addrs mtu s)) (dns_slot target tun) = None
           \<and> (\<forall>c w. dns_clear_cmd target tun = Some c \<longrightarrow> succeeded (fst (run c w)))"
    and "run_tunnel api env core api4 api6 net_str run target orc peers port addrs mtu dns n es s
           = Some (Some x, s')"
  shows "res (world s') \<in> {res (world s), res (world (before_guard env run target net_str addrs mtu s))}"
  by (rule tunnel_os.run_tunnel_resolver [OF assms])

theorem run_tunnel_restores_resolver_witness:
  "\<exists>s'. run_demo [UdpRecv (Inr (addr_demo, [])), SigTerm] = Some (Some ExitOk, s')
     \<and> hw_resolver (world s') = Map.empty"
proof -
  obtain s' where run: "run_demo [UdpRecv (Inr (addr_demo, [])), SigTerm] = Some (Some ExitOk, s')"
    by (simp add: run_tunnel_def start_tunnel_def build_demo env_demo_def Let_def case_prod_beta
        on_udp_def handle_extern_def api_demo_def sess_demo_def)
  have before: "before_guard env_demo host_run Linux net_bit_text [NetV4 0x0A000001 24] 1420 host_demo
      = host_demo"
    by (simp add: before_guard_def env_demo_def is_net_v6_def)
  have "hw_resolver (world s') \<in> {hw_resolver (world host_demo), hw_resolver (world host_demo)}"
    using run_tunnel_restores_resolver [OF host_linux.tunnel_os_axioms _ run, unfolded before]
    by (simp add: env_demo_def one_line_def host_demo_def resolvconf_delete_def host_run_def
        ref_resolver_def)
  with run show ?thesis by (simp add: host_demo_def)
qed

end
