(* ===== verification/TunnelFail.thy ===== *)
theory TunnelFail
  imports TunnelDns
begin

text \<open>
  What refused commands leave behind.  Over the contracts that allow for deletes that are refused
  and for settings of the resolver that are done by half: whatever happens, the tunnel leaves
  nothing but entries whose last delete was refused, and the entry of its own interface in the
  resolver if a command about it failed.
\<close>

section \<open>The log only grows\<close>

abbreviation logs :: "('w sys, 'a) state \<Rightarrow> bool" where
  "logs m \<equiv> grows (\<lambda>_. True) m"

lemma logs_of: "grows A m \<Longrightarrow> logs m"
  by (rule grows_mono) simp_all

lemma logsD: "logs m \<Longrightarrow> \<exists>es. cmd_log (snd (run_state m s)) = cmd_log s @ es"
  by (auto simp: grows_def)

lemma logs_unconfigured: "logs (unconfigured run f addrs tun eps)"
  by (auto simp: unconfigured_def setup_unconfigured_family_def
      intro!: log_intros intro: logs_of grows_bypass grows_passthroughs grows_add_nets)

lemma logs_setup: "logs (setup_routes run net_str tun ips eps)"
  unfolding setup_routes_def
  by (intro log_intros logs_of [OF grows_bypass_if] logs_of [OF grows_allowed_ips])

lemma logs_recheck_one: "logs (recheck_one run current r)"
  by (cases r) (auto simp: reinstall_def intro!: log_intros split: option.split)

lemma logs_recheck: "logs (recheck_routes run rs)"
proof -
  have "logs (recheck_loop run current rs)" for current
    by (induction rs) (auto intro!: log_intros logs_recheck_one)
  then show ?thesis
    by (auto simp: recheck_routes_def current_default_gateway_def intro!: log_intros)
qed

lemma dns_refused_append [simp]:
  "dns_refused target tun ips (xs @ ys) \<longleftrightarrow> dns_refused target tun ips xs \<or> dns_refused target tun ips ys"
  by (simp add: dns_refused_def)

section \<open>What the guard carries\<close>

context tunnel_base
begin

definition carried ::
  "string \<Rightarrow> ip_addr list \<Rightarrow> 'w sys \<Rightarrow> cleanup_guard \<Rightarrow> 'w sys \<Rightarrow> bool" where
  "carried tun ips b g s \<longleftrightarrow>
     kernel.owns (tbl (world b)) (added_routes g) (world s)
     \<and> (\<exists>es. cmd_log s = cmd_log b @ es
          \<and> (\<forall>k. k \<noteq> dns_slot target tun \<longrightarrow> res (world s) k = res (world b) k)
          \<and> (case applied_dns g of
               None \<Rightarrow> res (world s) = res (world b) \<or> dns_refused target tun ips es
             | Some d \<Rightarrow> ad_tun_name d = tun \<and> dns_clear_cmd target tun \<noteq> None))"

lemma carried_step:
  assumes "carried tun ips b g s" and "cmd_log s' = cmd_log s @ fs" and "res (world s') = res (world s)"
    and "kernel.owns (tbl (world b)) (added_routes g') (world s')" and "applied_dns g' = applied_dns g"
  shows "carried tun ips b g' s'"
proof -
  obtain es where "cmd_log s = cmd_log b @ es"
      "\<forall>k. k \<noteq> dns_slot target tun \<longrightarrow> res (world s) k = res (world b) k"
      "case applied_dns g of
         None \<Rightarrow> res (world s) = res (world b) \<or> dns_refused target tun ips es
       | Some d \<Rightarrow> ad_tun_name d = tun \<and> dns_clear_cmd target tun \<noteq> None"
    using assms(1) unfolding carried_def by blast
  with assms(2-5) show ?thesis
    unfolding carried_def by (intro conjI exI [of _ "es @ fs"]) (auto split: option.splits)
qed

lemma recheck_carries: "kept_by_recheck run (carried tun ips b)"
proof
  fix g s rs s'
  assume c: "carried tun ips b g s" and run: "run_state (recheck_routes run (added_routes g)) s = (rs, s')"
  obtain fs where "cmd_log s' = cmd_log s @ fs"
    using logsD [OF logs_recheck, of run "added_routes g" s] run by auto
  moreover have "res (world s') = res (world s)"
    using keepsD [OF recheck_res refl, of "added_routes g" s] run by simp
  moreover have "kernel.owns (tbl (world b)) rs (world s')"
    using kernel.owns_recheck [of "tbl (world b)" "added_routes g" s] c run by (simp add: carried_def)
  ultimately show "carried tun ips b (g\<lparr>added_routes := rs\<rparr>) s'"
    by (intro carried_step [OF c]) simp_all
qed

lemma take_over_carries:
  assumes "one_line tun"
    and "run_state (take_over run target net_str tun addrs nets eps ips) b = (g, s')"
  shows "carried tun ips b g s'"
proof -
  let ?a = "run_state (setup_routes run net_str tun nets eps) b"
  let ?b = "run_state (unconfigured run V4 addrs tun eps) (snd ?a)"
  let ?c = "run_state (unconfigured run V6 addrs tun eps) (snd ?b)"
  let ?d = "run_state (apply_dns run target tun ips) (snd ?c)"
  obtain xs ys zs where log: "cmd_log (snd ?a) = cmd_log b @ xs" "cmd_log (snd ?b) = cmd_log (snd ?a) @ ys"
      "cmd_log (snd ?c) = cmd_log (snd ?b) @ zs"
    using logsD [OF logs_setup] logsD [OF logs_unconfigured] by metis
  have r: "res (world (snd ?c)) = res (world b)"
    using keepsD [OF setup_res refl] keepsD [OF unconfigured_res refl] by metis
  obtain es where "cmd_log (snd ?d) = cmd_log (snd ?c) @ es"
      "\<forall>k. k \<noteq> dns_slot target tun \<longrightarrow> res (world (snd ?d)) k = res (world (snd ?c)) k"
      "case fst ?d of
         None \<Rightarrow> res (world (snd ?d)) = res (world (snd ?c)) \<or> dns_refused target tun ips es
       | Some x \<Rightarrow> ad_tun_name x = tun \<and> dns_clear_cmd target tun \<noteq> None"
    using resolver.apply_dns_slot [OF assms(1) surjective_pairing, of ips "snd ?c"] by blast
  moreover have "applied_dns g = fst ?d" "s' = snd ?d"
    using assms(2) by (auto simp: take_over_def case_prod_beta)
  ultimately show ?thesis
    using log r take_over_owns [OF assms(2)]
    unfolding carried_def by (intro conjI exI [of _ "xs @ ys @ zs @ es"]) (auto split: option.splits)
qed

lemma drop_leaves_routes:
  assumes "kernel.owns t0 rs (world s)"
  obtains es where "cmd_log (snd (run_state (cleanup_routes run rs) s)) = cmd_log s @ es"
    and "\<And>k. tbl (world (snd (run_state (cleanup_routes run rs) s))) k = t0 k
           \<or> (\<exists>r x. key r = k \<and> last_delete es r = Some x \<and> \<not> succeeded x)"
proof -
  let ?s = "snd (run_state (cleanup_routes run rs) s)"
  obtain es where es: "cmd_log ?s = cmd_log s @ es"
      "\<And>k. k \<in> keys_of key rs \<Longrightarrow> tbl (world ?s) k = None
        \<or> (\<exists>r x. key r = k \<and> last_delete es r = Some x \<and> \<not> succeeded x)"
    using kernel.cleanup_leaves_log by blast
  have "tbl (world ?s) k = t0 k \<or> (\<exists>r x. key r = k \<and> last_delete es r = Some x \<and> \<not> succeeded x)" for k
  proof (cases "k \<in> keys_of key rs")
    case True
    with assms have "t0 k = None" unfolding kernel.owns_def by metis
    with es(2) [OF True] show ?thesis by simp
  next
    case False
    with assms kernel.cleanup_frame [OF False, of s] show ?thesis unfolding kernel.owns_def by metis
  qed
  with es(1) that show ?thesis by blast
qed

lemma undo_dns:
  assumes "one_line tun" and "res (world b) (dns_slot target tun) = None"
    and others: "\<forall>k. k \<noteq> dns_slot target tun \<longrightarrow> res (world s) k = res (world b) k"
    and "ad_tun_name d = tun" and "dns_clear_cmd target tun = Some c"
    and frame: "\<And>w k. k \<noteq> dns_slot target tun \<Longrightarrow> res (snd (run c w)) k = res w k"
  shows "\<exists>e. cmd_log (snd (run_state (cleanup_dns run target d) s)) = cmd_log s @ [e]
    \<and> (\<forall>k. res (world (snd (run_state (cleanup_dns run target d) s))) k = res (world b) k
         \<or> k = dns_slot target tun \<and> dns_refused target tun ips [e])"
proof -
  let ?s = "snd (run_state (exec run c) s)"
  let ?e = "(c, fst (run c (world s)))"
  have "res (world ?s) k = res (world b) k \<or> k = dns_slot target tun \<and> dns_refused target tun ips [?e]" for k
  proof (cases "k = dns_slot target tun")
    case True
    with resolver.res_clear [OF assms(1,5), of "world s"] assms(2,5) show ?thesis
      by (cases "succeeded (fst (run c (world s)))") (simp_all add: dns_refused_def)
  next
    case False
    with frame [OF False, of "world s"] others show ?thesis by simp
  qed
  with assms(4,5) show ?thesis
    by (intro exI [of _ ?e]) (simp add: run_cleanup_dns)
qed

lemma drop_leaves:
  assumes "carried tun ips b g s" and "one_line tun" and "res (world b) (dns_slot target tun) = None"
    and frame: "\<And>c w k. dns_clear_cmd target tun = Some c \<Longrightarrow> k \<noteq> dns_slot target tun \<Longrightarrow>
      res (snd (run c w)) k = res w k"
  shows "\<exists>es. cmd_log (snd (run_state (drop_guard run target g) s)) = cmd_log b @ es
    \<and> (\<forall>k. tbl (world (snd (run_state (drop_guard run target g) s))) k = tbl (world b) k
         \<or> (\<exists>r x. key r = k \<and> last_delete es r = Some x \<and> \<not> succeeded x))
    \<and> (\<forall>k. res (world (snd (run_state (drop_guard run target g) s))) k = res (world b) k
         \<or> k = dns_slot target tun \<and> dns_refused target tun ips es)"
proof -
  define s1 where "s1 = (case applied_dns g of None \<Rightarrow> s | Some d \<Rightarrow> snd (run_state (cleanup_dns run target d) s))"
  have drop: "snd (run_state (drop_guard run target g) s)
      = snd (run_state (cleanup_routes run (added_routes g)) s1)"
    by (simp add: drop_guard_def s1_def case_prod_beta split: option.split)
  obtain es where es: "cmd_log s = cmd_log b @ es"
      "\<forall>k. k \<noteq> dns_slot target tun \<longrightarrow> res (world s) k = res (world b) k"
      "case applied_dns g of
         None \<Rightarrow> res (world s) = res (world b) \<or> dns_refused target tun ips es
       | Some d \<Rightarrow> ad_tun_name d = tun \<and> dns_clear_cmd target tun \<noteq> None"
    and owns: "kernel.owns (tbl (world b)) (added_routes g) (world s)"
    using assms(1) unfolding carried_def by blast
  obtain fs where fs: "cmd_log s1 = cmd_log s @ fs"
      "\<forall>k. res (world s1) k = res (world b) k \<or> k = dns_slot target tun \<and> dns_refused target tun ips (es @ fs)"
  proof (cases "applied_dns g")
    case None
    with es(2,3) that [of "[]"] show ?thesis by (fastforce simp: s1_def)
  next
    case (Some d)
    with es(3) obtain c where c: "dns_clear_cmd target tun = Some c" "ad_tun_name d = tun" by auto
    from undo_dns [OF assms(2,3) es(2) c(2,1) frame [OF c(1)]] obtain e where
        "cmd_log (snd (run_state (cleanup_dns run target d) s)) = cmd_log s @ [e]"
        "\<forall>k. res (world (snd (run_state (cleanup_dns run target d) s))) k = res (world b) k
          \<or> k = dns_slot target tun \<and> dns_refused target tun ips [e]" by blast
    with Some that [of "[e]"] show ?thesis by (auto simp: s1_def)
  qed
  have "tbl (world s1) = tbl (world s)"
    by (simp add: s1_def cleanup_dns_table split: option.split)
  with owns have "kernel.owns (tbl (world b)) (added_routes g) (world s1)"
    by (rule kernel.owns_world)
  then obtain hs where hs: "cmd_log (snd (run_state (cleanup_routes run (added_routes g)) s1)) = cmd_log s1 @ hs"
      "\<And>k. tbl (world (snd (run_state (cleanup_routes run (added_routes g)) s1))) k = tbl (world b) k
         \<or> (\<exists>r x. key r = k \<and> last_delete hs r = Some x \<and> \<not> succeeded x)"
    by (rule drop_leaves_routes) blast
  have res: "res (world (snd (run_state (cleanup_routes run (added_routes g)) s1))) = res (world s1)"
    using keepsD [OF cleanup_res refl] .
  have last: "last_delete (es @ fs @ hs) r = Some x" if "last_delete hs r = Some x" for r x
    using that by (simp add: last_delete_append)
  show ?thesis
    unfolding drop
  proof (intro exI [of _ "es @ fs @ hs"] conjI allI)
    show "cmd_log (snd (run_state (cleanup_routes run (added_routes g)) s1)) = cmd_log b @ es @ fs @ hs"
      using hs(1) fs(1) es(1) by simp
  next
    fix k
    show "tbl (world (snd (run_state (cleanup_routes run (added_routes g)) s1))) k = tbl (world b) k
        \<or> (\<exists>r x. key r = k \<and> last_delete (es @ fs @ hs) r = Some x \<and> \<not> succeeded x)"
      using hs(2) [of k] last by blast
  next
    fix k
    show "res (world (snd (run_state (cleanup_routes run (added_routes g)) s1))) k = res (world b) k
        \<or> k = dns_slot target tun \<and> dns_refused target tun ips (es @ fs @ hs)"
      using fs(2) [rule_format, of k] unfolding res by auto
  qed
qed

lemma run_tunnel_leaves:
  assumes "\<And>tun. tun_create env (tun_configuration addrs mtu) = Inr tun \<Longrightarrow>
           one_line tun
           \<and> res (world (before_guard env run target net_str addrs mtu s)) (dns_slot target tun) = None
           \<and> (\<forall>c w k. dns_clear_cmd target tun = Some c \<longrightarrow> k \<noteq> dns_slot target tun \<longrightarrow>
                res (snd (run c w)) k = res w k)"
    and "run_tunnel api env core api4 api6 net_str run target orc peers port addrs mtu ips n es s
           = Some (Some x, s')"
  shows "s' = s \<or>
    (\<exists>tun ls. tun_create env (tun_configuration addrs mtu) = Inr tun
       \<and> cmd_log s' = cmd_log (before_guard env run target net_str addrs mtu s) @ ls
       \<and> (\<forall>k. tbl (world s') k = tbl (world (before_guard env run target net_str addrs mtu s)) k
            \<or> (\<exists>r y. key r = k \<and> last_delete ls r = Some y \<and> \<not> succeeded y))
       \<and> (\<forall>k. res (world s') k = res (world (before_guard env run target net_str addrs mtu s)) k
            \<or> k = dns_slot target tun \<and> dns_refused target tun ips ls))"
proof (cases "tun_create env (tun_configuration addrs mtu)")
  case (Inl e)
  have "kept_by_recheck run (\<lambda>g s. False)" by unfold_locales simp
  from kept_by_recheck.run_tunnel_kept [OF this assms(2)] Inl show ?thesis by auto
next
  case (Inr tun)
  let ?b = "before_guard env run target net_str addrs mtu s"
  have "s' = s \<or> (\<exists>g s2. carried tun ips ?b g s2
      \<and> s' = (if Some x = None then s2 else snd (run_state (drop_guard run target g) s2)))"
    by (rule kept_by_recheck.run_tunnel_kept [OF recheck_carries assms(2)])
      (use take_over_carries Inr assms(1) [OF Inr] in auto)
  then consider "s' = s"
    | g s2 where "carried tun ips ?b g s2" "s' = snd (run_state (drop_guard run target g) s2)"
    by auto
  then show ?thesis
  proof cases
    case (2 g s2)
    have "\<exists>ls. cmd_log s' = cmd_log ?b @ ls
       \<and> (\<forall>k. tbl (world s') k = tbl (world ?b) k
            \<or> (\<exists>r y. key r = k \<and> last_delete ls r = Some y \<and> \<not> succeeded y))
       \<and> (\<forall>k. res (world s') k = res (world ?b) k \<or> k = dns_slot target tun \<and> dns_refused target tun ips ls)"
      unfolding 2(2) using assms(1) [OF Inr] by (intro drop_leaves [OF 2(1)]) simp_all
    with Inr show ?thesis by blast
  qed simp
qed

end

section \<open>A host that refuses a delete\<close>

definition stuck_run :: "host_world os" where
  "stuck_run c w =
     (if op_key ''delete'' (args c) = Some (''-inet6'', ''-net'', ''::/1'') then (Exited False [], w)
      else host_run c w)"

lemma stuck_run_route [simp]:
  "stuck_run (route_command as) w =
     (if op_key ''delete'' as = Some (''-inet6'', ''-net'', ''::/1'') then (Exited False [], w)
      else host_run (route_command as) w)"
  by (simp add: stuck_run_def)

lemma stuck_run_resolvconf [simp]:
  "stuck_run (resolvconf_add tun ips) w = host_run (resolvconf_add tun ips) w"
  "stuck_run (resolvconf_delete tun) w = host_run (resolvconf_delete tun) w"
  by (simp_all add: stuck_run_def resolvconf_add_def resolvconf_delete_def)

interpretation stuck_routes: route_table stuck_run "\<lambda>w. rw_table (hw_routes w)" "\<lambda>k. k"
  by unfold_locales
    (auto simp: ref.get_reads ref.add_fail ref.delete_clears dest: ref.add_ok split: if_splits)

interpretation stuck: tunnel_base stuck_run "\<lambda>w. rw_table (hw_routes w)" "\<lambda>k. k" Linux hw_resolver
  by unfold_locales
    (auto simp: stuck_run_def host_run_def resolvconf_add_def resolvconf_delete_def ref_resolver_def
      resolvconf_roundtrip split: prod.split)

section \<open>Property\<close>

text \<open>C12: Only refused commands leave traces.  Over a kernel that may refuse deletes and a helper of
  the resolver that may fail halfway, whatever the configuration, the events and the way
  \<^verbatim>\<open>run_tunnel\<close> ends: either it changed nothing, or every entry of the routing table is as it was
  before the guard, unless the last \<^verbatim>\<open>route delete\<close> of that entry in this run was refused, and every
  entry of the resolver is as it was, unless it is the entry of the tunnel's own interface and a
  command about it failed.\<close>

theorem only_refused_commands_leave_traces:
  assumes "tunnel_base run tbl key target res"
    and "\<And>tun. tun_create env (tun_configuration addrs mtu) = Inr tun \<Longrightarrow>
           one_line tun
           \<and> res (world (before_guard env run target net_str addrs mtu s)) (dns_slot target tun) = None
           \<and> (\<forall>c w k. dns_clear_cmd target tun = Some c \<longrightarrow> k \<noteq> dns_slot target tun \<longrightarrow>
                res (snd (run c w)) k = res w k)"
    and "run_tunnel api env core api4 api6 net_str run target orc peers port addrs mtu ips n es s
           = Some (Some x, s')"
  shows "s' = s \<or>
    (\<exists>tun ls. tun_create env (tun_configuration addrs mtu) = Inr tun
       \<and> cmd_log s' = cmd_log (before_guard env run target net_str addrs mtu s) @ ls
       \<and> (\<forall>k. tbl (world s') k = tbl (world (before_guard env run target net_str addrs mtu s)) k
            \<or> (\<exists>r y. key r = k \<and> last_delete ls r = Some y \<and> \<not> succeeded y))
       \<and> (\<forall>k. res (world s') k = res (world (before_guard env run target net_str addrs mtu s)) k
            \<or> k = dns_slot target tun \<and> dns_refused target tun ips ls))"
  by (rule tunnel_base.run_tunnel_leaves [OF assms])

theorem only_refused_commands_leave_traces_witness:
  "\<exists>s'. run_tunnel api_demo env_demo core_demo radix_api radix_api net_bit_text stuck_run Linux
        () peers_demo 51820 [NetV4 0x0A000001 24] 1420 [IpV4 0x01010101] 0
        [UdpRecv (Inr (addr_demo, [])), SigInt] host_demo = Some (Some ExitOk, s')
     \<and> (\<forall>k. rw_table (hw_routes (world s')) k = None
          \<or> (\<exists>y. last_delete (cmd_log s') k = Some y \<and> \<not> succeeded y))"
proof -
  let ?b = "before_guard env_demo stuck_run Linux net_bit_text [NetV4 0x0A000001 24] 1420 host_demo"
  obtain s' where run: "run_tunnel api_demo env_demo core_demo radix_api radix_api net_bit_text stuck_run Linux
      () peers_demo 51820 [NetV4 0x0A000001 24] 1420 [IpV4 0x01010101] 0
      [UdpRecv (Inr (addr_demo, [])), SigInt] host_demo = Some (Some ExitOk, s')"
    by (simp add: run_tunnel_def start_tunnel_def build_demo env_demo_def Let_def case_prod_beta
        on_udp_def handle_extern_def api_demo_def sess_demo_def)
  have b: "?b = host_demo"
    by (simp add: before_guard_def env_demo_def is_net_v6_def)
  have "\<forall>w k. k \<noteq> ''tun.utun5'' \<longrightarrow> hw_resolver (snd (stuck_run (resolvconf_delete ''utun5'') w)) k = hw_resolver w k"
    by (simp add: stuck_run_def host_run_def resolvconf_delete_def ref_resolver_def iface_id_def case_prod_beta)
  then have "s' = host_demo \<or> (\<exists>tun ls. tun_create env_demo (tun_configuration [NetV4 0x0A000001 24] 1420) = Inr tun
       \<and> cmd_log s' = cmd_log host_demo @ ls
       \<and> (\<forall>k. rw_table (hw_routes (world s')) k = rw_table (hw_routes (world host_demo)) k
            \<or> (\<exists>r y. r = k \<and> last_delete ls r = Some y \<and> \<not> succeeded y))
       \<and> (\<forall>k. hw_resolver (world s') k = hw_resolver (world host_demo) k
            \<or> k = dns_slot Linux tun \<and> dns_refused Linux tun [IpV4 0x01010101] ls))"
    by (intro only_refused_commands_leave_traces [OF stuck.tunnel_base_axioms _ run, unfolded b])
      (auto simp: env_demo_def one_line_def host_demo_def iface_id_def)
  with run show ?thesis
    by (intro exI [of _ s'] conjI) (auto simp: host_demo_def ref_init_def)
qed

end
