(* ===== verification/Config.thy ===== *)
theory Config
  imports PeerNet
begin

text \<open>
  \<^verbatim>\<open>smartguard/src/config.rs\<close>: from a TOML value to the configuration.

  The text is parsed by the \<^verbatim>\<open>toml\<close> crate; a \<open>toml\<close> value is what it hands to the
  deserializers, table entries in document order.  The hand-written visitors of the file are
  here as written.  The derived deserializers follow the attributes of the structures.  Of a
  table the entries are visited in order, unknown keys are skipped, a field given twice or under
  two of its names is an error, and after the last entry a missing field is an error, its
  default, or \<^verbatim>\<open>None\<close> for an optional one.  An array gives the fields in the order of their
  declaration; when it is too short, a missing field must have a default, optional or not, and
  what is too long is ignored.  A date is offered as a table with one private key.  Base64 decoding and the parsing of IP and socket addresses are in \<open>codecs\<close>.
\<close>

section \<open>Values, errors and field readers\<close>

datatype toml =
    TString string
  | TInteger int
  | TArray "toml list"
  | TTable "(string \<times> toml) list"
  | TDatetime string
  | TOther  \<comment> \<open>a float or a boolean\<close>

datatype de_error =
    Custom string
  | InvalidType string
  | InvalidValue string
  | UnknownField string
  | MissingField string
  | DuplicateField string
  | InvalidLength nat

type_synonym 'a parsed = "(de_error, 'a) outcome"

record codecs =
  base64_decode :: "string \<Rightarrow> string + u8 list"
  parse_ip :: "string \<Rightarrow> ip_addr option"
  parse_socket :: "string \<Rightarrow> socket_addr option"

fun de_string :: "toml \<Rightarrow> string parsed" where
  "de_string (TString s) = Ok s"
| "de_string _ = Err (InvalidType ''a string'')"

fun de_u16 :: "toml \<Rightarrow> u16 parsed" where
  "de_u16 (TInteger n) =
     (if 0 \<le> n \<and> n < 2 ^ 16 then Ok (word_of_int n) else Err (InvalidValue ''u16''))"
| "de_u16 _ = Err (InvalidType ''u16'')"

fun de_i32 :: "toml \<Rightarrow> int parsed" where
  "de_i32 (TInteger n) =
     (if - (2 ^ 31) \<le> n \<and> n < 2 ^ 31 then Ok n else Err (InvalidValue ''i32''))"
| "de_i32 _ = Err (InvalidType ''i32'')"

fun de_list :: "(toml \<Rightarrow> 'a parsed) \<Rightarrow> toml list \<Rightarrow> 'a list parsed" where
  "de_list de [] = Ok []"
| "de_list de (v # vs) =
     bind_outcome (de v) (\<lambda>x. bind_outcome (de_list de vs) (\<lambda>xs. Ok (x # xs)))"

fun de_vec :: "(toml \<Rightarrow> 'a parsed) \<Rightarrow> toml \<Rightarrow> 'a list parsed" where
  "de_vec de (TArray vs) = de_list de vs"
| "de_vec de _ = Err (InvalidType ''a sequence'')"

definition de_from_str :: "(string \<Rightarrow> 'a option) \<Rightarrow> toml \<Rightarrow> 'a parsed" where
  "de_from_str parse v =
     bind_outcome (de_string v) (\<lambda>s.
       case parse s of None \<Rightarrow> Err (Custom s) | Some a \<Rightarrow> Ok a)"

text \<open>A field of a derived structure: set once.\<close>

definition set_once ::
  "string \<Rightarrow> 'a option \<Rightarrow> 'a parsed \<Rightarrow> ('a option \<Rightarrow> 's) \<Rightarrow> 's parsed" where
  "set_once name old value store =
     (case old of Some _ \<Rightarrow> Err (DuplicateField name)
                | None \<Rightarrow> bind_outcome value (\<lambda>a. Ok (store (Some a))))"

fun visit_entries :: "(string \<Rightarrow> toml \<Rightarrow> 's \<Rightarrow> 's parsed) \<Rightarrow> (string \<times> toml) list \<Rightarrow> 's \<Rightarrow> 's parsed" where
  "visit_entries field [] st = Ok st"
| "visit_entries field ((k, v) # es) st =
     bind_outcome (field k v st) (visit_entries field es)"

text \<open>The table a date is offered as.\<close>

definition datetime_entries :: "string \<Rightarrow> (string \<times> toml) list" where
  "datetime_entries s = [(''$__toml_private_datetime'', TString s)]"

text \<open>A derived structure: its fields in order of declaration, each with whether it has a default,
  the reader of an entry, and what it makes of the fields read.\<close>

definition missing_position :: "(string \<times> bool) list \<Rightarrow> nat \<Rightarrow> nat option" where
  "missing_position decl n = map_option (\<lambda>i. n + i) (position (\<lambda>(name, dflt). \<not> dflt) (drop n decl))"

fun de_struct ::
  "string \<Rightarrow> (string \<times> bool) list \<Rightarrow> (string \<Rightarrow> toml \<Rightarrow> 's \<Rightarrow> 's parsed) \<Rightarrow> 's \<Rightarrow> ('s \<Rightarrow> 'a parsed)
     \<Rightarrow> toml \<Rightarrow> 'a parsed" where
  "de_struct what decl field blank finish (TTable es) =
     bind_outcome (visit_entries field es blank) finish"
| "de_struct what decl field blank finish (TDatetime s) =
     bind_outcome (visit_entries field (datetime_entries s) blank) finish"
| "de_struct what decl field blank finish (TArray vs) =
     bind_outcome (visit_entries field (zip (map fst decl) vs) blank) (\<lambda>st.
       case missing_position decl (length vs) of
         Some i \<Rightarrow> Err (InvalidLength i)
       | None \<Rightarrow> finish st)"
| "de_struct what decl field blank finish _ = Err (InvalidType what)"

definition required :: "string \<Rightarrow> 'a option \<Rightarrow> 'a parsed" where
  "required name v = (case v of None \<Rightarrow> Err (MissingField name) | Some a \<Rightarrow> Ok a)"

definition or_default :: "'a \<Rightarrow> 'a option \<Rightarrow> 'a" where
  "or_default d v = (case v of None \<Rightarrow> d | Some a \<Rightarrow> a)"

section \<open>The private key\<close>

datatype private_key_config =
    Software key
  | Smartcard string
  | SmartcardAuto

definition visit_str :: "codecs \<Rightarrow> string \<Rightarrow> private_key_config parsed" where
  "visit_str cod v =
     (case base64_decode cod v of
        Inl e \<Rightarrow> Err (Custom (''invalid base64: '' @ e))
      | Inr bytes \<Rightarrow>
          if length bytes = 32 then Ok (Software bytes)
          else Err (Custom ''private key must be exactly 32 bytes''))"

fun map_entries :: "(string \<times> toml) list \<Rightarrow> string option \<Rightarrow> string option parsed" where
  "map_entries [] smartcard = Ok smartcard"
| "map_entries ((k, v) # es) smartcard =
     (if k = ''smartcard''
      then bind_outcome (de_string v) (\<lambda>s. map_entries es (Some s))
      else Err (UnknownField k))"

definition visit_map :: "(string \<times> toml) list \<Rightarrow> private_key_config parsed" where
  "visit_map es =
     bind_outcome (map_entries es None) (\<lambda>smartcard.
     bind_outcome (required ''smartcard'' smartcard) (\<lambda>ident.
     Ok (if ident = ''auto'' then SmartcardAuto else Smartcard ident)))"

fun deserialize_private_key :: "codecs \<Rightarrow> toml \<Rightarrow> private_key_config parsed" where
  "deserialize_private_key cod (TString s) = visit_str cod s"
| "deserialize_private_key cod (TTable es) = visit_map es"
| "deserialize_private_key cod (TDatetime s) = visit_map (datetime_entries s)"
| "deserialize_private_key cod _ =
     Err (InvalidType ''a base64 WireGuard private key string, or a table with a 'smartcard' field'')"

section \<open>Smartcard settings\<close>

record smartcard_settings =
  pin_entry :: string

definition default_pin_entry :: string where
  "default_pin_entry = ''prompt''"

definition default_smartcard_settings :: smartcard_settings where
  "default_smartcard_settings = \<lparr>pin_entry = default_pin_entry\<rparr>"

definition smartcard_field :: "string \<Rightarrow> toml \<Rightarrow> string option \<Rightarrow> string option parsed" where
  "smartcard_field k v st =
     (if k = ''pin_entry'' then set_once k st (de_string v) (\<lambda>x. x) else Ok st)"

definition deserialize_smartcard_settings :: "toml \<Rightarrow> smartcard_settings parsed" where
  "deserialize_smartcard_settings =
     de_struct ''struct SmartcardSettings'' [(''pin_entry'', True)] smartcard_field None
       (\<lambda>st. Ok \<lparr>pin_entry = or_default default_pin_entry st\<rparr>)"

section \<open>The interface\<close>

record interface =
  if_private_key :: private_key_config
  if_listen_port :: "u16 option"
  if_address :: "string list"
  if_mtu :: "int option"
  if_dns :: "ip_addr list"
  if_smartcard :: smartcard_settings

fun deserialize_string_or_vec :: "toml \<Rightarrow> string list parsed" where
  "deserialize_string_or_vec (TString v) = Ok [v]"
| "deserialize_string_or_vec (TArray vs) = de_list de_string vs"
| "deserialize_string_or_vec _ = Err (InvalidType ''a string or array of strings'')"

record interface_fields =
  f_private_key :: "private_key_config option"
  f_listen_port :: "u16 option"
  f_address :: "string list option"
  f_mtu :: "int option"
  f_dns :: "ip_addr list option"
  f_smartcard :: "smartcard_settings option"

definition no_interface_fields :: interface_fields where
  "no_interface_fields =
     \<lparr>f_private_key = None, f_listen_port = None, f_address = None, f_mtu = None, f_dns = None,
      f_smartcard = None\<rparr>"

definition interface_field :: "codecs \<Rightarrow> string \<Rightarrow> toml \<Rightarrow> interface_fields \<Rightarrow> interface_fields parsed" where
  "interface_field cod k v st =
     (if k = ''private_key''
        then set_once k (f_private_key st) (deserialize_private_key cod v) (\<lambda>x. st\<lparr>f_private_key := x\<rparr>)
      else if k = ''listen_port''
        then set_once k (f_listen_port st) (de_u16 v) (\<lambda>x. st\<lparr>f_listen_port := x\<rparr>)
      else if k = ''address''
        then set_once k (f_address st) (deserialize_string_or_vec v) (\<lambda>x. st\<lparr>f_address := x\<rparr>)
      else if k = ''mtu'' \<or> k = ''MTU''
        then set_once ''mtu'' (f_mtu st) (de_i32 v) (\<lambda>x. st\<lparr>f_mtu := x\<rparr>)
      else if k = ''dns'' \<or> k = ''DNS''
        then set_once ''dns'' (f_dns st) (de_vec (de_from_str (parse_ip cod)) v) (\<lambda>x. st\<lparr>f_dns := x\<rparr>)
      else if k = ''smartcard''
        then set_once k (f_smartcard st) (deserialize_smartcard_settings v) (\<lambda>x. st\<lparr>f_smartcard := x\<rparr>)
      else Ok st)"

definition finish_interface :: "interface_fields \<Rightarrow> interface parsed" where
  "finish_interface st =
     bind_outcome (required ''private_key'' (f_private_key st)) (\<lambda>k. Ok
       \<lparr>if_private_key = k, if_listen_port = f_listen_port st,
        if_address = or_default [] (f_address st), if_mtu = f_mtu st,
        if_dns = or_default [] (f_dns st),
        if_smartcard = or_default default_smartcard_settings (f_smartcard st)\<rparr>)"

definition deserialize_interface :: "codecs \<Rightarrow> toml \<Rightarrow> interface parsed" where
  "deserialize_interface cod =
     de_struct ''struct Interface''
       [(''private_key'', False), (''listen_port'', False), (''address'', True), (''mtu'', False),
        (''dns'', True), (''smartcard'', True)]
       (interface_field cod) no_interface_fields finish_interface"

section \<open>Peers\<close>

record peer =
  p_public_key :: key
  p_preshared_key :: "key option"
  p_endpoint :: "socket_addr option"
  p_allowed_ips :: "string list"
  p_persistent_keepalive :: "u16 option"

definition decode_key :: "codecs \<Rightarrow> string \<Rightarrow> key parsed" where
  "decode_key cod s =
     (case base64_decode cod s of
        Inl e \<Rightarrow> Err (Custom (''invalid base64: '' @ e))
      | Inr bytes \<Rightarrow>
          if length bytes = 32 then Ok bytes else Err (Custom ''key must be exactly 32 bytes''))"

definition deserialize_key_base64 :: "codecs \<Rightarrow> toml \<Rightarrow> key parsed" where
  "deserialize_key_base64 cod v = bind_outcome (de_string v) (decode_key cod)"

text \<open>TOML has no null: a value that is present is \<^verbatim>\<open>Some\<close>.\<close>

definition deserialize_option_key_base64 :: "codecs \<Rightarrow> toml \<Rightarrow> key option parsed" where
  "deserialize_option_key_base64 cod v =
     bind_outcome (de_string v) (\<lambda>s. bind_outcome (decode_key cod s) (\<lambda>k. Ok (Some k)))"

record peer_fields =
  f_public_key :: "key option"
  f_preshared_key :: "key option option"
  f_endpoint :: "socket_addr option"
  f_allowed_ips :: "string list option"
  f_persistent_keepalive :: "u16 option"

definition no_peer_fields :: peer_fields where
  "no_peer_fields =
     \<lparr>f_public_key = None, f_preshared_key = None, f_endpoint = None, f_allowed_ips = None,
      f_persistent_keepalive = None\<rparr>"

definition peer_field :: "codecs \<Rightarrow> string \<Rightarrow> toml \<Rightarrow> peer_fields \<Rightarrow> peer_fields parsed" where
  "peer_field cod k v st =
     (if k = ''public_key''
        then set_once k (f_public_key st) (deserialize_key_base64 cod v) (\<lambda>x. st\<lparr>f_public_key := x\<rparr>)
      else if k = ''preshared_key''
        then set_once k (f_preshared_key st) (deserialize_option_key_base64 cod v)
               (\<lambda>x. st\<lparr>f_preshared_key := x\<rparr>)
      else if k = ''endpoint''
        then set_once k (f_endpoint st) (de_from_str (parse_socket cod) v) (\<lambda>x. st\<lparr>f_endpoint := x\<rparr>)
      else if k = ''allowed_ips''
        then set_once k (f_allowed_ips st) (de_vec de_string v) (\<lambda>x. st\<lparr>f_allowed_ips := x\<rparr>)
      else if k = ''persistent_keepalive''
        then set_once k (f_persistent_keepalive st) (de_u16 v) (\<lambda>x. st\<lparr>f_persistent_keepalive := x\<rparr>)
      else Ok st)"

definition finish_peer :: "peer_fields \<Rightarrow> peer parsed" where
  "finish_peer st =
     bind_outcome (required ''public_key'' (f_public_key st)) (\<lambda>k. Ok
       \<lparr>p_public_key = k, p_preshared_key = or_default None (f_preshared_key st),
        p_endpoint = f_endpoint st, p_allowed_ips = or_default [] (f_allowed_ips st),
        p_persistent_keepalive = f_persistent_keepalive st\<rparr>)"

definition deserialize_peer :: "codecs \<Rightarrow> toml \<Rightarrow> peer parsed" where
  "deserialize_peer cod =
     de_struct ''struct Peer''
       [(''public_key'', False), (''preshared_key'', True), (''endpoint'', False), (''allowed_ips'', True),
        (''persistent_keepalive'', False)]
       (peer_field cod) no_peer_fields finish_peer"

section \<open>The file\<close>

record config =
  c_interface :: interface
  c_peers :: "peer list"

definition config_field ::
  "codecs \<Rightarrow> string \<Rightarrow> toml \<Rightarrow> interface option \<times> peer list option
     \<Rightarrow> (interface option \<times> peer list option) parsed" where
  "config_field cod k v st =
     (if k = ''interface''
        then set_once k (fst st) (deserialize_interface cod v) (\<lambda>x. (x, snd st))
      else if k = ''peer''
        then set_once k (snd st) (de_vec (deserialize_peer cod) v) (\<lambda>x. (fst st, x))
      else Ok st)"

definition deserialize_config :: "codecs \<Rightarrow> toml \<Rightarrow> config parsed" where
  "deserialize_config cod =
     de_struct ''struct Config'' [(''interface'', False), (''peer'', True)] (config_field cod) (None, None)
       (\<lambda>(i, ps). bind_outcome (required ''interface'' i) (\<lambda>i. Ok
          \<lparr>c_interface = i, c_peers = or_default [] ps\<rparr>))"

datatype parse_error = Syntax string | De de_error

datatype config_error = Io string | Parse parse_error

definition from_str :: "(string \<Rightarrow> string + toml) \<Rightarrow> codecs \<Rightarrow> string \<Rightarrow> (config_error, config) outcome" where
  "from_str toml_parse cod s =
     (case toml_parse s of
        Inl e \<Rightarrow> Err (Parse (Syntax e))
      | Inr v \<Rightarrow> map_err (\<lambda>e. Parse (De e)) (deserialize_config cod v))"

text \<open>The path enters through what reading the file returned.\<close>

definition from_file ::
  "(string \<Rightarrow> string + toml) \<Rightarrow> codecs \<Rightarrow> string + string \<Rightarrow> (config_error, config) outcome" where
  "from_file toml_parse cod content =
     (case content of Inl e \<Rightarrow> Err (Io e) | Inr s \<Rightarrow> from_str toml_parse cod s)"

fun config_error_string :: "(parse_error \<Rightarrow> string) \<Rightarrow> config_error \<Rightarrow> string" where
  "config_error_string show_parse (Io e) = ''config I/O error: '' @ e"
| "config_error_string show_parse (Parse e) = ''config parse error: '' @ show_parse e"

end
