(* ===== verification/CardThread.thy ===== *)
theory CardThread
  imports PeerNet
begin

text \<open>
  \<^verbatim>\<open>smartguard-crypto/src/thread.rs\<close>: the thread that owns the OpenPGP card.

  Card, reader and transaction are types of other crates; a \<open>pcsc\<close> holds the calls the code
  makes on them, each a function of an unknown world that returns an error text (\<open>Inl\<close>) or a
  value (\<open>Inr\<close>).  The three calls a card owner cares about, scanning the readers, verifying
  the PIN and deciphering, are logged.  A program may also end in the panic of an
  \<^verbatim>\<open>expect\<close>, the third constructor of \<open>outcome\<close>.
\<close>

section \<open>Errors and the card interface\<close>

datatype smartcard_error =
    CardNotFound string
  | NoDecryptionKey
  | PinFailed string
  | DhFailed string
  | CardError string
  | ZeroSharedSecret
  | QueueFull

datatype key_material = E "u8 list" | OtherMaterial

record ('b, 'c, 't, 'w) pcsc =
  cards :: "'w \<Rightarrow> (string + (string + 'b) list) \<times> 'w"
  card_new :: "'b \<Rightarrow> 'w \<Rightarrow> (string + 'c) \<times> 'w"
  transaction :: "'c \<Rightarrow> 'w \<Rightarrow> (string + 't) \<times> 'w"
  application_identifier :: "'t \<Rightarrow> 'w \<Rightarrow> (string + string) \<times> 'w"
  public_key_material :: "'t \<Rightarrow> 'w \<Rightarrow> (string + key_material) \<times> 'w"
  verify_user_pin :: "'t \<Rightarrow> string \<Rightarrow> 'w \<Rightarrow> (string + unit) \<times> 'w"
  decipher :: "'t \<Rightarrow> key \<Rightarrow> 'w \<Rightarrow> (string + u8 list) \<times> 'w"

datatype card_op = OpScan | OpVerify | OpDecipher

record 'w card_sys =
  op_log :: "card_op list"
  card_world :: 'w

type_synonym ('w, 'a) card_prog = "('w card_sys, (smartcard_error, 'a) outcome) state"

text \<open>A call on the card, unlogged or logged, and the mapping of its error.\<close>

definition quiet :: "('w \<Rightarrow> 'a \<times> 'w) \<Rightarrow> ('w card_sys, 'a) state" where
  "quiet f = State (\<lambda>s. case f (card_world s) of (r, w') \<Rightarrow> (r, s\<lparr>card_world := w'\<rparr>))"

definition perform :: "card_op \<Rightarrow> ('w \<Rightarrow> 'a \<times> 'w) \<Rightarrow> ('w card_sys, 'a) state" where
  "perform op f = State (\<lambda>s. case f (card_world s) of
     (r, w') \<Rightarrow> (r, s\<lparr>op_log := op_log s @ [op], card_world := w'\<rparr>))"

fun or_err :: "(string \<Rightarrow> smartcard_error) \<Rightarrow> string + 'a \<Rightarrow> (smartcard_error, 'a) outcome" where
  "or_err f (Inl e) = Err (f e)"
| "or_err f (Inr a) = Ok a"

definition call :: "(string \<Rightarrow> smartcard_error) \<Rightarrow> ('w card_sys, string + 'a) state \<Rightarrow> ('w, 'a) card_prog" where
  "call f m = do { r \<leftarrow> m; State_Monad.return (or_err f r) }"

text \<open>\<^verbatim>\<open>.ok()?\<close> in a function that returns an option, and \<^verbatim>\<open>else continue\<close> in a loop.\<close>

definition ok_then ::
  "('w card_sys, string + 'a) state \<Rightarrow> ('a \<Rightarrow> ('w card_sys, 'r option) state)
     \<Rightarrow> ('w card_sys, 'r option) state" where
  "ok_then m f = do {
     r \<leftarrow> m;
     (case r of Inl _ \<Rightarrow> State_Monad.return None | Inr a \<Rightarrow> f a)
   }"

section \<open>Opening the card\<close>

definition MAX_HANDSHAKE_REQUEST :: nat where
  "MAX_HANDSHAKE_REQUEST = 32"

definition select_material ::
  "string \<Rightarrow> string + key_material \<Rightarrow> 'c \<Rightarrow> string
     \<Rightarrow> (smartcard_error, 'c \<times> string) outcome option" where
  "select_material requested_ident material crd card_ident =
     (case material of
        Inr (E ecc) \<Rightarrow>
          if length ecc \<ge> 32 then Some (Ok (crd, card_ident))
          else if requested_ident = ''auto'' then None else Some (Err NoDecryptionKey)
      | _ \<Rightarrow> if requested_ident = ''auto'' then None else Some (Err NoDecryptionKey))"

definition try_backend ::
  "('b, 'c, 't, 'w) pcsc \<Rightarrow> string \<Rightarrow> string + 'b
     \<Rightarrow> ('w card_sys, (smartcard_error, 'c \<times> string) outcome option) state" where
  "try_backend P requested_ident backend =
     ok_then (State_Monad.return backend) (\<lambda>b.
     ok_then (quiet (card_new P b)) (\<lambda>crd.
     ok_then (quiet (transaction P crd)) (\<lambda>tx.
     ok_then (quiet (application_identifier P tx)) (\<lambda>card_ident.
       if requested_ident \<noteq> ''auto'' \<and> requested_ident \<noteq> card_ident
       then State_Monad.return None
       else do {
         material \<leftarrow> quiet (public_key_material P tx);
         State_Monad.return (select_material requested_ident material crd card_ident)
       }))))"

fun find_card ::
  "('b, 'c, 't, 'w) pcsc \<Rightarrow> string \<Rightarrow> (string + 'b) list
     \<Rightarrow> ('w card_sys, (smartcard_error, 'c \<times> string) outcome option) state" where
  "find_card P requested_ident [] = State_Monad.return None"
| "find_card P requested_ident (b # bs) = do {
     r \<leftarrow> try_backend P requested_ident b;
     (case r of Some x \<Rightarrow> State_Monad.return (Some x) | None \<Rightarrow> find_card P requested_ident bs)
   }"

definition open_and_verify ::
  "('b, 'c, 't, 'w) pcsc \<Rightarrow> string \<Rightarrow> string \<Rightarrow> ('w, 'c \<times> string) card_prog" where
  "open_and_verify P requested_ident pin =
     and_then (call CardError (perform OpScan (cards P))) (\<lambda>backends.
     and_then (do {
         found \<leftarrow> find_card P requested_ident backends;
         State_Monad.return (case found of None \<Rightarrow> Err (CardNotFound requested_ident) | Some r \<Rightarrow> r)
       }) (\<lambda>(crd, card_ident).
     and_then (do {
         t \<leftarrow> quiet (transaction P crd);
         State_Monad.return (case t of Inl _ \<Rightarrow> Panic ''card available'' | Inr tx \<Rightarrow> Ok tx)
       }) (\<lambda>tx.
     and_then (call PinFailed (perform OpVerify (verify_user_pin P tx pin))) (\<lambda>_.
     State_Monad.return (Ok (crd, card_ident))))))"

section \<open>One Diffie-Hellman operation\<close>

definition try_decipher ::
  "('b, 'c, 't, 'w) pcsc \<Rightarrow> 'c \<Rightarrow> string \<Rightarrow> key \<Rightarrow> ('w, key) card_prog" where
  "try_decipher P crd pin peer_pk =
     and_then (call CardError (quiet (transaction P crd))) (\<lambda>tx.
     and_then (call PinFailed (perform OpVerify (verify_user_pin P tx pin))) (\<lambda>_.
     and_then (call DhFailed (perform OpDecipher (decipher P tx peer_pk))) (\<lambda>ss.
     State_Monad.return
       (if length ss < 32 then Err (DhFailed ''DECIPHER returned <32 bytes'')
        else let key = take 32 ss in
          if foldl or 0 key = 0 then Err ZeroSharedSecret else Ok key))))"

text \<open>\<^verbatim>\<open>reconnect\<close> replaces the card only when it returns \<^verbatim>\<open>Ok\<close>; here it returns the new card.\<close>

definition reconnect_one ::
  "('b, 'c, 't, 'w) pcsc \<Rightarrow> string \<Rightarrow> string + 'b \<Rightarrow> ('w card_sys, 'c option) state" where
  "reconnect_one P ident backend =
     ok_then (State_Monad.return backend) (\<lambda>b.
     ok_then (quiet (card_new P b)) (\<lambda>new_card.
     ok_then (quiet (transaction P new_card)) (\<lambda>tx.
     ok_then (quiet (application_identifier P tx)) (\<lambda>ai.
     State_Monad.return (if ai = ident then Some new_card else None)))))"

fun reconnect_loop ::
  "('b, 'c, 't, 'w) pcsc \<Rightarrow> string \<Rightarrow> (string + 'b) list \<Rightarrow> ('w, 'c) card_prog" where
  "reconnect_loop P ident [] = State_Monad.return (Err (CardNotFound ident))"
| "reconnect_loop P ident (b # bs) = do {
     r \<leftarrow> reconnect_one P ident b;
     (case r of Some c \<Rightarrow> State_Monad.return (Ok c) | None \<Rightarrow> reconnect_loop P ident bs)
   }"

definition reconnect :: "('b, 'c, 't, 'w) pcsc \<Rightarrow> string \<Rightarrow> ('w, 'c) card_prog" where
  "reconnect P ident =
     and_then (call CardError (perform OpScan (cards P))) (reconnect_loop P ident)"

text \<open>The result and the card held afterwards.\<close>

definition decipher_with_retry ::
  "('b, 'c, 't, 'w) pcsc \<Rightarrow> 'c \<Rightarrow> string \<Rightarrow> string \<Rightarrow> key
     \<Rightarrow> ('w card_sys, (smartcard_error, key) outcome \<times> 'c) state" where
  "decipher_with_retry P crd ident pin peer_pk = do {
     r \<leftarrow> try_decipher P crd pin peer_pk;
     (case r of
        Err _ \<Rightarrow> do {
          c \<leftarrow> reconnect P ident;
          (case c of
             Ok crd' \<Rightarrow> do {
               r' \<leftarrow> try_decipher P crd' pin peer_pk;
               State_Monad.return (r', crd')
             }
           | Err e \<Rightarrow> State_Monad.return (Err e, crd)
           | Panic m \<Rightarrow> State_Monad.return (Panic m, crd))
        }
      | _ \<Rightarrow> State_Monad.return (r, crd))
   }"

section \<open>The request loop\<close>

datatype request = Dh key | PubKey

datatype reply = DhReply "(smartcard_error, key) outcome" | PubKeyReply key

text \<open>The reply sent, if any, and the card held afterwards.\<close>

fun serve ::
  "('b, 'c, 't, 'w) pcsc \<Rightarrow> string \<Rightarrow> string \<Rightarrow> 'c \<Rightarrow> request
     \<Rightarrow> ('w card_sys, reply option \<times> 'c) state" where
  "serve P ident pin crd (Dh peer_pk) = do {
     (result, crd') \<leftarrow> decipher_with_retry P crd ident pin peer_pk;
     State_Monad.return (Some (DhReply result), crd')
   }"
| "serve P ident pin crd PubKey = do {
     r \<leftarrow> ok_then (quiet (transaction P crd)) (\<lambda>tx.
            ok_then (quiet (public_key_material P tx)) (\<lambda>material.
              State_Monad.return
                (case material of
                   E ecc \<Rightarrow> if length ecc < 32 then None else Some (PubKeyReply (take 32 ecc))
                 | OtherMaterial \<Rightarrow> None)));
     State_Monad.return (r, crd)
   }"

text \<open>The loop of \<^verbatim>\<open>run\<close> over the requests taken from the queue: the replies, in order, and
  the card held afterwards.\<close>

fun serve_all ::
  "('b, 'c, 't, 'w) pcsc \<Rightarrow> string \<Rightarrow> string \<Rightarrow> 'c \<Rightarrow> request list
     \<Rightarrow> ('w card_sys, reply option list \<times> 'c) state" where
  "serve_all P ident pin crd [] = State_Monad.return ([], crd)"
| "serve_all P ident pin crd (req # reqs) = do {
     (r, crd') \<leftarrow> serve P ident pin crd req;
     (rs, crd'') \<leftarrow> serve_all P ident pin crd' reqs;
     State_Monad.return (r # rs, crd'')
   }"

text \<open>\<^verbatim>\<open>spawn_card_thread\<close>: what its caller gets once the thread has tried to open the card; a
  panic of the thread drops the channel it would have answered on.\<close>

definition spawn_card_thread ::
  "('b, 'c, 't, 'w) pcsc \<Rightarrow> string + unit \<Rightarrow> string \<Rightarrow> string \<Rightarrow> ('w, 'c \<times> string) card_prog" where
  "spawn_card_thread P spawned requested_ident pin =
     (case spawned of
        Inl e \<Rightarrow> State_Monad.return (Err (CardError (''spawn thread: '' @ e)))
      | Inr _ \<Rightarrow> do {
          r \<leftarrow> open_and_verify P requested_ident pin;
          State_Monad.return
            (case r of Panic _ \<Rightarrow> Err (CardError ''card thread exited before ready'') | _ \<Rightarrow> r)
        })"

section \<open>What a program does to the log\<close>

text \<open>
  \<open>emits m Q\<close>: whatever the world, \<open>m\<close> with result \<open>r\<close> appends a list \<open>es\<close> of operations
  with \<open>Q r es\<close> to the log.  One rule per construct, so that the log of a whole operation is
  read off its text.
\<close>

definition emits :: "('w card_sys, 'a) state \<Rightarrow> ('a \<Rightarrow> card_op list \<Rightarrow> bool) \<Rightarrow> bool" where
  "emits m Q \<longleftrightarrow> (\<forall>s. \<exists>es. op_log (snd (run_state m s)) = op_log s @ es \<and> Q (fst (run_state m s)) es)"

lemma run_quiet [simp]:
  "run_state (quiet f) s = (fst (f (card_world s)), s\<lparr>card_world := snd (f (card_world s))\<rparr>)"
  by (simp add: quiet_def case_prod_beta)

lemma run_perform [simp]:
  "run_state (perform op f) s =
     (fst (f (card_world s)),
      s\<lparr>op_log := op_log s @ [op], card_world := snd (f (card_world s))\<rparr>)"
  by (simp add: perform_def case_prod_beta)

lemma emits_return [log_intros]: "Q a [] \<Longrightarrow> emits (State_Monad.return a) Q"
  by (simp add: emits_def)

lemma emits_quiet [log_intros]: "(\<And>r. Q r []) \<Longrightarrow> emits (quiet f) Q"
  by (simp add: emits_def)

lemma emits_perform [log_intros]: "(\<And>r. Q r [op]) \<Longrightarrow> emits (perform op f) Q"
  by (simp add: emits_def)

lemma emits_mono: "emits m Q \<Longrightarrow> (\<And>r es. Q r es \<Longrightarrow> R r es) \<Longrightarrow> emits m R"
  unfolding emits_def by blast

lemma emits_bind:
  assumes "emits m Q" and "\<And>a es. Q a es \<Longrightarrow> emits (f a) (\<lambda>b fs. R b (es @ fs))"
  shows "emits (State_Monad.bind m f) R"
  unfolding emits_def
proof
  fix s
  obtain a s' where m: "run_state m s = (a, s')" by fastforce
  then obtain es where es: "op_log s' = op_log s @ es" "Q a es"
    using assms(1) by (force simp: emits_def dest: spec [of _ s])
  obtain fs where "op_log (snd (run_state (f a) s')) = op_log s' @ fs"
      "R (fst (run_state (f a) s')) (es @ fs)"
    using assms(2) [OF es(2)] by (force simp: emits_def)
  with es(1) m show "\<exists>es. op_log (snd (run_state (State_Monad.bind m f) s)) = op_log s @ es
      \<and> R (fst (run_state (State_Monad.bind m f) s)) es"
    by (intro exI [of _ "es @ fs"]) simp
qed

lemma emits_and_then:
  assumes "emits m Q"
    and "\<And>a es. Q (Ok a) es \<Longrightarrow> emits (f a) (\<lambda>b fs. R b (es @ fs))"
    and "\<And>e es. Q (Err e) es \<Longrightarrow> R (Err e) es"
    and "\<And>msg es. Q (Panic msg) es \<Longrightarrow> R (Panic msg) es"
  shows "emits (and_then m f) R"
  unfolding and_then_def
  by (rule emits_bind [OF assms(1)])
    (auto split: outcome.split intro!: assms(2-4) emits_return)

lemma emits_call:
  assumes "emits m (\<lambda>r. Q (or_err f r))"
  shows "emits (call f m) Q"
  unfolding call_def by (rule emits_bind [OF assms]) (auto intro: emits_return)

lemma emits_ok_then:
  assumes "emits m (\<lambda>r es. es = [])" and "R None []" and "\<And>a. emits (f a) R"
  shows "emits (ok_then m f) R"
  unfolding ok_then_def
  by (rule emits_bind [OF assms(1)]) (auto split: sum.split intro: emits_return assms(2,3))

lemma emitsD:
  assumes "emits m Q" and "run_state m s = (r, s')"
  obtains es where "op_log s' = op_log s @ es" and "Q r es"
  using assms by (force simp: emits_def dest: spec [of _ s])

lemma call_perform: 
  "(\<And>e. Q (Err (g e)) [op]) \<Longrightarrow> (\<And>a. Q (Ok a) [op]) \<Longrightarrow> emits (call g (perform op f)) Q"
  by (rule emits_call, rule emits_perform) (case_tac r, auto)

lemma call_quiet:
  "(\<And>e. Q (Err (g e)) []) \<Longrightarrow> (\<And>a. Q (Ok a) []) \<Longrightarrow> emits (call g (quiet f)) Q"
  by (rule emits_call, rule emits_quiet) (case_tac r, auto)

lemma quiet_silent: "emits (quiet f) (\<lambda>r es. es = [])"
  by (simp add: emits_def)

lemma return_silent: "emits (State_Monad.return a) (\<lambda>r es. es = [])"
  by (simp add: emits_def)

text \<open>Looking at a reader, and walking over all of them, performs nothing that is logged.\<close>

lemma try_backend_silent: "emits (try_backend P requested_ident b) (\<lambda>r es. es = [])"
  unfolding try_backend_def
  by (intro emits_ok_then quiet_silent return_silent)
    (auto intro!: return_silent emits_bind [OF quiet_silent] emits_return)

lemma find_card_silent: "emits (find_card P requested_ident bs) (\<lambda>r es. es = [])"
proof (induction bs)
  case Nil
  then show ?case by (simp add: return_silent)
next
  case (Cons b bs)
  then show ?case
    by (auto intro!: emits_bind [OF try_backend_silent] return_silent split: option.split)
qed

lemma reconnect_one_silent: "emits (reconnect_one P ident b) (\<lambda>r es. es = [])"
  unfolding reconnect_one_def
  by (intro emits_ok_then quiet_silent return_silent) auto

lemma reconnect_loop_silent: "emits (reconnect_loop P ident bs) (\<lambda>r es. es = [])"
proof (induction bs)
  case Nil
  then show ?case by (simp add: return_silent)
next
  case (Cons b bs)
  then show ?case
    by (auto intro!: emits_bind [OF reconnect_one_silent] return_silent split: option.split)
qed

lemma reconnect_emits: "emits (reconnect P ident) (\<lambda>r es. es = [OpScan])"
  unfolding reconnect_def
  by (rule emits_and_then [where Q = "\<lambda>r es. es = [OpScan]"])
    (auto intro!: call_perform emits_mono [OF reconnect_loop_silent])

definition decipher_log :: "(smartcard_error, key) outcome \<Rightarrow> card_op list \<Rightarrow> bool" where
  "decipher_log r es \<longleftrightarrow>
     es \<in> {[], [OpVerify], [OpVerify, OpDecipher]}
     \<and> (case r of Ok k \<Rightarrow> es = [OpVerify, OpDecipher] | _ \<Rightarrow> True)"

lemma try_decipher_emits: "emits (try_decipher P crd pin pk) decipher_log"
  unfolding try_decipher_def
  apply (rule emits_and_then [where Q = "\<lambda>r es. es = []"])
     apply (rule call_quiet; simp)
    apply (rule emits_and_then [where Q = "\<lambda>r es. es = [OpVerify]"])
       apply (rule call_perform; simp)
      apply (rule emits_and_then [where Q = "\<lambda>r es. es = [OpDecipher]"])
         apply (rule call_perform; simp)
        apply (rule emits_return)
  by (auto simp: decipher_log_def Let_def)

end
