(* ===== verification/CardProps.thy ===== *)
theory CardProps
  imports CardThread
begin

text \<open>
  What the card thread guarantees.  The locale \<open>openpgp\<close> is the contract of a card stack: a
  transaction speaks for the identity of its card, and DECIPHER returns that identity's
  Diffie-Hellman value.  Its client is the card thread; it is interpreted on a simulated card
  with a PIN retry counter that another process may take over.
\<close>

section \<open>The contract of a card stack\<close>

locale openpgp =
  fixes P :: "('b, 'c, 't, 'w) pcsc"
    and holder :: "'c \<Rightarrow> string"
    and speaker :: "'t \<Rightarrow> string"
    and ecdh :: "string \<Rightarrow> key \<Rightarrow> key"
  assumes tx_speaks: "transaction P c w = (Inr t, w') \<Longrightarrow> speaker t = holder c"
    and names: "application_identifier P t w = (Inr i, w') \<Longrightarrow> i = speaker t"
    and deciphers: "decipher P t pk w = (Inr ss, w') \<Longrightarrow> 32 \<le> length ss \<Longrightarrow>
          take 32 ss = ecdh (speaker t) pk"
begin

lemma try_decipher_sound:
  assumes "run_state (try_decipher P c pin pk) s = (Ok k, s')"
  shows "k = ecdh (holder c) pk"
  using assms tx_speaks [of c "card_world s"] deciphers
  by (auto simp: try_decipher_def run_and_then call_def Let_def not_less
        split: prod.splits outcome.splits if_splits sum.splits elim!: or_err.elims) 
    (metis eq_fst_iff)+

lemma reconnect_one_holder:
  assumes "run_state (reconnect_one P i b) s = (Some c, s')"
  shows "holder c = i"
  using assms
  by (auto simp: reconnect_one_def ok_then_def split: prod.splits sum.splits if_splits)
    (metis eq_fst_iff tx_speaks names)+

lemma reconnect_loop_holder:
  "run_state (reconnect_loop P i bs) s = (Ok c, s') \<Longrightarrow> holder c = i"
  by (induction bs arbitrary: s)
    (auto split: prod.splits option.splits dest: reconnect_one_holder)

lemma reconnect_holder:
  assumes "run_state (reconnect P i) s = (Ok c, s')"
  shows "holder c = i"
  using assms unfolding reconnect_def run_and_then
  by (auto split: prod.splits outcome.splits dest: reconnect_loop_holder)

lemma decipher_with_retry_sound:
  assumes "run_state (decipher_with_retry P c i pin pk) s = ((r, c'), s')" and "holder c = i"
  shows "holder c' = i \<and> (\<forall>k. r = Ok k \<longrightarrow> k = ecdh i pk)"
  using assms unfolding decipher_with_retry_def
  by (auto split: prod.splits outcome.splits dest: try_decipher_sound reconnect_holder)
    (metis try_decipher_sound reconnect_holder)

lemma serve_sound:
  assumes "run_state (serve P i pin c req) s = ((r, c'), s')" and "holder c = i"
  shows "holder c' = i
    \<and> (\<forall>k. r = Some (DhReply (Ok k)) \<longrightarrow> (\<exists>pk. req = Dh pk \<and> k = ecdh i pk))"
  using assms
  by (cases req)
    (auto split: prod.splits sum.splits key_material.splits if_splits simp: ok_then_def
      dest: decipher_with_retry_sound)

lemma serve_all_sound:
  assumes "run_state (serve_all P i pin c reqs) s = ((rs, c'), s')" and "holder c = i"
  shows "holder c' = i \<and> list_all2 (\<lambda>req r. \<forall>k. r = Some (DhReply (Ok k)) \<longrightarrow>
           (\<exists>pk. req = Dh pk \<and> k = ecdh i pk)) reqs rs"
  using assms
proof (induction reqs arbitrary: c s rs)
  case Nil
  then show ?case by simp
next
  case (Cons req reqs)
  obtain r c1 s1 where one: "run_state (serve P i pin c req) s = ((r, c1), s1)"
    by (metis prod.exhaust)
  obtain rs1 c2 s2 where rest: "run_state (serve_all P i pin c1 reqs) s1 = ((rs1, c2), s2)"
    by (metis prod.exhaust)
  have "rs = r # rs1" "c' = c2"
    using Cons.prems one rest by simp_all
  with Cons.IH [OF _ conjunct1 [OF serve_sound [OF one Cons.prems(2)]]] rest
    serve_sound [OF one Cons.prems(2)]
  show ?case using Cons.prems one by auto
qed

lemma try_backend_holder:
  assumes "run_state (try_backend P q b) s = (Some (Ok (c, i)), s')"
  shows "holder c = i \<and> (q = ''auto'' \<or> q = i)"
  using assms
  by (auto simp: try_backend_def ok_then_def select_material_def
      split: prod.splits sum.splits if_splits key_material.splits)
    (metis eq_fst_iff tx_speaks names)+

lemma find_card_holder:
  assumes "run_state (find_card P q bs) s = (Some (Ok (c, i)), s')"
  shows "holder c = i \<and> (q = ''auto'' \<or> q = i)"
  using assms
  by (induction bs arbitrary: s)
    (auto split: prod.splits option.splits dest: try_backend_holder)

lemma open_holder:
  assumes "run_state (open_and_verify P q pin) s = (Ok (c, i), s')"
  shows "holder c = i \<and> (q = ''auto'' \<or> q = i)"
  using assms unfolding open_and_verify_def
  by (auto simp: run_and_then split: prod.splits outcome.splits option.splits sum.splits
      dest: find_card_holder)

end

section \<open>A simulated card stack\<close>

text \<open>
  Readers named by their identities, a PIN with a retry counter, and a generation that changes
  whenever another process takes the card: an older handle then fails until it is reopened.
\<close>

record sim =
  sim_gen :: nat
  sim_tries :: nat

definition sim_api ::
  "(string \<Rightarrow> key \<Rightarrow> key) \<Rightarrow> string \<Rightarrow> string list \<Rightarrow> (string, string \<times> nat, string, sim) pcsc" where
  "sim_api dh pin ids = \<lparr>
     cards = (\<lambda>w. (Inr (map Inr ids), w)),
     card_new = (\<lambda>b w. (Inr (b, sim_gen w), w)),
     transaction = (\<lambda>c w. (if snd c = sim_gen w then Inr (fst c) else Inl ''reset'', w)),
     application_identifier = (\<lambda>t w. (Inr t, w)),
     public_key_material = (\<lambda>t w. (Inr (E (dh t (9 # replicate 31 0))), w)),
     verify_user_pin = (\<lambda>t p w.
       if sim_tries w = 0 then (Inl ''blocked'', w)
       else if p = pin then (Inr (), w\<lparr>sim_tries := 3\<rparr>)
       else (Inl ''wrong PIN'', w\<lparr>sim_tries := sim_tries w - 1\<rparr>)),
     decipher = (\<lambda>t pk w. (Inr (dh t pk), w))\<rparr>"

interpretation sim: openpgp "sim_api dh pin ids" fst "\<lambda>t. t" "\<lambda>i pk. take 32 (dh i pk)"
  by unfold_locales (auto simp: sim_api_def split: if_splits)

text \<open>A concrete card that mixes a peer key with the length of its identity.\<close>

definition mix :: "string \<Rightarrow> key \<Rightarrow> key" where
  "mix i pk = map (\<lambda>b. b + word_of_nat (length i)) pk"

definition pk_demo :: key where
  "pk_demo = 9 # replicate 31 0"

definition sim_start :: "nat \<Rightarrow> nat \<Rightarrow> sim card_sys" where
  "sim_start gen tries = \<lparr>op_log = [], card_world = \<lparr>sim_gen = gen, sim_tries = tries\<rparr>\<rparr>"

lemmas sim_run = sim_api_def sim_start_def run_and_then call_def ok_then_def mix_def

section \<open>One Diffie-Hellman operation\<close>

lemma foldl_or_zero: "foldl or (a :: u8) xs = 0 \<longleftrightarrow> a = 0 \<and> (\<forall>x\<in>set xs. x = 0)"
  by (induction xs arbitrary: a) (auto simp: or_eq_0_iff)

lemma try_decipher_valid:
  assumes "run_state (try_decipher P c pin pk) s = (Ok k, s')"
  shows "length k = 32 \<and> (\<exists>x\<in>set k. x \<noteq> 0)"
  using assms
  by (auto simp: try_decipher_def run_and_then call_def Let_def not_less foldl_or_zero
        split: prod.splits outcome.splits if_splits)

lemma try_decipher_no_panic:
  "fst (run_state (try_decipher P c pin pk) s) \<noteq> Panic m"
  by (auto simp: try_decipher_def run_and_then call_def Let_def
        split: prod.split outcome.split elim!: or_err.elims)

lemma reconnect_loop_no_panic: "fst (run_state (reconnect_loop P i bs) s) \<noteq> Panic m"
  by (induction bs arbitrary: s) (auto split: prod.split option.split)

lemma reconnect_no_panic: "run_state (reconnect P i) s \<noteq> (Panic m, s')"
  using reconnect_loop_no_panic [of P i _ _ m]
  by (auto simp: reconnect_def run_and_then call_def split: prod.splits outcome.splits
      elim!: or_err.elims) (metis fst_conv)+

lemma decipher_with_retry_valid:
  assumes "run_state (decipher_with_retry P c i pin pk) s = ((Ok k, c'), s')"
  shows "length k = 32 \<and> (\<exists>x\<in>set k. x \<noteq> 0)"
  using assms unfolding decipher_with_retry_def
  by (auto split: prod.splits outcome.splits dest: try_decipher_valid)

definition ss_demo :: key where
  "ss_demo = map (\<lambda>b. b + 1) pk_demo"

lemma ss_demo [simp]: "length ss_demo = 32" "foldl or 0 ss_demo \<noteq> 0" "length pk_demo = 32"
  by (simp_all only: ss_demo_def pk_demo_def foldl_or_zero) simp_all

lemma mix_demo [simp]: "map (\<lambda>b. b + 1) pk_demo = ss_demo"
  by (simp add: ss_demo_def)

text \<open>C24: Every shared secret the card thread hands out is the right one.  Over a card stack that
  keeps its contract, a thread that holds a card of identity \<open>ident\<close> answers a request with the
  Diffie-Hellman value of that identity and of the peer key asked for, 32 bytes and not all
  zero, whether or not it had to reconnect in between; and the card it holds afterwards is of
  the same identity.\<close>

theorem decipher_with_retry_correct:
  assumes "openpgp P holder speaker ecdh" and "holder c = ident"
    and "run_state (decipher_with_retry P c ident pin pk) s = ((r, c'), s')"
  shows "holder c' = ident
    \<and> (\<forall>k. r = Ok k \<longrightarrow> k = ecdh ident pk \<and> length k = 32 \<and> (\<exists>x\<in>set k. x \<noteq> 0))"
  using openpgp.decipher_with_retry_sound [OF assms(1,3,2)] assms(3)
  by (auto dest: decipher_with_retry_valid)

theorem decipher_with_retry_correct_witness:
  "fst (run_state (decipher_with_retry (sim_api mix ''1'' [''b'', ''a'']) (''a'', 0) ''a'' ''1'' pk_demo)
          (sim_start 1 3)) = (Ok ss_demo, (''a'', 1))
   \<and> ss_demo = take 32 (mix ''a'' pk_demo)"
proof -
  let ?run = "run_state (decipher_with_retry (sim_api mix ''1'' [''b'', ''a'']) (''a'', 0) ''a'' ''1'' pk_demo)
          (sim_start 1 3)"
  have run: "fst ?run = (Ok ss_demo, (''a'', 1))"
    by (simp add: sim_run decipher_with_retry_def try_decipher_def reconnect_def reconnect_one_def)
  then have "?run = ((Ok ss_demo, (''a'', 1)), snd ?run)"
    by (metis prod.collapse)
  from decipher_with_retry_correct [OF sim.openpgp_axioms _ this] run show ?thesis
    by simp
qed

text \<open>C25: What one request costs the card.  The operations logged for a request are those of one
  attempt, VERIFY then DECIPHER, possibly cut short, and, only when that attempt failed, one
  scan of the readers and at most one more attempt; an answered request ends in VERIFY and
  DECIPHER.  There is never a third attempt, and the thread does not panic.\<close>

theorem decipher_with_retry_bounded:
  "let (r, s') = run_state (decipher_with_retry P c ident pin pk) s in
     (\<nexists>m. fst r = Panic m)
     \<and> (\<exists>es. op_log s' = op_log s @ es
          \<and> (case fst (run_state (try_decipher P c pin pk) s) of
               Ok k \<Rightarrow> fst r = Ok k \<and> es = [OpVerify, OpDecipher]
             | _ \<Rightarrow> \<exists>a b. es = a @ OpScan # b
                  \<and> a \<in> {[], [OpVerify], [OpVerify, OpDecipher]}
                  \<and> b \<in> {[], [OpVerify], [OpVerify, OpDecipher]}
                  \<and> (b = [OpVerify, OpDecipher] \<or> (\<nexists>k. fst r = Ok k))))"
proof -
  obtain r1 s1 where one: "run_state (try_decipher P c pin pk) s = (r1, s1)" by fastforce
  then obtain a where a: "op_log s1 = op_log s @ a" "decipher_log r1 a"
    by (rule emitsD [OF try_decipher_emits])
  obtain r2 s2 where two: "run_state (reconnect P ident) s1 = (r2, s2)" by fastforce
  then have b: "op_log s2 = op_log s1 @ [OpScan]"
    by (auto elim: emitsD [OF reconnect_emits])
  show ?thesis
  proof (cases r2)
    case (Ok c2)
    obtain r3 s3 where three: "run_state (try_decipher P c2 pin pk) s2 = (r3, s3)" by fastforce
    then obtain d where "op_log s3 = op_log s2 @ d" "decipher_log r3 d"
      by (rule emitsD [OF try_decipher_emits])
    with one two three Ok a b try_decipher_no_panic [of P c pin pk s]
      try_decipher_no_panic [of P c2 pin pk s2] show ?thesis
      by (cases r1; cases r3) (auto simp: decipher_with_retry_def decipher_log_def)
  next
    case (Err e)
    with one two a b try_decipher_no_panic [of P c pin pk s] show ?thesis
      by (cases r1) (auto simp: decipher_with_retry_def decipher_log_def)
  next
    case (Panic m)
    with two reconnect_no_panic have False by blast
    then show ?thesis ..
  qed
qed

theorem decipher_with_retry_bounded_witness:
  "\<exists>a b. op_log (snd (run_state (decipher_with_retry (sim_api mix ''1'' [''b'', ''a'']) (''a'', 0) ''a'' ''1''
       pk_demo) (sim_start 1 3))) = a @ OpScan # b \<and> length a \<le> 2 \<and> length b \<le> 2"
proof -
  let ?P = "sim_api mix ''1'' [''b'', ''a'']"
  have "\<exists>e. fst (run_state (try_decipher ?P (''a'', 0) ''1'' pk_demo) (sim_start 1 3)) = Err e"
    by (simp add: sim_run try_decipher_def)
  then obtain e where e: "fst (run_state (try_decipher ?P (''a'', 0) ''1'' pk_demo) (sim_start 1 3)) = Err e"
    by blast
  have "op_log (sim_start 1 3) = []" by (simp add: sim_start_def)
  with e decipher_with_retry_bounded [of ?P "(''a'', 0)" "''a''" "''1''" pk_demo "sim_start 1 3"]
  have "\<exists>a b. op_log (snd (run_state (decipher_with_retry ?P (''a'', 0) ''a'' ''1'' pk_demo) (sim_start 1 3)))
          = a @ OpScan # b
      \<and> a \<in> {[], [OpVerify], [OpVerify, OpDecipher]} \<and> b \<in> {[], [OpVerify], [OpVerify, OpDecipher]}"
    by (simp only: case_prod_beta Let_def outcome.case append_Nil) blast
  moreover have "a \<in> {[], [OpVerify], [OpVerify, OpDecipher]} \<Longrightarrow> length a \<le> 2" for a by auto
  ultimately show ?thesis by blast
qed

lemma refused_pin:
  assumes "\<And>c w. \<exists>t w'. transaction P c w = (Inr t, w')"
    and "\<And>t w. \<exists>e w'. verify_user_pin P t pin w = (Inl e, w')"
  shows "\<exists>e s'. run_state (try_decipher P c pin pk) s = (Err (PinFailed e), s')
    \<and> op_log s' = op_log s @ [OpVerify]"
proof -
  obtain t w' where "transaction P c (card_world s) = (Inr t, w')" using assms(1) by blast
  moreover obtain e w'' where "verify_user_pin P t pin w' = (Inl e, w'')" using assms(2) by blast
  ultimately show ?thesis by (simp add: try_decipher_def run_and_then call_def)
qed

text \<open>A simulated card whose handles never go stale.\<close>

definition stern_api :: "(string, string \<times> nat, string, sim) pcsc" where
  "stern_api = (sim_api mix ''1'' [''a''])\<lparr>transaction := (\<lambda>c w. (Inr (fst c), w))\<rparr>"

text \<open>C37: A rejected PIN is presented twice for one request.  When the card can be reached and
  refuses the PIN, the failed attempt is followed by a reconnection and, if that finds the card,
  by a second VERIFY with the same PIN: two of the card's PIN tries for one request, and the
  request still fails.\<close>

theorem rejected_pin_costs_two_tries:
  assumes "\<And>c w. \<exists>t w'. transaction P c w = (Inr t, w')"
    and "\<And>t w. \<exists>e w'. verify_user_pin P t pin w = (Inl e, w')"
    and "run_state (reconnect P ident) (snd (run_state (try_decipher P c pin pk) s)) = (Ok c2, s2)"
  shows "(\<exists>e. fst (fst (run_state (decipher_with_retry P c ident pin pk) s)) = Err (PinFailed e))
    \<and> op_log (snd (run_state (decipher_with_retry P c ident pin pk) s))
         = op_log s @ [OpVerify, OpScan, OpVerify]"
proof -
  obtain e1 s1 where one: "run_state (try_decipher P c pin pk) s = (Err (PinFailed e1), s1)"
      "op_log s1 = op_log s @ [OpVerify]"
    using refused_pin [OF assms(1,2)] by blast
  obtain e2 s3 where three: "run_state (try_decipher P c2 pin pk) s2 = (Err (PinFailed e2), s3)"
      "op_log s3 = op_log s2 @ [OpVerify]"
    using refused_pin [OF assms(1,2)] by blast
  have "op_log s2 = op_log s1 @ [OpScan]"
    using assms(3) one(1) by (auto elim: emitsD [OF reconnect_emits])
  then show ?thesis
    using assms(3) one three by (simp add: decipher_with_retry_def)
qed

theorem rejected_pin_costs_two_tries_witness:
  "op_log (snd (run_state (decipher_with_retry stern_api (''a'', 0) ''a'' ''0'' pk_demo) (sim_start 0 3)))
     = [OpVerify, OpScan, OpVerify]
   \<and> sim_tries (card_world (snd (run_state
        (decipher_with_retry stern_api (''a'', 0) ''a'' ''0'' pk_demo) (sim_start 0 3)))) = 1"
proof -
  have tx: "\<exists>t w'. transaction stern_api c w = (Inr t, w')" for c w
    by (simp add: stern_api_def sim_api_def)
  have pin: "\<exists>e w'. verify_user_pin stern_api t ''0'' w = (Inl e, w')" for t w
    by (simp add: stern_api_def sim_api_def)
  let ?s1 = "snd (run_state (try_decipher stern_api (''a'', 0) ''0'' pk_demo) (sim_start 0 3))"
  have re: "run_state (reconnect stern_api ''a'') ?s1
      = (Ok (''a'', 0), snd (run_state (reconnect stern_api ''a'') ?s1))"
    by (simp add: sim_run stern_api_def try_decipher_def reconnect_def reconnect_one_def)
  show ?thesis
    using rejected_pin_costs_two_tries [OF tx pin re]
    by (simp add: sim_run stern_api_def decipher_with_retry_def try_decipher_def reconnect_def
        reconnect_one_def)
qed

section \<open>Opening the card\<close>

lemma select_material_err:
  "select_material q m c i = Some (Err e) \<Longrightarrow> e = NoDecryptionKey"
  "select_material q m c i \<noteq> Some (Panic msg)"
  by (auto simp: select_material_def split: sum.splits key_material.splits if_splits)

definition found_log :: "(smartcard_error, 'c \<times> string) outcome option \<Rightarrow> card_op list \<Rightarrow> bool" where
  "found_log r es \<longleftrightarrow> es = [] \<and> (case r of Some (Err e) \<Rightarrow> e = NoDecryptionKey
                                 | Some (Panic m) \<Rightarrow> False | _ \<Rightarrow> True)"

lemma try_backend_emits: "emits (try_backend P q b) found_log"
  unfolding try_backend_def
  by (intro emits_ok_then quiet_silent return_silent)
    (auto intro!: emits_bind [OF quiet_silent] emits_return simp: found_log_def
      split: option.split outcome.split dest: select_material_err(1) simp: select_material_err(2))

lemma find_card_emits: "emits (find_card P q bs) found_log"
proof (induction bs)
  case Nil
  then show ?case by (auto intro: emits_return simp: found_log_def)
next
  case (Cons b bs)
  have "emits (find_card P q bs) (\<lambda>r fs. found_log r (es @ fs))" if "es = []" for es
    using Cons.IH that by simp
  then show ?case
    by (auto intro!: emits_bind [OF try_backend_emits] emits_return
        simp: found_log_def split: option.split)
qed

text \<open>C26: Opening a card spends a PIN try only on the card it was going to use.  A failure to list
  the readers, no matching card, a matching card without a decryption key or a card that is gone
  again leave exactly the one scan in the log; the PIN is presented, once and last, when the
  opening succeeds or fails because of the PIN.\<close>

theorem open_and_verify_pin_last:
  "let (r, s') = run_state (open_and_verify P requested_ident pin) s in
     op_log s' = op_log s @
       (case r of Ok _ \<Rightarrow> [OpScan, OpVerify]
                | Err (PinFailed _) \<Rightarrow> [OpScan, OpVerify]
                | _ \<Rightarrow> [OpScan])"
proof -
  have "emits (open_and_verify P requested_ident pin) (\<lambda>r es.
      es = (case r of Ok _ \<Rightarrow> [OpScan, OpVerify] | Err (PinFailed _) \<Rightarrow> [OpScan, OpVerify]
                    | _ \<Rightarrow> [OpScan]))"
    unfolding open_and_verify_def
    apply (rule emits_and_then
        [where Q = "\<lambda>r es. es = [OpScan] \<and> (case r of Err e \<Rightarrow> \<exists>m. e = CardError m | _ \<Rightarrow> True)"])
       apply (rule call_perform; simp)
      apply (rule emits_and_then
        [where Q = "\<lambda>r es. es = [] \<and> (case r of Err (PinFailed _) \<Rightarrow> False | _ \<Rightarrow> True)"])
         apply (rule emits_bind [OF find_card_emits], rule emits_return,
          force simp: found_log_def split: option.splits outcome.splits)
        apply (clarsimp simp only: prod.case split: prod.split)
        apply (rule emits_and_then
        [where Q = "\<lambda>r es. es = [] \<and> (case r of Err _ \<Rightarrow> False | _ \<Rightarrow> True)"])
           apply (rule emits_bind [OF quiet_silent], rule emits_return, force split: sum.splits)
          apply (rule emits_and_then
        [where Q = "\<lambda>r es. es = [OpVerify] \<and> (case r of Err e \<Rightarrow> \<exists>m. e = PinFailed m | Panic _ \<Rightarrow> False | _ \<Rightarrow> True)"])
             apply (rule call_perform; simp)
            apply (rule emits_return)
    by (auto split: smartcard_error.splits)
  then show ?thesis
    by (auto simp: emits_def split: prod.split) (metis fst_conv snd_conv)
qed

text \<open>C33: The card opened is the card asked for: over a card stack that keeps its contract the
  identity returned is the identity of the card returned, and it is the requested one unless
  \<^verbatim>\<open>auto\<close> was requested.\<close>

theorem open_and_verify_identity:
  assumes "openpgp P holder speaker ecdh"
    and "run_state (open_and_verify P requested_ident pin) s = (Ok (c, ident), s')"
  shows "holder c = ident \<and> (requested_ident = ''auto'' \<or> requested_ident = ident)"
  by (rule openpgp.open_holder [OF assms])

theorem open_and_verify_identity_witness:
  "fst (run_state (open_and_verify (sim_api mix ''1'' [''b'', ''a'']) ''a'' ''1'') (sim_start 0 3))
     = Ok ((''a'', 0), ''a'')
   \<and> fst (''a'', 0 :: nat) = ''a''"
proof -
  let ?run = "run_state (open_and_verify (sim_api mix ''1'' [''b'', ''a'']) ''a'' ''1'') (sim_start 0 3)"
  have run: "fst ?run = Ok ((''a'', 0), ''a'')"
    by (simp add: sim_run open_and_verify_def try_backend_def select_material_def)
  then have "?run = (Ok ((''a'', 0), ''a''), snd ?run)"
    by (metis prod.collapse)
  from open_and_verify_identity [OF sim.openpgp_axioms this] run show ?thesis
    by simp
qed

end
