(* ===== verification/CardHandle.thy ===== *)
theory CardHandle
  imports CardProps
begin

text \<open>
  \<^verbatim>\<open>smartguard-crypto/src/card.rs\<close>: listing the connected cards, and the \<^verbatim>\<open>CardHandle\<close>
  through which the handshakes of a tunnel ask the card thread for shared secrets.

  The handle and the thread share one bounded queue.  A handle is the cache, the requests the
  thread has not taken yet, and the card the thread holds (\<open>None\<close> once the thread is gone);
  the thread takes requests in the order they were sent.  Waiting for a reply lets the thread
  work until it has answered; a caller may also stop waiting (a dropped future), and the thread
  may work while nobody waits.
\<close>

section \<open>Listing the cards\<close>

record card_info =
  ci_ident :: string
  ci_public_key :: key

definition list_one ::
  "('b, 'c, 't, 'w) pcsc \<Rightarrow> string + 'b \<Rightarrow> ('w card_sys, card_info option) state" where
  "list_one P backend =
     ok_then (State_Monad.return backend) (\<lambda>b.
     ok_then (quiet (card_new P b)) (\<lambda>crd.
     ok_then (quiet (transaction P crd)) (\<lambda>tx.
     ok_then (quiet (application_identifier P tx)) (\<lambda>ident.
     ok_then (quiet (public_key_material P tx)) (\<lambda>material.
       State_Monad.return
         (case material of
            E ecc \<Rightarrow> if length ecc < 32 then None
                     else Some \<lparr>ci_ident = ident, ci_public_key = take 32 ecc\<rparr>
          | OtherMaterial \<Rightarrow> None))))))"

fun list_loop ::
  "('b, 'c, 't, 'w) pcsc \<Rightarrow> (string + 'b) list \<Rightarrow> ('w card_sys, card_info list) state" where
  "list_loop P [] = State_Monad.return []"
| "list_loop P (b # bs) = do {
     r \<leftarrow> list_one P b;
     cs \<leftarrow> list_loop P bs;
     State_Monad.return ((case r of None \<Rightarrow> [] | Some c \<Rightarrow> [c]) @ cs)
   }"

definition list_cards :: "('b, 'c, 't, 'w) pcsc \<Rightarrow> ('w, card_info list) card_prog" where
  "list_cards P =
     and_then (call CardError (perform OpScan (cards P))) (\<lambda>backends. do {
       cs \<leftarrow> list_loop P backends;
       State_Monad.return (Ok cs)
     })"

section \<open>The handle\<close>

record ('c, 'w) card_handle =
  ss_cache :: "(key, key) map"
  ident :: string
  queue :: "request list"
  thread :: "'c option"
  sys :: "'w card_sys"

type_synonym ('c, 'w, 'e, 'a) handle_prog = "(('c, 'w) card_handle, ('e, 'a) outcome) state"

definition open_card ::
  "('b, 'c, 't, 'w) pcsc \<Rightarrow> string + unit \<Rightarrow> string \<Rightarrow> string \<Rightarrow> 'w card_sys
     \<Rightarrow> (smartcard_error, ('c, 'w) card_handle) outcome" where
  "open_card P spawned requested_ident pin s =
     (case run_state (spawn_card_thread P spawned requested_ident pin) s of
        (r, s') \<Rightarrow> bind_outcome r (\<lambda>(crd, i). Ok
          \<lparr>ss_cache = Map.empty, ident = i, queue = [], thread = Some crd, sys = s'\<rparr>))"

text \<open>\<^verbatim>\<open>try_send\<close> on the bounded channel.\<close>

datatype send_result = Sent | Full | Disconnected

definition try_send :: "request \<Rightarrow> (('c, 'w) card_handle, send_result) state" where
  "try_send req = State (\<lambda>h.
     if thread h = None then (Disconnected, h)
     else if length (queue h) \<ge> MAX_HANDSHAKE_REQUEST then (Full, h)
     else (Sent, h\<lparr>queue := queue h @ [req]\<rparr>))"

text \<open>The thread takes and answers everything that is queued; the replies, in order.\<close>

definition drain :: "('b, 'c, 't, 'w) pcsc \<Rightarrow> string \<Rightarrow> (('c, 'w) card_handle, reply option list) state" where
  "drain P pin = State (\<lambda>h.
     case thread h of
       None \<Rightarrow> ([], h)
     | Some crd \<Rightarrow>
         (case run_state (serve_all P (ident h) pin crd (queue h)) (sys h) of
            ((rs, crd'), s') \<Rightarrow> (rs, h\<lparr>queue := [], thread := Some crd', sys := s'\<rparr>)))"

text \<open>Waiting for the reply to the request sent last.\<close>

definition await_last :: "('b, 'c, 't, 'w) pcsc \<Rightarrow> string \<Rightarrow> (('c, 'w) card_handle, reply option) state" where
  "await_last P pin = do {
     rs \<leftarrow> drain P pin;
     State_Monad.return (if rs = [] then None else last rs)
   }"

definition dh :: "('b, 'c, 't, 'w) pcsc \<Rightarrow> string \<Rightarrow> key \<Rightarrow> ('c, 'w, smartcard_error, key) handle_prog" where
  "dh P pin peer_pk = do {
     sent \<leftarrow> try_send (Dh peer_pk);
     (case sent of
        Full \<Rightarrow> State_Monad.return (Err QueueFull)
      | Disconnected \<Rightarrow> State_Monad.return (Err (CardError ''card thread is gone''))
      | Sent \<Rightarrow> do {
          r \<leftarrow> await_last P pin;
          State_Monad.return
            (case r of Some (DhReply result) \<Rightarrow> result
                     | _ \<Rightarrow> Err (CardError ''card thread dropped reply''))
        })
   }"

definition pubkey :: "('b, 'c, 't, 'w) pcsc \<Rightarrow> string \<Rightarrow> ('c, 'w, smartcard_error, key) handle_prog" where
  "pubkey P pin = do {
     sent \<leftarrow> try_send PubKey;
     (case sent of
        Sent \<Rightarrow> do {
          r \<leftarrow> await_last P pin;
          State_Monad.return
            (case r of Some (PubKeyReply k) \<Rightarrow> Ok k
                     | _ \<Rightarrow> Panic ''already got the public key when opening'')
        }
      | _ \<Rightarrow> State_Monad.return (Panic ''Must be called first so queue not full''))
   }"

definition prime_ss :: "('b, 'c, 't, 'w) pcsc \<Rightarrow> string \<Rightarrow> key \<Rightarrow> ('c, 'w, smartcard_error, unit) handle_prog" where
  "prime_ss P pin peer_pk =
     and_then (dh P pin peer_pk) (\<lambda>ss.
       State (\<lambda>h. (Ok (), h\<lparr>ss_cache := (ss_cache h)(peer_pk \<mapsto> ss)\<rparr>)))"

definition forget_peer :: "key \<Rightarrow> (('c, 'w) card_handle, unit) state" where
  "forget_peer peer_pk = State (\<lambda>h. ((), h\<lparr>ss_cache := (ss_cache h)(peer_pk := None)\<rparr>))"

text \<open>The oracle the sessions use; the one error a handshake sees.\<close>

datatype crypto_error = KeyExchangeError

definition async_x25519 :: "('b, 'c, 't, 'w) pcsc \<Rightarrow> string \<Rightarrow> key \<Rightarrow> ('c, 'w, crypto_error, key) handle_prog" where
  "async_x25519 P pin public = do {
     cached \<leftarrow> State (\<lambda>h. (ss_cache h public, h));
     (case cached of
        Some ss \<Rightarrow> State_Monad.return (Ok ss)
      | None \<Rightarrow> do {
          r \<leftarrow> dh P pin public;
          State_Monad.return (map_err (\<lambda>_. KeyExchangeError) r)
        })
   }"

definition async_x25519_pubkey :: "('b, 'c, 't, 'w) pcsc \<Rightarrow> string \<Rightarrow> ('c, 'w, smartcard_error, key) handle_prog" where
  "async_x25519_pubkey P pin = pubkey P pin"

text \<open>
  What can happen to a handle: its operations, a call whose future is dropped while it waits
  (only the sending has happened), the thread working off the queue while nobody waits, and
  the end of the thread.
\<close>

datatype handle_event =
    AskKey key | PrimeSs key | ForgetPeer key | AskPubKey | AbandonedAsk key | WorkOff | ThreadEnds

fun handle_step ::
  "('b, 'c, 't, 'w) pcsc \<Rightarrow> string \<Rightarrow> handle_event \<Rightarrow> ('c, 'w) card_handle \<Rightarrow> ('c, 'w) card_handle" where
  "handle_step P pin (AskKey pk) h = snd (run_state (async_x25519 P pin pk) h)"
| "handle_step P pin (PrimeSs pk) h = snd (run_state (prime_ss P pin pk) h)"
| "handle_step P pin (ForgetPeer pk) h = snd (run_state (forget_peer pk) h)"
| "handle_step P pin AskPubKey h = snd (run_state (async_x25519_pubkey P pin) h)"
| "handle_step P pin (AbandonedAsk pk) h =
     (if ss_cache h pk = None then snd (run_state (try_send (Dh pk)) h) else h)"
| "handle_step P pin WorkOff h = snd (run_state (drain P pin) h)"
| "handle_step P pin ThreadEnds h = h\<lparr>queue := [], thread := None\<rparr>"

inductive reaches ::
  "('b, 'c, 't, 'w) pcsc \<Rightarrow> string \<Rightarrow> ('c, 'w) card_handle \<Rightarrow> ('c, 'w) card_handle \<Rightarrow> bool"
  for P pin h where
  start: "reaches P pin h h"
| step: "reaches P pin h h1 \<Longrightarrow> reaches P pin h (handle_step P pin e h1)"

inductive_cases reachesE: "reaches P pin h h'"

end
