(* ===== verification/Cmd.thy ===== *)
theory Cmd
  imports Config Tunnel CardHandle
begin

text \<open>
  \<^verbatim>\<open>smartguard/src/main.rs\<close>: the four subcommands.

  Both kinds of key run the same \<^verbatim>\<open>run_tunnel\<close> with another oracle, so the sessions come in two
  \<open>engine\<close>s; what they share, the interface, the tries and the operating system, is the
  \<open>machine\<close>.  Parsing a prefix, the runtime, the prompt and the environment are parameters.
  The lines printed to standard output are results; those printed to standard error are not
  modelled, except for the error \<^verbatim>\<open>main\<close> ends with.
\<close>

section \<open>The surroundings\<close>

record ('w, 'n, 'id, 'p4, 'r4, 't4, 'p6, 'r6, 't6) machine =
  m_env :: tunnel_env
  m_trie4 :: "(32 word, 'p4, 'r4, 't4, 'id) trie_api"
  m_trie6 :: "(128 word, 'p6, 'r6, 't6, 'id) trie_api"
  m_net_str :: "ip_net \<Rightarrow> string"
  m_os :: "'w os"
  m_target :: target_os
  m_network :: 'n
  m_runtime :: "string + unit"

record ('oracle, 'cfg, 's, 'id, 'm, 'n) engine =
  e_core :: "('oracle, 'cfg, 'id, 's) core_api"
  e_api :: "('s, 'id, 'm, 'n) tunnel_api"

record pin_sources =
  prompt_password :: "string + string"
  env_var :: "string \<Rightarrow> string + string"

record ('b, 'c, 't, 'v) card_stack =
  k_pcsc :: "('b, 'c, 't, 'v) pcsc"
  k_spawned :: "string + unit"
  k_start :: "'v card_sys"

record readers =
  rd_toml :: "string \<Rightarrow> string + toml"
  rd_codecs :: codecs
  rd_show_parse :: "parse_error \<Rightarrow> string"
  rd_net :: "string \<Rightarrow> string + ip_net"

text \<open>How a subcommand ended (\<open>None\<close>: it still runs) and the operating system then; \<open>None\<close> when a
  call never returns.\<close>

type_synonym 'w ending = "(exit option \<times> 'w sys) option"

definition ended :: "exit \<Rightarrow> 'w sys \<Rightarrow> 'w ending" where
  "ended x s = Some (Some x, s)"

fun fail_with :: "('e \<Rightarrow> string) \<Rightarrow> ('e, 'a) outcome \<Rightarrow> 'w sys \<Rightarrow> ('a \<Rightarrow> 'w ending) \<Rightarrow> 'w ending" where
  "fail_with show (Ok a) s go = go a"
| "fail_with show (Err e) s go = ended (ExitErr (show e)) s"
| "fail_with show (Panic m) s go = ended (ExitPanic m) s"

section \<open>From the configuration to the peers\<close>

text \<open>\<^verbatim>\<open>collect\<close> into a \<^verbatim>\<open>Result\<close>: the first error.\<close>

fun parse_nets :: "(string \<Rightarrow> string + ip_net) \<Rightarrow> string list \<Rightarrow> (string, ip_net list) outcome" where
  "parse_nets parse [] = Ok []"
| "parse_nets parse (s # ss) =
     (case parse s of
        Inl e \<Rightarrow> Err e
      | Inr net \<Rightarrow> bind_outcome (parse_nets parse ss) (\<lambda>nets. Ok (net # nets)))"

fun expect_nets :: "(string \<Rightarrow> string + ip_net) \<Rightarrow> string list \<Rightarrow> (string, ip_net list) outcome" where
  "expect_nets parse [] = Ok []"
| "expect_nets parse (s # ss) =
     (case parse s of
        Inl e \<Rightarrow> Panic ''invalid AllowedIP prefix''
      | Inr net \<Rightarrow> bind_outcome (expect_nets parse ss) (\<lambda>nets. Ok (net # nets)))"

definition keepalive_of :: "u16 option \<Rightarrow> duration option" where
  "keepalive_of k = (case k of None \<Rightarrow> None | Some s \<Rightarrow> if s = 0 then None else Some (from_secs (unat s)))"

definition peer_of :: "(string \<Rightarrow> string + ip_net) \<Rightarrow> peer \<Rightarrow> (string, peer_config) outcome" where
  "peer_of parse p =
     bind_outcome (expect_nets parse (p_allowed_ips p)) (\<lambda>nets. Ok
       \<lparr>pc_public_key = p_public_key p, pc_preshared_key = p_preshared_key p,
        pc_endpoint = p_endpoint p, pc_allowed_ips = nets,
        pc_persistent_keepalive = keepalive_of (p_persistent_keepalive p)\<rparr>)"

fun peers_of :: "(string \<Rightarrow> string + ip_net) \<Rightarrow> peer list \<Rightarrow> (string, peer_config list) outcome" where
  "peers_of parse [] = Ok []"
| "peers_of parse (p # ps) =
     bind_outcome (peer_of parse p) (\<lambda>q. bind_outcome (peers_of parse ps) (\<lambda>qs. Ok (q # qs)))"

section \<open>The smartcard\<close>

definition obtain_pin :: "pin_sources \<Rightarrow> string \<Rightarrow> (string, string) outcome" where
  "obtain_pin src entry =
     (if entry = ''prompt''
      then (case prompt_password src of Inl e \<Rightarrow> Err e | Inr p \<Rightarrow> Ok p)
      else (case strip_prefix ''env:'' entry of
              Some var_name \<Rightarrow> (case env_var src var_name of Inl e \<Rightarrow> Err e | Inr p \<Rightarrow> Ok p)
            | None \<Rightarrow> Err (''unsupported pin_entry method: '' @ entry)))"

text \<open>\<^verbatim>\<open>#[error(..)]\<close> of the \<^verbatim>\<open>SmartcardError\<close>.\<close>

fun smartcard_error_string :: "smartcard_error \<Rightarrow> string" where
  "smartcard_error_string (CardNotFound e) = ''card not found: '' @ e"
| "smartcard_error_string NoDecryptionKey = ''card does not have an X25519 decryption key''"
| "smartcard_error_string (PinFailed e) = ''PIN verification failed: '' @ e"
| "smartcard_error_string (DhFailed e) = ''DH operation failed: '' @ e"
| "smartcard_error_string (CardError e) = ''card communication error: '' @ e"
| "smartcard_error_string ZeroSharedSecret = ''shared secret is zero (invalid peer public key)''"
| "smartcard_error_string QueueFull = ''card thread request queue is full''"

text \<open>An error of one peer is only warned about.\<close>

fun prime_all ::
  "('b, 'c, 't, 'v) pcsc \<Rightarrow> string \<Rightarrow> peer_config list \<Rightarrow> ('c, 'v, smartcard_error, unit) handle_prog" where
  "prime_all P pin [] = State_Monad.return (Ok ())"
| "prime_all P pin (peer # peers) = do {
     r \<leftarrow> prime_ss P pin (pc_public_key peer);
     (case r of Panic m \<Rightarrow> State_Monad.return (Panic m) | _ \<Rightarrow> prime_all P pin peers)
   }"

text \<open>The handle \<^verbatim>\<open>run_tunnel\<close> gets: opened, asked for its public key, and primed.\<close>

definition ready_card ::
  "('b, 'c, 't, 'v) card_stack \<Rightarrow> string \<Rightarrow> string \<Rightarrow> peer_config list
     \<Rightarrow> (smartcard_error, ('c, 'v) card_handle) outcome" where
  "ready_card K requested pin peers =
     bind_outcome (open_card (k_pcsc K) (k_spawned K) requested pin (k_start K)) (\<lambda>card.
       case run_state (and_then (async_x25519_pubkey (k_pcsc K) pin) (\<lambda>_. prime_all (k_pcsc K) pin peers)) card of
         (r, card') \<Rightarrow> bind_outcome r (\<lambda>_. Ok card'))"

section \<open>The subcommands\<close>

definition block_on_tunnel ::
  "('w, 'n, 'id, 'p4, 'r4, 't4, 'p6, 'r6, 't6) machine \<Rightarrow> ('oracle, 'cfg, 's, 'id, 'm, 'n) engine
     \<Rightarrow> 'oracle \<Rightarrow> peer_config list \<Rightarrow> u16 \<Rightarrow> ip_net list \<Rightarrow> int \<Rightarrow> ip_addr list \<Rightarrow> event list
     \<Rightarrow> 'w sys \<Rightarrow> 'w ending" where
  "block_on_tunnel M eng orc peers listen_port tun_addrs mtu dns es s =
     run_tunnel (e_api eng) (m_env M) (e_core eng) (m_trie4 M) (m_trie6 M) (m_net_str M) (m_os M)
       (m_target M) orc peers listen_port tun_addrs mtu dns (m_network M) es s"

definition run_smartcard ::
  "('w, 'n, 'id, 'p4, 'r4, 't4, 'p6, 'r6, 't6) machine
     \<Rightarrow> (('c, 'v) card_handle, 'cfg, 's, 'id, 'm, 'n) engine
     \<Rightarrow> ('b, 'c, 't, 'v) card_stack \<Rightarrow> pin_sources \<Rightarrow> string \<Rightarrow> string
     \<Rightarrow> peer_config list \<Rightarrow> u16 \<Rightarrow> ip_net list \<Rightarrow> int \<Rightarrow> ip_addr list \<Rightarrow> event list
     \<Rightarrow> 'w sys \<Rightarrow> 'w ending" where
  "run_smartcard M eng K src requested entry peers listen_port tun_addrs mtu dns es s =
     fail_with (\<lambda>e. e) (obtain_pin src entry) s (\<lambda>pin.
     case m_runtime M of
       Inl e \<Rightarrow> ended (ExitErr e) s
     | Inr _ \<Rightarrow>
         fail_with smartcard_error_string (ready_card K requested pin peers) s (\<lambda>card.
           block_on_tunnel M eng card peers listen_port tun_addrs mtu dns es s))"

definition cmd_up ::
  "('w, 'n, 'id, 'p4, 'r4, 't4, 'p6, 'r6, 't6) machine
     \<Rightarrow> (key, 'cfg1, 's1, 'id, 'm1, 'n) engine
     \<Rightarrow> (('c, 'v) card_handle, 'cfg2, 's2, 'id, 'm2, 'n) engine
     \<Rightarrow> ('b, 'c, 't, 'v) card_stack \<Rightarrow> pin_sources \<Rightarrow> readers
     \<Rightarrow> string + string \<Rightarrow> event list \<Rightarrow> 'w sys \<Rightarrow> 'w ending" where
  "cmd_up M soft hard K src rd content es s =
     fail_with (config_error_string (rd_show_parse rd)) (from_file (rd_toml rd) (rd_codecs rd) content) s
     (\<lambda>config.
       let iface = c_interface config;
           listen_port = or_default 51820 (if_listen_port iface);
           mtu = or_default 1420 (if_mtu iface)
       in if if_address iface = []
       then ended (ExitErr ''interface.address is required for tunnel mode'') s
       else
         fail_with (\<lambda>e. e) (parse_nets (rd_net rd) (if_address iface)) s (\<lambda>tun_addrs.
         fail_with (\<lambda>e. e) (peers_of (rd_net rd) (c_peers config)) s (\<lambda>peers.
           case if_private_key iface of
             Software key \<Rightarrow>
               (case m_runtime M of
                  Inl e \<Rightarrow> ended (ExitErr e) s
                | Inr _ \<Rightarrow> block_on_tunnel M soft key peers listen_port tun_addrs mtu (if_dns iface) es s)
           | Smartcard i \<Rightarrow>
               run_smartcard M hard K src i (pin_entry (if_smartcard iface)) peers listen_port
                 tun_addrs mtu (if_dns iface) es s
           | SmartcardAuto \<Rightarrow>
               run_smartcard M hard K src ''auto'' (pin_entry (if_smartcard iface)) peers listen_port
                 tun_addrs mtu (if_dns iface) es s)))"

definition cmd_down :: "'w sys \<Rightarrow> 'w ending" where
  "cmd_down s = ended ExitOk s"

definition cmd_status :: "'w sys \<Rightarrow> 'w ending" where
  "cmd_status s = ended ExitOk s"

definition show_card_lines :: "(key \<Rightarrow> string) \<Rightarrow> card_info list \<Rightarrow> string list" where
  "show_card_lines encode found =
     (if found = [] then
        [''No OpenPGP smartcards with X25519 decryption keys found.'', [], ''Make sure:'',
         ''  - A smartcard reader is connected'',
         ''  - The card has an X25519 key in the decryption slot'',
         ''  - pcscd is running (Linux: systemctl start pcscd)'']
      else (''Found '' @ dec_of_nat (length found) @ '' card(s):'') # []
        # concat (map (\<lambda>c. [''  Card:       '' @ ci_ident c,
                              ''  Public key: '' @ encode (ci_public_key c), []]) found))"

text \<open>The lines printed and how it ended.\<close>

definition cmd_show_card :: "('b, 'c, 't, 'v) card_stack \<Rightarrow> (key \<Rightarrow> string) \<Rightarrow> string list \<times> exit" where
  "cmd_show_card K encode =
     (case fst (run_state (list_cards (k_pcsc K)) (k_start K)) of
        Ok found \<Rightarrow> (show_card_lines encode found, ExitOk)
      | Err e \<Rightarrow> ([], ExitErr (smartcard_error_string e))
      | Panic m \<Rightarrow> ([], ExitPanic m))"

text \<open>The exit code of \<^verbatim>\<open>main\<close> and the line it prints to standard error; a panic exits with 101.\<close>

fun main_exit :: "exit \<Rightarrow> nat \<times> string option" where
  "main_exit ExitOk = (0, None)"
| "main_exit (ExitErr e) = (1, Some (''error: '' @ e))"
| "main_exit (ExitPanic m) = (101, None)"

datatype subcommand = Up "string + string" | Down | Status | ShowCard

text \<open>The subcommand, by the exit of \<^verbatim>\<open>main\<close> and the operating system it leaves.\<close>

definition main_of ::
  "('w, 'n, 'id, 'p4, 'r4, 't4, 'p6, 'r6, 't6) machine
     \<Rightarrow> (key, 'cfg1, 's1, 'id, 'm1, 'n) engine
     \<Rightarrow> (('c, 'v) card_handle, 'cfg2, 's2, 'id, 'm2, 'n) engine
     \<Rightarrow> ('b, 'c, 't, 'v) card_stack \<Rightarrow> pin_sources \<Rightarrow> readers \<Rightarrow> (key \<Rightarrow> string)
     \<Rightarrow> subcommand \<Rightarrow> event list \<Rightarrow> 'w sys \<Rightarrow> ((nat \<times> string option) option \<times> 'w sys) option" where
  "main_of M soft hard K src rd encode cmd es s =
     map_option (\<lambda>(x, s'). (map_option main_exit x, s'))
       (case cmd of
          Up content \<Rightarrow> cmd_up M soft hard K src rd content es s
        | Down \<Rightarrow> cmd_down s
        | Status \<Rightarrow> cmd_status s
        | ShowCard \<Rightarrow> ended (snd (cmd_show_card K encode)) s)"

end
