(* ===== verification/ConfigProps.thy ===== *)
theory ConfigProps
  imports Config
begin

text \<open>
  What the configuration reader guarantees: everything it accepts is well formed, every
  well-formed configuration can be written down and is read back as it was, and the two shapes
  of the private key and of the address are told apart as documented.
\<close>

section \<open>Well-formed configurations\<close>

fun wf_private_key :: "private_key_config \<Rightarrow> bool" where
  "wf_private_key (Software k) = (length k = 32)"
| "wf_private_key (Smartcard i) = (i \<noteq> ''auto'')"
| "wf_private_key SmartcardAuto = True"

definition wf_interface :: "interface \<Rightarrow> bool" where
  "wf_interface i \<longleftrightarrow>
     wf_private_key (if_private_key i)
     \<and> (case if_mtu i of None \<Rightarrow> True | Some n \<Rightarrow> - (2 ^ 31) \<le> n \<and> n < 2 ^ 31)"

definition wf_peer :: "peer \<Rightarrow> bool" where
  "wf_peer p \<longleftrightarrow>
     length (p_public_key p) = 32
     \<and> (case p_preshared_key p of None \<Rightarrow> True | Some k \<Rightarrow> length k = 32)"

definition wf_config :: "config \<Rightarrow> bool" where
  "wf_config c \<longleftrightarrow> wf_interface (c_interface c) \<and> list_all wf_peer (c_peers c)"

text \<open>A property of the fields read so far that every entry keeps.\<close>

lemma visit_entries_keeps:
  assumes "visit_entries field es st = Ok st'" and "I st"
    and "\<And>k v st st'. I st \<Longrightarrow> field k v st = Ok st' \<Longrightarrow> I st'"
  shows "I st'"
  using assms(1,2)
proof (induction es arbitrary: st)
  case (Cons e es)
  obtain k v where e: "e = (k, v)" by fastforce
  with Cons.prems obtain st1 where "field k v st = Ok st1" "visit_entries field es st1 = Ok st'"
    by auto
  with Cons assms(3) show ?case by blast
qed simp

lemma de_struct_Ok:
  assumes "de_struct what decl field blank finish v = Ok a"
  obtains es st where "visit_entries field es blank = Ok st" and "finish st = Ok a"
  using assms by (cases v) (auto split: option.splits)

lemma set_once_Ok:
  "set_once name old value store = Ok st \<longleftrightarrow> old = None \<and> (\<exists>a. value = Ok a \<and> st = store (Some a))"
  by (auto simp: set_once_def split: option.split)

lemma required_Ok [simp]: "required name v = Ok a \<longleftrightarrow> v = Some a"
  by (auto simp: required_def split: option.split)

lemma visit_map_wf: "visit_map es = Ok c \<Longrightarrow> wf_private_key c"
  by (auto simp: visit_map_def)

lemma private_key_wf: "deserialize_private_key cod v = Ok c \<Longrightarrow> wf_private_key c"
  by (cases v) (auto simp: visit_str_def dest: visit_map_wf split: sum.splits if_splits)

lemma decode_key_wf: "decode_key cod s = Ok k \<Longrightarrow> length k = 32"
  by (auto simp: decode_key_def split: sum.splits if_splits)

lemma de_i32_wf: "de_i32 v = Ok n \<Longrightarrow> - (2 ^ 31) \<le> n \<and> n < 2 ^ 31"
  by (cases v) (auto split: if_splits)

text \<open>An entry sets one field or none.\<close>

lemma branchE:
  assumes "(if b then x else y) = r"
  obtains "x = r" | "y = r"
  using assms by (cases b) auto

lemma interface_field_cases:
  assumes "interface_field cod k v st = Ok st'"
  shows "(\<exists>x. st' = st\<lparr>f_private_key := Some x\<rparr> \<and> deserialize_private_key cod v = Ok x)
    \<or> (\<exists>x. st' = st\<lparr>f_listen_port := Some x\<rparr>) \<or> (\<exists>x. st' = st\<lparr>f_address := Some x\<rparr>)
    \<or> (\<exists>x. st' = st\<lparr>f_mtu := Some x\<rparr> \<and> de_i32 v = Ok x) \<or> (\<exists>x. st' = st\<lparr>f_dns := Some x\<rparr>)
    \<or> (\<exists>x. st' = st\<lparr>f_smartcard := Some x\<rparr>) \<or> st' = st"
  using assms unfolding interface_field_def
  by (elim branchE; unfold set_once_Ok outcome.inject) blast+

lemma peer_field_cases:
  assumes "peer_field cod k v st = Ok st'"
  shows "(\<exists>x. st' = st\<lparr>f_public_key := Some x\<rparr> \<and> deserialize_key_base64 cod v = Ok x)
    \<or> (\<exists>x. st' = st\<lparr>f_preshared_key := Some x\<rparr> \<and> deserialize_option_key_base64 cod v = Ok x)
    \<or> (\<exists>x. st' = st\<lparr>f_endpoint := Some x\<rparr>) \<or> (\<exists>x. st' = st\<lparr>f_allowed_ips := Some x\<rparr>)
    \<or> (\<exists>x. st' = st\<lparr>f_persistent_keepalive := Some x\<rparr>) \<or> st' = st"
  using assms unfolding peer_field_def
  by (elim branchE; unfold set_once_Ok outcome.inject) blast+

lemma config_field_cases:
  assumes "config_field cod k v st = Ok st'"
  shows "(\<exists>x. st' = (Some x, snd st) \<and> deserialize_interface cod v = Ok x)
    \<or> (\<exists>x. st' = (fst st, Some x) \<and> de_vec (deserialize_peer cod) v = Ok x) \<or> st' = st"
  using assms unfolding config_field_def
  by (elim branchE; unfold set_once_Ok outcome.inject) blast+

lemma interface_wf:
  assumes "deserialize_interface cod v = Ok i"
  shows "wf_interface i"
proof -
  let ?I = "\<lambda>st. (\<forall>k. f_private_key st = Some k \<longrightarrow> wf_private_key k)
      \<and> (\<forall>n. f_mtu st = Some n \<longrightarrow> - (2 ^ 31) \<le> n \<and> n < 2 ^ 31)"
  have step: "?I st'" if "?I st" "interface_field cod k v st = Ok st'" for k v st st'
    using that(1) interface_field_cases [OF that(2)] private_key_wf de_i32_wf
    by (elim disjE exE conjE) simp_all
  obtain es st where run: "visit_entries (interface_field cod) es no_interface_fields = Ok st"
      and fin: "finish_interface st = Ok i"
    using assms unfolding deserialize_interface_def by (rule de_struct_Ok)
  have "?I st"
    by (rule visit_entries_keeps [where I = ?I, OF run _ step])
      (simp_all add: no_interface_fields_def)
  with fin show ?thesis
    by (auto simp: finish_interface_def wf_interface_def split: option.split)
qed

lemma peer_wf:
  assumes "deserialize_peer cod v = Ok p"
  shows "wf_peer p"
proof -
  let ?I = "\<lambda>st. (\<forall>k. f_public_key st = Some k \<longrightarrow> length k = 32)
      \<and> (\<forall>k. f_preshared_key st = Some (Some k) \<longrightarrow> length k = 32)"
  have keys: "deserialize_key_base64 cod v = Ok k \<Longrightarrow> length k = 32"
      "deserialize_option_key_base64 cod v = Ok (Some k) \<Longrightarrow> length k = 32" for v k
    by (auto simp: deserialize_key_base64_def deserialize_option_key_base64_def dest: decode_key_wf)
  have step: "?I st'" if "?I st" "peer_field cod k v st = Ok st'" for k v st st'
    using that(1) peer_field_cases [OF that(2)] keys by (elim disjE exE conjE) fastforce+
  obtain es st where run: "visit_entries (peer_field cod) es no_peer_fields = Ok st"
      and fin: "finish_peer st = Ok p"
    using assms unfolding deserialize_peer_def by (rule de_struct_Ok)
  have "?I st"
    by (rule visit_entries_keeps [where I = ?I, OF run _ step]) (simp_all add: no_peer_fields_def)
  with fin show ?thesis
    by (auto simp: finish_peer_def wf_peer_def or_default_def split: option.splits)
qed

lemma de_list_all:
  "de_list de vs = Ok xs \<Longrightarrow> (\<And>v x. de v = Ok x \<Longrightarrow> P x) \<Longrightarrow> list_all P xs"
  by (induction vs arbitrary: xs) auto

lemma de_vec_all: "de_vec de v = Ok xs \<Longrightarrow> (\<And>v x. de v = Ok x \<Longrightarrow> P x) \<Longrightarrow> list_all P xs"
  by (cases v) (auto intro: de_list_all)

lemma config_wf:
  assumes "deserialize_config cod v = Ok c"
  shows "wf_config c"
proof -
  let ?I = "\<lambda>st. (\<forall>i. fst st = Some i \<longrightarrow> wf_interface i)
      \<and> (\<forall>ps. snd st = Some ps \<longrightarrow> list_all wf_peer ps)"
  have peers: "de_vec (deserialize_peer cod) v = Ok ps \<Longrightarrow> list_all wf_peer ps" for v ps
    by (rule de_vec_all) (auto dest: peer_wf)
  have step: "?I st'" if "?I st" "config_field cod k v st = Ok st'" for k v st st'
    using that(1) config_field_cases [OF that(2)] interface_wf peers
    by (elim disjE exE conjE) simp_all
  obtain es st where run: "visit_entries (config_field cod) es (None, None) = Ok st"
      and fin: "(case st of (i, ps) \<Rightarrow> bind_outcome (required ''interface'' i) (\<lambda>i. Ok
          \<lparr>c_interface = i, c_peers = or_default [] ps\<rparr>)) = Ok c"
    using assms unfolding deserialize_config_def by (rule de_struct_Ok)
  have "?I st"
    by (rule visit_entries_keeps [where I = ?I, OF run _ step]) simp_all
  with fin show ?thesis
    by (cases st) (auto simp: wf_config_def or_default_def split: option.split)
qed

section \<open>Writing a configuration down\<close>

text \<open>Printers for what the codecs read, and the TOML value of a configuration: optional fields
  that are absent, and nothing else, are omitted.\<close>

record printers =
  show_key :: "key \<Rightarrow> string"
  show_ip :: "ip_addr \<Rightarrow> string"
  show_socket :: "socket_addr \<Rightarrow> string"

definition inverse_codecs :: "codecs \<Rightarrow> printers \<Rightarrow> bool" where
  "inverse_codecs cod pr \<longleftrightarrow>
     (\<forall>k. base64_decode cod (show_key pr k) = Inr k)
     \<and> (\<forall>a. parse_ip cod (show_ip pr a) = Some a)
     \<and> (\<forall>a. parse_socket cod (show_socket pr a) = Some a)"

definition entry :: "string \<Rightarrow> ('a \<Rightarrow> toml) \<Rightarrow> 'a option \<Rightarrow> (string \<times> toml) list" where
  "entry name f v = (case v of None \<Rightarrow> [] | Some a \<Rightarrow> [(name, f a)])"

fun private_key_toml :: "printers \<Rightarrow> private_key_config \<Rightarrow> toml" where
  "private_key_toml pr (Software k) = TString (show_key pr k)"
| "private_key_toml pr (Smartcard i) = TTable [(''smartcard'', TString i)]"
| "private_key_toml pr SmartcardAuto = TTable [(''smartcard'', TString ''auto'')]"

definition interface_toml :: "printers \<Rightarrow> interface \<Rightarrow> toml" where
  "interface_toml pr i = TTable
     ([(''private_key'', private_key_toml pr (if_private_key i))]
      @ entry ''listen_port'' (\<lambda>p. TInteger (uint p)) (if_listen_port i)
      @ [(''address'', TArray (map TString (if_address i)))]
      @ entry ''mtu'' TInteger (if_mtu i)
      @ [(''dns'', TArray (map (\<lambda>a. TString (show_ip pr a)) (if_dns i)))]
      @ [(''smartcard'', TTable [(''pin_entry'', TString (pin_entry (if_smartcard i)))])])"

definition peer_toml :: "printers \<Rightarrow> peer \<Rightarrow> toml" where
  "peer_toml pr p = TTable
     ([(''public_key'', TString (show_key pr (p_public_key p)))]
      @ entry ''preshared_key'' (\<lambda>k. TString (show_key pr k)) (p_preshared_key p)
      @ entry ''endpoint'' (\<lambda>a. TString (show_socket pr a)) (p_endpoint p)
      @ [(''allowed_ips'', TArray (map TString (p_allowed_ips p)))]
      @ entry ''persistent_keepalive'' (\<lambda>s. TInteger (uint s)) (p_persistent_keepalive p))"

definition config_toml :: "printers \<Rightarrow> config \<Rightarrow> toml" where
  "config_toml pr c = TTable
     [(''interface'', interface_toml pr (c_interface c)),
      (''peer'', TArray (map (peer_toml pr) (c_peers c)))]"

lemma visit_entries_append:
  "visit_entries field (xs @ ys) st = bind_outcome (visit_entries field xs st) (visit_entries field ys)"
proof (induction xs arbitrary: st)
  case (Cons e xs)
  then show ?case by (cases e; cases "field (fst e) (snd e) st") auto
qed simp

lemma visit_entry:
  "visit_entries field (entry name f v) st =
     (case v of None \<Rightarrow> Ok st | Some a \<Rightarrow> field name (f a) st)"
  by (cases v; simp add: entry_def) (cases "field name (f (the v)) st"; simp)

lemma de_list_map: "(\<And>x. x \<in> set xs \<Longrightarrow> de (f x) = Ok x) \<Longrightarrow> de_list de (map f xs) = Ok xs"
  by (induction xs) auto

lemma de_u16_uint [simp]: "de_u16 (TInteger (uint p)) = Ok p"
  using uint_lt2p [of p] by simp

lemma private_key_roundtrip:
  "inverse_codecs cod pr \<Longrightarrow> wf_private_key k \<Longrightarrow>
   deserialize_private_key cod (private_key_toml pr k) = Ok k"
  by (cases k) (simp_all add: inverse_codecs_def visit_str_def visit_map_def required_def)

lemma interface_roundtrip:
  assumes "inverse_codecs cod pr" and "wf_interface i"
  shows "deserialize_interface cod (interface_toml pr i) = Ok i"
proof -
  have ips: "de_list (de_from_str (parse_ip cod)) (map (\<lambda>a. TString (show_ip pr a)) xs) = Ok xs" for xs
    by (rule de_list_map) (use assms(1) in \<open>simp add: de_from_str_def inverse_codecs_def\<close>)
  have strs: "de_list de_string (map TString xs) = Ok xs" for xs
    by (rule de_list_map) simp
  have key: "deserialize_private_key cod (private_key_toml pr (if_private_key i)) = Ok (if_private_key i)"
    using assms private_key_roundtrip by (simp add: wf_interface_def)
  have mtu: "de_i32 (TInteger n) = Ok n" if "if_mtu i = Some n" for n
    using assms(2) that by (simp add: wf_interface_def)
  show ?thesis
    by (cases "if_listen_port i"; cases "if_mtu i")
      (simp_all add: deserialize_interface_def interface_toml_def visit_entries_append visit_entry
        interface_field_def set_once_def no_interface_fields_def ips strs key mtu
        finish_interface_def required_def or_default_def deserialize_smartcard_settings_def
        smartcard_field_def del: de_u16.simps de_i32.simps bind_outcome_Ok)
qed

lemma peer_roundtrip:
  assumes "inverse_codecs cod pr" and "wf_peer p"
  shows "deserialize_peer cod (peer_toml pr p) = Ok p"
proof -
  have strs: "de_list de_string (map TString xs) = Ok xs" for xs
    by (rule de_list_map) simp
  have psk: "deserialize_option_key_base64 cod (TString (show_key pr k)) = Ok (Some k)"
    if "p_preshared_key p = Some k" for k
    using assms that
    by (simp add: deserialize_option_key_base64_def decode_key_def inverse_codecs_def wf_peer_def)
  have key: "deserialize_key_base64 cod (TString (show_key pr (p_public_key p))) = Ok (p_public_key p)"
    using assms
    by (simp add: deserialize_key_base64_def decode_key_def inverse_codecs_def wf_peer_def)
  have ep: "de_from_str (parse_socket cod) (TString (show_socket pr a)) = Ok a" for a
    using assms(1) by (simp add: de_from_str_def inverse_codecs_def)
  show ?thesis
    by (cases "p_preshared_key p"; cases "p_endpoint p"; cases "p_persistent_keepalive p")
      (simp_all add: deserialize_peer_def peer_toml_def visit_entries_append visit_entry
        peer_field_def set_once_def no_peer_fields_def strs psk key ep finish_peer_def required_def
        or_default_def del: de_u16.simps bind_outcome_Ok)
qed

lemma config_roundtrip:
  assumes "inverse_codecs cod pr" and "wf_config c"
  shows "deserialize_config cod (config_toml pr c) = Ok c"
proof -
  have "de_list (deserialize_peer cod) (map (peer_toml pr) (c_peers c)) = Ok (c_peers c)"
    by (rule de_list_map) (use assms peer_roundtrip in \<open>simp add: wf_config_def list_all_iff\<close>)
  moreover have "deserialize_interface cod (interface_toml pr (c_interface c)) = Ok (c_interface c)"
    using assms interface_roundtrip by (simp add: wf_config_def)
  ultimately show ?thesis
    by (simp add: deserialize_config_def config_toml_def config_field_def set_once_def required_def
        or_default_def del: bind_outcome_Ok)
qed

section \<open>Properties\<close>

text \<open>Codecs for the witnesses that invert their printers: every byte is one character.\<close>

definition byte_char :: "u8 \<Rightarrow> char" where
  "byte_char b = char_of (unat b)"

definition char_byte :: "char \<Rightarrow> u8" where
  "char_byte c = word_of_nat (of_char c)"

lemma u8_lt: "unat (b :: u8) < 256"
  using unsigned_less [of b, where 'a = nat] by simp

lemma char_byte_char [simp]: "char_byte (byte_char b) = b"
  by (rule word_unat_eq_iff [THEN iffD2])
    (simp add: char_byte_def byte_char_def unat_of_nat take_bit_eq_mod u8_lt)

lemma char_bytes [simp]: "map (char_byte \<circ> byte_char) bs = bs"
  by (simp add: map_idI)

fun ip_text :: "ip_addr \<Rightarrow> string" where
  "ip_text (IpV4 w) = CHR ''4'' # map byte_char (to_be 4 w)"
| "ip_text (IpV6 w) = CHR ''6'' # map byte_char (to_be 16 w)"

fun text_ip :: "string \<Rightarrow> ip_addr option" where
  "text_ip [] = None"
| "text_ip (c # cs) =
     (if c = CHR ''4'' then Some (IpV4 (from_be (map char_byte cs)))
      else Some (IpV6 (from_be (map char_byte cs))))"

definition cod_demo :: codecs where
  "cod_demo = \<lparr>base64_decode = (\<lambda>s. Inr (map char_byte s)), parse_ip = text_ip,
     parse_socket = (\<lambda>s. map_option
       (\<lambda>a. \<lparr>sa_ip = a, sa_port = from_be (map char_byte (take 2 s))\<rparr>) (text_ip (drop 2 s)))\<rparr>"

definition pr_demo :: printers where
  "pr_demo = \<lparr>show_key = map byte_char, show_ip = ip_text,
     show_socket = (\<lambda>a. map byte_char (to_be 2 (sa_port a)) @ ip_text (sa_ip a))\<rparr>"

lemma inverse_demo: "inverse_codecs cod_demo pr_demo"
proof -
  have "text_ip (ip_text a) = Some a" for a by (cases a) simp_all
  moreover have "(from_be (to_be 2 w) :: u16) = w" for w
    by (simp add: from_be_to_be_take take_bit_word_eq_self)
  moreover have "length (to_be 2 (w :: u16)) = 2" for w by simp
  ultimately show ?thesis by (simp add: inverse_codecs_def cod_demo_def pr_demo_def)
qed

definition config_demo :: config where
  "config_demo = \<lparr>c_interface = \<lparr>if_private_key = Smartcard ''0006:15422467'', if_listen_port = Some 51820,
      if_address = [''10.0.0.1/24''], if_mtu = None, if_dns = [IpV4 0x01010101],
      if_smartcard = \<lparr>pin_entry = ''env:WG_PIN''\<rparr>\<rparr>,
     c_peers = [\<lparr>p_public_key = replicate 32 7, p_preshared_key = None,
      p_endpoint = Some \<lparr>sa_ip = IpV4 0xCB007102, sa_port = 51820\<rparr>,
      p_allowed_ips = [''10.0.0.2/32''], p_persistent_keepalive = Some 25\<rparr>]\<rparr>"

text \<open>C9: What the reader accepts is well formed, and what is well formed can be written down.
  An accepted configuration has a private key, public keys and pre-shared keys of exactly 32
  bytes, an MTU that fits 32 bits and no card identity called \<^verbatim>\<open>auto\<close>; and every such
  configuration is read back unchanged from the TOML value that states its fields, whatever
  codecs are used, as long as they invert their printers.\<close>

theorem deserialize_config_exact:
  "(\<forall>v c. deserialize_config cod v = Ok c \<longrightarrow> wf_config c)
   \<and> (inverse_codecs cod pr \<longrightarrow> (\<forall>c. wf_config c \<longrightarrow> deserialize_config cod (config_toml pr c) = Ok c))"
  by (simp add: config_wf config_roundtrip)

theorem deserialize_config_exact_witness:
  "deserialize_config cod_demo (config_toml pr_demo config_demo) = Ok config_demo
   \<and> wf_config config_demo"
proof -
  have "wf_config config_demo"
    by (simp add: config_demo_def wf_config_def wf_interface_def wf_peer_def)
  with deserialize_config_exact [of cod_demo pr_demo] inverse_demo show ?thesis by blast
qed

lemma map_entries_Ok:
  "map_entries es st = Ok r \<longleftrightarrow>
     (\<exists>ids. es = map (\<lambda>i. (''smartcard'', TString i)) ids \<and> r = (if ids = [] then st else Some (last ids)))"
proof (induction es arbitrary: st)
  case Nil
  then show ?case by auto
next
  case (Cons e es)
  obtain k v where e: "e = (k, v)" by fastforce
  show ?case
  proof (cases "k = ''smartcard'' \<and> (\<exists>s. v = TString s)")
    case True
    then obtain s where s: "k = ''smartcard''" "v = TString s" by blast
    have "(\<exists>ids. es = map (\<lambda>i. (''smartcard'', TString i)) ids \<and> r = (if ids = [] then Some s else Some (last ids)))
      \<longleftrightarrow> (\<exists>ids. e # es = map (\<lambda>i. (''smartcard'', TString i)) ids \<and> r = (if ids = [] then st else Some (last ids)))"
      unfolding e s by (fastforce simp: Cons_eq_map_conv)
    then show ?thesis using Cons.IH [of "Some s"] e s by simp
  next
    case False
    then have "map_entries (e # es) st \<noteq> Ok r"
      using e by (cases v) auto
    moreover have "\<nexists>ids. e # es = map (\<lambda>i. (''smartcard'', TString i)) ids"
      using False e by (auto simp: Cons_eq_map_conv)
    ultimately show ?thesis by metis
  qed
qed

text \<open>C15: The shape of the private key decides how it is sourced.  A string is a software key and
  is accepted exactly when it decodes to 32 bytes, a table is a card and is accepted exactly when
  it is not empty and has no key but \<^verbatim>\<open>smartcard\<close>, each with a string; the last one counts, and
  \<^verbatim>\<open>auto\<close> selects the first card.  Nothing else is a private key.\<close>

theorem private_key_sources:
  "deserialize_private_key cod v = Ok c \<longleftrightarrow>
     (case v of
        TString s \<Rightarrow> (\<exists>k. base64_decode cod s = Inr k \<and> length k = 32 \<and> c = Software k)
      | TTable es \<Rightarrow> \<exists>ids. ids \<noteq> [] \<and> es = map (\<lambda>i. (''smartcard'', TString i)) ids
          \<and> c = (if last ids = ''auto'' then SmartcardAuto else Smartcard (last ids))
      | _ \<Rightarrow> False)"
proof (cases v)
  case (TString s)
  then show ?thesis by (auto simp: visit_str_def split: sum.splits)
next
  case (TTable es)
  then show ?thesis by (auto simp: visit_map_def map_entries_Ok split: if_splits)
qed (auto simp: visit_map_def datetime_entries_def)

lemma same_entry:
  assumes "\<And>st. field k v st = field k' v' st"
  shows "de_struct what decl field blank finish (TTable (es @ (k, v) # fs))
       = de_struct what decl field blank finish (TTable (es @ (k', v') # fs))"
proof -
  have "visit_entries field ((k, v) # fs) = visit_entries field ((k', v') # fs)"
    using assms by (intro ext) simp
  then show ?thesis by (simp only: de_struct.simps visit_entries_append)
qed

lemma skipped_entry:
  assumes "\<And>st. field k v st = Ok st"
  shows "de_struct what decl field blank finish (TTable (es @ (k, v) # fs))
       = de_struct what decl field blank finish (TTable (es @ fs))"
proof -
  have "visit_entries field ((k, v) # fs) = visit_entries field fs"
    using assms by (intro ext) simp
  then show ?thesis by (simp only: de_struct.simps visit_entries_append)
qed

text \<open>Two ways to write the same interface.  A single address string means the list of that one
  address, the capital spellings of \<^verbatim>\<open>mtu\<close> and \<^verbatim>\<open>dns\<close> mean the small ones, and a key the
  structure does not have means nothing, wherever the entry stands.\<close>

theorem interface_spellings:
  "deserialize_interface cod (TTable (es @ (''address'', TString a) # fs))
     = deserialize_interface cod (TTable (es @ (''address'', TArray [TString a]) # fs))
   \<and> deserialize_interface cod (TTable (es @ (''MTU'', v) # fs))
     = deserialize_interface cod (TTable (es @ (''mtu'', v) # fs))
   \<and> deserialize_interface cod (TTable (es @ (''DNS'', v) # fs))
     = deserialize_interface cod (TTable (es @ (''dns'', v) # fs))
   \<and> (k \<notin> {''private_key'', ''listen_port'', ''address'', ''mtu'', ''MTU'', ''dns'', ''DNS'', ''smartcard''} \<longrightarrow>
        deserialize_interface cod (TTable (es @ (k, v) # fs))
          = deserialize_interface cod (TTable (es @ fs)))"
  unfolding deserialize_interface_def
  by (intro conjI impI same_entry skipped_entry)
    (simp_all add: interface_field_def del: bind_outcome_Ok)

theorem interface_spellings_witness:
  "deserialize_interface cod_demo (TTable [(''private_key'', TString ''x''), (''comment'', TInteger 1)])
     = deserialize_interface cod_demo (TTable [(''private_key'', TString ''x'')])"
  using interface_spellings [of cod_demo "[(''private_key'', TString ''x'')]" _ "[]" "TInteger 1" "''comment''"]
  by simp

end
