(* ===== verification/CardOracle.thy ===== *)
theory CardOracle
  imports CardHandle
begin

text \<open>
  The card handle as an oracle.  The locale \<open>dh_oracle\<close> is the contract of the trait
  \<^verbatim>\<open>AsyncDhOracle\<close> as the handshakes use it: every key answered is the shared secret of one
  fixed identity with the key asked for.  The handle provides it over any card stack that
  keeps the contract \<open>openpgp\<close>, whatever happened to the handle before.
\<close>

section \<open>The oracle\<close>

fun ask_all :: "('k \<Rightarrow> ('s, ('e, 'a) outcome) state) \<Rightarrow> 'k list \<Rightarrow> ('s, ('e, 'a) outcome list) state" where
  "ask_all ask [] = State_Monad.return []"
| "ask_all ask (pk # pks) = do {
     r \<leftarrow> ask pk;
     rs \<leftarrow> ask_all ask pks;
     State_Monad.return (r # rs)
   }"

locale dh_oracle =
  fixes good :: "'s \<Rightarrow> bool"
    and ask :: "key \<Rightarrow> ('s, (crypto_error, key) outcome) state"
    and shared :: "key \<Rightarrow> key"
  assumes ask_good: "good s \<Longrightarrow> run_state (ask pk) s = (r, s') \<Longrightarrow> good s'"
    and ask_sound: "good s \<Longrightarrow> run_state (ask pk) s = (Ok k, s') \<Longrightarrow> k = shared pk"
begin

text \<open>The four secrets of a handshake, or any number of them, asked one after the other.\<close>

lemma ask_all_sound:
  assumes "good s" and "run_state (ask_all ask pks) s = (rs, s')"
  shows "good s' \<and> list_all2 (\<lambda>pk r. \<forall>k. r = Ok k \<longrightarrow> k = shared pk) pks rs"
  using assms
proof (induction pks arbitrary: s rs s')
  case Nil
  then show ?case by simp
next
  case (Cons pk pks)
  obtain r s1 where one: "run_state (ask pk) s = (r, s1)" by (metis prod.exhaust)
  obtain rs1 s2 where rest: "run_state (ask_all ask pks) s1 = (rs1, s2)" by (metis prod.exhaust)
  from Cons.prems one rest have "rs = r # rs1" "s' = s2" by auto
  with Cons.IH [OF ask_good [OF Cons.prems(1) one] rest] ask_sound [OF Cons.prems(1)] one
  show ?case by auto
qed

lemma ask_all_agree:
  assumes "good s" and "run_state (ask_all ask pks) s = (rs, s')"
    and "i < length pks" and "j < length pks" and "pks ! i = pks ! j"
    and "rs ! i = Ok k" and "rs ! j = Ok k'"
  shows "k = k'"
  using ask_all_sound [OF assms(1,2)] assms(3-) by (auto simp: list_all2_conv_all_nth) metis

end

section \<open>The card handle provides it\<close>

definition good_handle ::
  "('c \<Rightarrow> string) \<Rightarrow> (key \<Rightarrow> key) \<Rightarrow> string \<Rightarrow> ('c, 'w) card_handle \<Rightarrow> bool" where
  "good_handle holder shared i h \<longleftrightarrow>
     ident h = i \<and> (\<forall>c. thread h = Some c \<longrightarrow> holder c = i)
     \<and> length (queue h) \<le> MAX_HANDSHAKE_REQUEST
     \<and> (\<forall>pk k. ss_cache h pk = Some k \<longrightarrow> k = shared pk)"

locale card_oracle = openpgp P holder speaker ecdh
  for P :: "('b, 'c, 't, 'w) pcsc" and holder speaker ecdh +
  fixes pin :: string and i :: string
begin

abbreviation good :: "('c, 'w) card_handle \<Rightarrow> bool" where
  "good \<equiv> good_handle holder (ecdh i) i"

lemma try_send_good: "good h \<Longrightarrow> good (snd (run_state (try_send req) h))"
  by (auto simp: good_handle_def try_send_def not_le MAX_HANDSHAKE_REQUEST_def)

lemma drain_good:
  assumes "good h" and "run_state (drain P pin) h = (rs, h')"
  shows "good h'"
  using assms by (auto simp: good_handle_def drain_def split: option.splits prod.splits
      dest: serve_all_sound)

lemma drain_last:
  assumes "good h" and "run_state (drain P pin) h = (rs, h')"
    and "queue h = q @ [Dh pk]" and "rs \<noteq> []" and "last rs = Some (DhReply (Ok k))"
  shows "k = ecdh i pk"
proof -
  obtain c where c: "thread h = Some c"
    using assms(2,4) by (auto simp: drain_def split: option.splits)
  obtain c' s' where "run_state (serve_all P (ident h) pin c (queue h)) (sys h) = ((rs, c'), s')"
    using assms(2) c by (auto simp: drain_def split: prod.splits)
  from serve_all_sound [OF this] assms(1,3,4,5) c show ?thesis
    by (auto simp: good_handle_def list_all2_append1 list_all2_Cons1)
qed


lemma send_queue:
  assumes "run_state (try_send req) h = (Sent, h')"
  shows "queue h' = queue h @ [req] \<and> thread h' = thread h \<and> thread h \<noteq> None
    \<and> ident h' = ident h \<and> sys h' = sys h \<and> ss_cache h' = ss_cache h"
  using assms by (auto simp: try_send_def split: if_splits)

lemma await_good:
  assumes "good h" and "run_state (await_last P pin) h = (r, h')"
  shows "good h'"
  using assms by (auto simp: await_last_def split: prod.splits dest: drain_good)

lemma dh_good:
  assumes "good h" and "run_state (dh P pin pk) h = (r, h')"
  shows "good h' \<and> (\<forall>k. r = Ok k \<longrightarrow> k = ecdh i pk)"
proof (cases "run_state (try_send (Dh pk)) h")
  case (Pair sent h1)
  have good1: "good h1" using try_send_good [OF assms(1), of "Dh pk"] Pair by simp
  show ?thesis
  proof (cases sent)
    case Sent
    obtain rs h2 where d: "run_state (drain P pin) h1 = (rs, h2)" by fastforce
    have q: "queue h1 = queue h @ [Dh pk]" using send_queue Pair Sent by blast
    from drain_last [OF good1 d q] drain_good [OF good1 d] assms(2) Pair Sent d show ?thesis
      by (auto simp: dh_def await_last_def split: if_splits option.splits reply.splits)
  qed (use assms(2) Pair good1 in \<open>auto simp: dh_def\<close>)
qed

lemma pubkey_good:
  assumes "good h" and "run_state (pubkey P pin) h = (r, h')"
  shows "good h'"
  using assms try_send_good [OF assms(1), of PubKey]
  by (auto simp: pubkey_def split: prod.splits send_result.splits dest: await_good)

lemma prime_good:
  assumes "good h" and "run_state (prime_ss P pin pk) h = (r, h')"
  shows "good h'"
  using assms dh_good [OF assms(1), of pk]
  by (auto simp: prime_ss_def run_and_then good_handle_def split: prod.splits outcome.splits if_splits)

lemma ask_good:
  assumes "good h" and "run_state (async_x25519 P pin pk) h = (r, h')"
  shows "good h' \<and> (\<forall>k. r = Ok k \<longrightarrow> k = ecdh i pk)"
proof (cases "ss_cache h pk")
  case None
  with assms dh_good [OF assms(1), of pk] show ?thesis
    by (auto simp: async_x25519_def split: prod.splits)
next
  case (Some k)
  with assms show ?thesis by (auto simp: async_x25519_def good_handle_def)
qed

lemma step_good:
  assumes "good h" shows "good (handle_step P pin e h)"
proof (cases e)
  case (AskKey pk)
  then show ?thesis using ask_good [OF assms] by (metis handle_step.simps(1) prod.collapse)
next
  case (PrimeSs pk)
  then show ?thesis using prime_good [OF assms] by (metis handle_step.simps(2) prod.collapse)
next
  case AskPubKey
  then show ?thesis using pubkey_good [OF assms]
    by (metis handle_step.simps(4) prod.collapse async_x25519_pubkey_def)
next
  case WorkOff
  then show ?thesis using drain_good [OF assms] by (metis handle_step.simps(6) prod.collapse)
next
  case (AbandonedAsk pk)
  then show ?thesis using assms try_send_good [OF assms] by simp
qed (use assms in \<open>auto simp: good_handle_def forget_peer_def split: if_splits\<close>)

lemma reaches_good: "reaches P pin h h' \<Longrightarrow> good h \<Longrightarrow> good h'"
  by (induction rule: reaches.induct) (simp_all add: step_good)

lemma open_good:
  assumes "open_card P spawned q pin s = Ok h" and "ident h = i"
  shows "good h \<and> (q = ''auto'' \<or> q = i)"
  using assms
  by (auto simp: open_card_def spawn_card_thread_def good_handle_def
      split: prod.splits sum.splits outcome.splits dest: open_holder)

end

sublocale card_oracle \<subseteq> asked: dh_oracle good "async_x25519 P pin" "ecdh i"
  by unfold_locales (use ask_good in fastforce)+

context card_oracle
begin

lemma answers_sound:
  assumes "good h" and "run_state (ask_all (async_x25519 P pin) pks) h = (rs, h')"
  shows "good h' \<and> list_all2 (\<lambda>pk r. \<forall>k. r = Ok k \<longrightarrow> k = ecdh i pk) pks rs"
  by (rule asked.ask_all_sound [OF assms])

end

interpretation sim_handle: card_oracle "sim_api f pin ids" fst "\<lambda>t. t" "\<lambda>i pk. take 32 (f i pk)" tried me
  for f pin ids tried me
  by unfold_locales

definition handle_demo :: "(string \<times> nat, sim) card_handle" where
  "handle_demo = \<lparr>ss_cache = Map.empty, ident = ''a'', queue = [], thread = Some (''a'', 0),
     sys = \<lparr>op_log = [OpScan, OpVerify], card_world = \<lparr>sim_gen = 0, sim_tries = 3\<rparr>\<rparr>\<rparr>"

abbreviation demo_api :: "(string, string \<times> nat, string, sim) pcsc" where
  "demo_api \<equiv> sim_api mix ''1'' [''b'', ''a'']"

lemma open_demo: "open_card demo_api (Inr ()) ''a'' ''1'' (sim_start 0 3) = Ok handle_demo"
  by (simp add: sim_run open_card_def spawn_card_thread_def open_and_verify_def try_backend_def
      select_material_def handle_demo_def)

lemmas handle_run = try_send_def drain_def await_last_def dh_def pubkey_def prime_ss_def
  async_x25519_def handle_demo_def MAX_HANDSHAKE_REQUEST_def decipher_with_retry_def try_decipher_def

text \<open>C23: The handle is a correct oracle for the life of the tunnel.  Once \<^verbatim>\<open>CardHandle::open\<close> has
  returned a handle, and after any sequence of its operations, of calls abandoned while waiting
  and of work of the card thread, every key \<^verbatim>\<open>async_x25519\<close> answers, from the cache or from the
  card, is the shared secret of the identity opened with the key asked for; the identity never
  changes, is the one asked for unless \<^verbatim>\<open>auto\<close> was, and at most 32 requests are ever queued.\<close>

theorem async_x25519_answers_correct:
  assumes "openpgp P holder speaker ecdh"
    and "open_card P spawned requested pin s = Ok h0"
    and "reaches P pin h0 h"
    and "run_state (ask_all (async_x25519 P pin) pks) h = (rs, h')"
  shows "list_all2 (\<lambda>pk r. \<forall>k. r = Ok k \<longrightarrow> k = ecdh (ident h0) pk) pks rs
    \<and> ident h' = ident h0 \<and> (requested = ''auto'' \<or> requested = ident h0)
    \<and> length (queue h') \<le> 32"
proof -
  note o = card_oracle.intro [OF assms(1)]
  have start: "good_handle holder (ecdh (ident h0)) (ident h0) h0"
      "requested = ''auto'' \<or> requested = ident h0"
    using card_oracle.open_good [OF o assms(2)] by auto
  from card_oracle.answers_sound [OF o card_oracle.reaches_good [OF o assms(3) start(1)] assms(4)]
    start(2) show ?thesis
    by (simp add: good_handle_def MAX_HANDSHAKE_REQUEST_def)
qed

theorem async_x25519_answers_correct_witness:
  "fst (run_state (ask_all (async_x25519 demo_api ''1'') [pk_demo, pk_demo])
      (handle_step demo_api ''1'' (PrimeSs pk_demo)
        (handle_step demo_api ''1'' (AbandonedAsk pk_demo) handle_demo))) = [Ok ss_demo, Ok ss_demo]
   \<and> ss_demo = take 32 (mix ''a'' pk_demo)"
proof -
  let ?h = "handle_step demo_api ''1'' (PrimeSs pk_demo)
        (handle_step demo_api ''1'' (AbandonedAsk pk_demo) handle_demo)"
  let ?run = "run_state (ask_all (async_x25519 demo_api ''1'') [pk_demo, pk_demo]) ?h"
  have answers: "fst ?run = [Ok ss_demo, Ok ss_demo]"
    by (simp add: handle_run sim_run)
  have reached: "reaches demo_api ''1'' handle_demo ?h"
    by (intro reaches.intros)
  have "?run = ([Ok ss_demo, Ok ss_demo], snd ?run)"
    by (rule prod_eqI) (simp_all only: answers fst_conv snd_conv)
  from async_x25519_answers_correct [OF sim.openpgp_axioms open_demo reached this] answers
  show ?thesis by (simp add: handle_demo_def)
qed

section \<open>The cache\<close>

lemma prime_stores:
  assumes "run_state (prime_ss P pin pk) h = (Ok (), h1)"
  shows "\<exists>k. fst (run_state (dh P pin pk) h) = Ok k \<and> ss_cache h1 pk = Some k"
  using assms by (auto simp: prime_ss_def run_and_then split: prod.splits outcome.splits)

lemma dh_cache: "ss_cache (snd (run_state (dh P pin pk) h)) = ss_cache h"
  by (auto simp: dh_def try_send_def await_last_def drain_def split: prod.split option.split reply.split)
lemma pubkey_cache: "ss_cache (snd (run_state (pubkey P pin) h)) = ss_cache h"
  by (auto simp: pubkey_def try_send_def await_last_def drain_def split: prod.split option.split reply.split)

lemma ask_cache: "ss_cache (snd (run_state (async_x25519 P pin pk) h)) = ss_cache h"
  using dh_cache [of P pin pk h] by (auto simp: async_x25519_def split: prod.split option.split)

lemma prime_cache:
  "pk' \<noteq> pk \<Longrightarrow> ss_cache (snd (run_state (prime_ss P pin pk') h)) pk = ss_cache h pk"
  using dh_cache [of P pin pk' h]
  by (auto simp: prime_ss_def run_and_then split: prod.split outcome.split)

lemma step_cache:
  assumes "e \<notin> {ForgetPeer pk, PrimeSs pk}"
  shows "ss_cache (handle_step P pin e h) pk = ss_cache h pk"
  using assms
  by (cases e) (auto simp: ask_cache pubkey_cache prime_cache async_x25519_pubkey_def
      forget_peer_def try_send_def drain_def split: prod.split option.split)

text \<open>C31: Priming takes the card out of later handshakes.  After a \<^verbatim>\<open>prime_ss\<close> that succeeded,
  \<^verbatim>\<open>async_x25519\<close> for that peer answers the very key the card computed, without sending a
  request or touching the handle or the card at all; and no single operation other than
  forgetting or priming that peer changes its answer.\<close>

theorem prime_ss_serves_from_cache:
  assumes "run_state (prime_ss P pin pk) h = (Ok (), h1)"
  shows "\<exists>k. fst (run_state (dh P pin pk) h) = Ok k
    \<and> run_state (async_x25519 P pin pk) h1 = (Ok k, h1)
    \<and> (\<forall>e. e \<notin> {ForgetPeer pk, PrimeSs pk} \<longrightarrow>
          fst (run_state (async_x25519 P pin pk) (handle_step P pin e h1)) = Ok k)"
proof -
  obtain k where k: "fst (run_state (dh P pin pk) h) = Ok k" "ss_cache h1 pk = Some k"
    using prime_stores [OF assms] by blast
  then show ?thesis
    using step_cache [of _ pk P pin h1] by (auto simp: async_x25519_def)
qed

theorem prime_ss_serves_from_cache_witness:
  "\<exists>h1. run_state (prime_ss demo_api ''1'' pk_demo) handle_demo = (Ok (), h1)
     \<and> (\<exists>k. run_state (async_x25519 demo_api ''1'' pk_demo) (handle_step demo_api ''1'' ThreadEnds h1)
            = (Ok k, handle_step demo_api ''1'' ThreadEnds h1))"
proof -
  let ?run = "run_state (prime_ss demo_api ''1'' pk_demo) handle_demo"
  have "fst ?run = Ok ()" by (simp add: handle_run sim_run)
  then have run: "?run = (Ok (), snd ?run)" by (metis prod.collapse)
  from prime_ss_serves_from_cache [OF this] obtain k where
    "fst (run_state (async_x25519 demo_api ''1'' pk_demo)
       (handle_step demo_api ''1'' ThreadEnds (snd ?run))) = Ok k" by blast
  then have "run_state (async_x25519 demo_api ''1'' pk_demo)
       (handle_step demo_api ''1'' ThreadEnds (snd ?run))
     = (Ok k, handle_step demo_api ''1'' ThreadEnds (snd ?run))"
    by (auto simp: async_x25519_def dh_def try_send_def split: option.splits)
  with run show ?thesis by blast
qed

lemma decipher_with_retry_logs:
  assumes "run_state (decipher_with_retry P c i pin pk) s = ((Ok k, c'), s')"
  shows "\<exists>es. op_log s' = op_log s @ es \<and> OpDecipher \<in> set es"
proof -
  obtain r1 s1 where one: "run_state (try_decipher P c pin pk) s = (r1, s1)" by fastforce
  then obtain a where a: "op_log s1 = op_log s @ a" "decipher_log r1 a"
    by (rule emitsD [OF try_decipher_emits])
  show ?thesis
  proof (cases r1)
    case (Err e)
    obtain r2 s2 where two: "run_state (reconnect P i) s1 = (r2, s2)" by fastforce
    then have b: "op_log s2 = op_log s1 @ [OpScan]"
      by (auto elim: emitsD [OF reconnect_emits])
    from assms one two Err obtain c2 where "r2 = Ok c2"
        and three: "run_state (try_decipher P c2 pin pk) s2 = (Ok k, s')"
      by (auto simp: decipher_with_retry_def split: outcome.splits prod.splits)
    from three obtain d where "op_log s' = op_log s2 @ d" "decipher_log (Ok k) d"
      by (rule emitsD [OF try_decipher_emits])
    with a b show ?thesis by (auto simp: decipher_log_def)
  qed (use assms one a in \<open>auto simp: decipher_with_retry_def decipher_log_def\<close>)
qed

lemma serve_dh: "run_state (serve_all P i pin c [Dh pk]) s =
  (case run_state (decipher_with_retry P c i pin pk) s of ((r, c'), s') \<Rightarrow> (([Some (DhReply r)], c'), s'))"
  by (simp split: prod.split)

lemma ask_logs:
  assumes "ss_cache h pk = None" and "thread h = Some c" and "queue h = []"
    and "run_state (async_x25519 P pin pk) h = (Ok k, h')"
  shows "ss_cache h' = ss_cache h \<and> thread h' \<noteq> None \<and> queue h' = []
    \<and> (\<exists>es. op_log (sys h') = op_log (sys h) @ es \<and> OpDecipher \<in> set es)"
proof -
  obtain r c' s' where d: "run_state (decipher_with_retry P c (ident h) pin pk) (sys h) = ((r, c'), s')"
    by (metis prod.exhaust)
  with assms have "h' = h\<lparr>thread := Some c', sys := s'\<rparr> \<and> r = Ok k"
    by (cases r) (auto simp: async_x25519_def dh_def try_send_def await_last_def drain_def MAX_HANDSHAKE_REQUEST_def)
  with decipher_with_retry_logs d assms(3) show ?thesis by auto
qed

text \<open>C39: Asking never fills the cache.  \<^verbatim>\<open>async_x25519\<close> leaves the cache as it was, so a static
  key that was not primed goes to the card each time it is asked for: two answered questions
  for the same key log at least two DECIPHER operations.\<close>

theorem async_x25519_never_caches:
  assumes "ss_cache h pk = None" and "thread h \<noteq> None" and "queue h = []"
    and "run_state (ask_all (async_x25519 P pin) [pk, pk]) h = ([Ok k1, Ok k2], h')"
  shows "ss_cache h' = ss_cache h
    \<and> (\<exists>es. op_log (sys h') = op_log (sys h) @ es \<and> count_list es OpDecipher \<ge> 2)"
proof -
  obtain c where c: "thread h = Some c" using assms(2) by blast
  obtain h1 where one: "run_state (async_x25519 P pin pk) h = (Ok k1, h1)"
    and two: "run_state (async_x25519 P pin pk) h1 = (Ok k2, h')"
    using assms(4) by (auto split: prod.splits)
  obtain es where 1: "ss_cache h1 = ss_cache h" "queue h1 = []" "thread h1 \<noteq> None"
      "op_log (sys h1) = op_log (sys h) @ es" "OpDecipher \<in> set es"
    using ask_logs [OF assms(1) c assms(3) one] by blast
  then obtain c1 where "thread h1 = Some c1" by blast
  with ask_logs [OF _ _ _ two, of c1] 1 assms(1) obtain fs where
      "ss_cache h' = ss_cache h1" "op_log (sys h') = op_log (sys h1) @ fs" "OpDecipher \<in> set fs"
    by auto
  moreover have "count_list xs OpDecipher \<ge> 1" if "OpDecipher \<in> set xs" for xs
    using that count_list_0_iff [of xs OpDecipher] by (simp add: Suc_leI)
  ultimately have "count_list (es @ fs) OpDecipher \<ge> 2" "ss_cache h' = ss_cache h"
      "op_log (sys h') = op_log (sys h) @ es @ fs"
    using 1 by (simp_all, metis add_le_mono one_add_one)
  then show ?thesis by blast
qed

theorem async_x25519_never_caches_witness:
  "count_list (op_log (sys (snd (run_state (ask_all (async_x25519 demo_api ''1'') [pk_demo, pk_demo])
      handle_demo)))) OpDecipher \<ge> 2"
proof -
  let ?run = "run_state (ask_all (async_x25519 demo_api ''1'') [pk_demo, pk_demo]) handle_demo"
  have "fst ?run = [Ok ss_demo, Ok ss_demo]" by (simp add: handle_run sim_run)
  then have "?run = ([Ok ss_demo, Ok ss_demo], snd ?run)" by (metis prod.collapse)
  from async_x25519_never_caches [OF _ _ _ this] show ?thesis
    by (auto simp: handle_demo_def)
qed

section \<open>The queue\<close>

lemma try_decipher_not_full: "fst (run_state (try_decipher P c pin pk) s) \<noteq> Err QueueFull"
  by (auto simp: try_decipher_def run_and_then call_def Let_def
        split: prod.split outcome.split elim!: or_err.elims)

lemma reconnect_loop_not_full: "fst (run_state (reconnect_loop P i bs) s) \<noteq> Err QueueFull"
  by (induction bs arbitrary: s) (auto split: prod.split option.split)

lemma reconnect_not_full: "fst (run_state (reconnect P i) s) \<noteq> Err QueueFull"
  using reconnect_loop_not_full [of P i]
  by (auto simp: reconnect_def run_and_then call_def split: prod.split outcome.split
      elim!: or_err.elims)

lemma decipher_with_retry_not_full:
  "fst (fst (run_state (decipher_with_retry P c i pin pk) s)) \<noteq> Err QueueFull"
  using try_decipher_not_full [of P _ pin pk] reconnect_not_full [of P i]
  unfolding decipher_with_retry_def
  by (auto split: prod.split outcome.split) (metis fst_conv)+

lemma serve_not_full:
  assumes "run_state (serve P i pin c req) s = ((r, c'), s')"
  shows "r \<noteq> Some (DhReply (Err QueueFull))"
  using assms decipher_with_retry_not_full [of P c i pin _ s]
  by (cases req)
    (auto simp: ok_then_def split: prod.splits sum.splits key_material.splits if_splits, metis fst_conv)

lemma serve_all_not_full:
  assumes "run_state (serve_all P i pin c reqs) s = ((rs, c'), s')"
  shows "Some (DhReply (Err QueueFull)) \<notin> set rs"
  using assms by (induction reqs arbitrary: c s rs c' s')
   (auto split: prod.splits dest: serve_not_full)

text \<open>C32: Requests are refused exactly when 32 are waiting.  While the thread lives, a shared
  secret is refused with \<^verbatim>\<open>QueueFull\<close> if and only if 32 requests are queued, and then the
  queue stays as it was; otherwise the wait leaves it empty, so a handle whose calls are all
  waited for is never refused.\<close>

theorem queue_full_iff:
  "thread h \<noteq> None \<Longrightarrow>
     (fst (run_state (dh P pin pk) h) = Err QueueFull \<longleftrightarrow> length (queue h) \<ge> 32)
     \<and> queue (snd (run_state (dh P pin pk) h)) = (if length (queue h) \<ge> 32 then queue h else [])"
  by (auto simp: dh_def try_send_def await_last_def drain_def MAX_HANDSHAKE_REQUEST_def
     split: prod.splits option.splits reply.splits dest!: serve_all_not_full)
   (metis last_in_set)+


theorem queue_full_iff_witness:
  "fst (run_state (dh demo_api ''1'' pk_demo) (handle_demo\<lparr>queue := replicate 32 (Dh pk_demo)\<rparr>))
     = Err QueueFull"
  using queue_full_iff [of "handle_demo\<lparr>queue := replicate 32 (Dh pk_demo)\<rparr>" demo_api "''1''" pk_demo]
  by (simp add: handle_demo_def)

section \<open>The public key and the listing\<close>

text \<open>C38: The public key is read from the card again.  A handle just opened asks the card thread,
  which starts a transaction and reads the decryption key once more; whenever that fails, or
  the key is shorter than 32 bytes, the caller panics, on the claim that the key was obtained
  when the card was opened.\<close>

theorem pubkey_reads_card_again:
  assumes "thread h = Some c" and "queue h = []"
  shows "fst (run_state (pubkey P pin) h) =
    (case transaction P c (card_world (sys h)) of
       (Inr t, w) \<Rightarrow>
         (case fst (public_key_material P t w) of
            Inr (E ecc) \<Rightarrow>
              if length ecc < 32 then Panic ''already got the public key when opening''
              else Ok (take 32 ecc)
          | _ \<Rightarrow> Panic ''already got the public key when opening'')
     | _ \<Rightarrow> Panic ''already got the public key when opening'')"
  using assms
  by (auto simp: pubkey_def try_send_def await_last_def drain_def MAX_HANDSHAKE_REQUEST_def ok_then_def
      split: prod.split sum.split key_material.split)

theorem pubkey_reads_card_again_witness:
  "fst (run_state (pubkey demo_api ''1'') (handle_demo\<lparr>thread := Some (''a'', 7)\<rparr>))
     = Panic ''already got the public key when opening''"
  using pubkey_reads_card_again [of "handle_demo\<lparr>thread := Some (''a'', 7)\<rparr>" "(''a'', 7)" demo_api "''1''"]
  by (simp add: handle_demo_def sim_api_def)

text \<open>Looking at a card does not change it.\<close>

definition steady :: "('b, 'c, 't, 'w) pcsc \<Rightarrow> bool" where
  "steady P \<longleftrightarrow>
     (\<forall>w. snd (cards P w) = w) \<and> (\<forall>b w. snd (card_new P b w) = w)
     \<and> (\<forall>c w. snd (transaction P c w) = w) \<and> (\<forall>t w. snd (application_identifier P t w) = w)
     \<and> (\<forall>t w. snd (public_key_material P t w) = w)"

lemma list_one_auto:
  assumes "steady P"
  shows "snd (run_state (list_one P b) s) = s"
    and "snd (run_state (try_backend P ''auto'' b) s) = s"
    and "case fst (run_state (list_one P b) s) of
       None \<Rightarrow> fst (run_state (try_backend P ''auto'' b) s) = None
     | Some i \<Rightarrow> \<exists>c t. fst (run_state (try_backend P ''auto'' b) s) = Some (Ok (c, ci_ident i))
                \<and> fst (transaction P c (card_world s)) = Inr t"
  using assms
  by (auto simp: list_one_def try_backend_def ok_then_def select_material_def steady_def
      split: prod.split sum.split key_material.split)

lemma list_loop_auto:
  assumes "steady P"
  shows "snd (run_state (list_loop P bs) s) = s \<and> snd (run_state (find_card P ''auto'' bs) s) = s
   \<and> (case fst (run_state (list_loop P bs) s) of
        [] \<Rightarrow> fst (run_state (find_card P ''auto'' bs) s) = None
      | i # _ \<Rightarrow> \<exists>c t. fst (run_state (find_card P ''auto'' bs) s) = Some (Ok (c, ci_ident i))
                \<and> fst (transaction P c (card_world s)) = Inr t)"
proof (induction bs)
  case Nil
  then show ?case by simp
next
  case (Cons b bs)
  with list_one_auto [OF assms, of b s] show ?case
    by (cases "run_state (list_one P b) s"; cases "run_state (try_backend P ''auto'' b) s")
      (auto split: option.splits list.splits prod.splits)
qed

text \<open>C34: What is listed is what \<^verbatim>\<open>auto\<close> opens.  When looking at a card does not change it,
  opening \<^verbatim>\<open>auto\<close> takes the first card \<^verbatim>\<open>list_cards\<close> shows, failing only if that card rejects
  the PIN, and finds no card exactly when the list is empty.\<close>

theorem auto_opens_first_listed:
  assumes "steady P" and "fst (run_state (list_cards P) s) = Ok infos"
  shows "case infos of
      [] \<Rightarrow> fst (run_state (open_and_verify P ''auto'' pin) s) = Err (CardNotFound ''auto'')
    | i # _ \<Rightarrow> (\<exists>c. fst (run_state (open_and_verify P ''auto'' pin) s) = Ok (c, ci_ident i))
              \<or> (\<exists>m. fst (run_state (open_and_verify P ''auto'' pin) s) = Err (PinFailed m))"
proof -
  obtain r s1 where scan: "run_state (call CardError (perform OpScan (cards P))) s = (r, s1)"
    by fastforce
  with assms(2) obtain bs where r: "r = Ok bs" and infos: "infos = fst (run_state (list_loop P bs) s1)"
    by (cases r) (auto simp: list_cards_def run_and_then split: prod.splits)
  obtain f s2 where f: "run_state (find_card P ''auto'' bs) s1 = (f, s2)" by fastforce
  note both = list_loop_auto [OF assms(1), of bs s1]
  show ?thesis
  proof (cases infos)
    case Nil
    with both f infos scan r show ?thesis
      by (simp add: open_and_verify_def run_and_then)
  next
    case (Cons i rest)
    with both f infos obtain c t where found: "f = Some (Ok (c, ci_ident i))" "s2 = s1"
        "fst (transaction P c (card_world s1)) = Inr t"
      by (auto split: list.splits)
    have "case fst (run_state (open_and_verify P ''auto'' pin) s) of
        Ok (c, i') \<Rightarrow> i' = ci_ident i | Err (PinFailed m) \<Rightarrow> True | _ \<Rightarrow> False"
      using scan r f found
      by (auto simp: open_and_verify_def run_and_then call_def split: prod.split outcome.split sum.split
          elim!: or_err.elims)
    with Cons show ?thesis
      by (auto split: outcome.splits smartcard_error.splits)
  qed
qed

theorem auto_opens_first_listed_witness:
  "fst (run_state (list_cards demo_api) (sim_start 0 3)) =
     Ok [\<lparr>ci_ident = ''b'', ci_public_key = ss_demo\<rparr>, \<lparr>ci_ident = ''a'', ci_public_key = ss_demo\<rparr>]
   \<and> ((\<exists>c. fst (run_state (open_and_verify demo_api ''auto'' ''1'') (sim_start 0 3)) = Ok (c, ''b''))
      \<or> (\<exists>m. fst (run_state (open_and_verify demo_api ''auto'' ''1'') (sim_start 0 3)) = Err (PinFailed m)))"
proof -
  have "steady demo_api" by (simp add: steady_def sim_api_def)
  moreover have "mix i (9 # replicate 31 0) = ss_demo" if "length i = 1" for i
    using that by (simp add: mix_def ss_demo_def pk_demo_def)
  then have l: "fst (run_state (list_cards demo_api) (sim_start 0 3)) =
     Ok [\<lparr>ci_ident = ''b'', ci_public_key = ss_demo\<rparr>, \<lparr>ci_ident = ''a'', ci_public_key = ss_demo\<rparr>]"
    by (simp add: sim_api_def sim_start_def run_and_then call_def ok_then_def list_cards_def list_one_def)
  ultimately show ?thesis
    using auto_opens_first_listed [OF _ l, of "''1''"] by simp
qed

end
