(* ===== verification/CmdProps.thy ===== *)
theory CmdProps
  imports Cmd ConfigProps CardOracle TunnelTick TunnelDns
begin

text \<open>
  What the subcommands guarantee: which configurations \<^verbatim>\<open>up\<close> accepts and what it hands to the
  tunnel, that nothing is touched before all of it is in order, where the PIN comes from, what
  priming leaves in the cache of the card handle, and that the machine is given back.
\<close>

section \<open>From the configuration to the peers\<close>

lemma bind_outcome_Ok_iff: "bind_outcome m f = Ok b \<longleftrightarrow> (\<exists>a. m = Ok a \<and> f a = Ok b)"
  by (cases m) simp_all

lemma parse_nets_iff: "parse_nets parse ss = Ok ns \<longleftrightarrow> map parse ss = map Inr ns"
  by (induction ss arbitrary: ns)
    (auto simp: bind_outcome_Ok_iff Cons_eq_map_conv split: sum.split)

lemma expect_nets_iff: "expect_nets parse ss = Ok ns \<longleftrightarrow> map parse ss = map Inr ns"
  by (induction ss arbitrary: ns)
    (auto simp: bind_outcome_Ok_iff Cons_eq_map_conv split: sum.split)

lemma expect_nets_cases:
  "(\<exists>ns. expect_nets parse ss = Ok ns) \<or> expect_nets parse ss = Panic ''invalid AllowedIP prefix''"
  by (induction ss) (auto split: sum.split)

lemma expect_nets_Panic_iff:
  "expect_nets parse ss = Panic ''invalid AllowedIP prefix'' \<longleftrightarrow> (\<exists>s\<in>set ss. \<exists>e. parse s = Inl e)"
  by (induction ss) (auto simp: bind_outcome_Panic split: sum.split)

text \<open>What the tunnel is told about a configured peer.\<close>

definition configured_as :: "(string \<Rightarrow> string + ip_net) \<Rightarrow> peer \<Rightarrow> peer_config \<Rightarrow> bool" where
  "configured_as parse p q \<longleftrightarrow>
     map parse (p_allowed_ips p) = map Inr (pc_allowed_ips q)
     \<and> pc_public_key q = p_public_key p \<and> pc_preshared_key q = p_preshared_key p
     \<and> pc_endpoint q = p_endpoint p
     \<and> (case p_persistent_keepalive p of
          None \<Rightarrow> pc_persistent_keepalive q = None
        | Some k \<Rightarrow> pc_persistent_keepalive q = (if k = 0 then None else Some (unat k * 10 ^ 9)))"

lemma peer_of_iff: "peer_of parse p = Ok q \<longleftrightarrow> configured_as parse p q"
  by (cases q) (auto simp: peer_of_def bind_outcome_Ok_iff expect_nets_iff configured_as_def
      keepalive_of_def from_secs_def split: option.splits)

lemma peers_of_iff: "peers_of parse ps = Ok qs \<longleftrightarrow> list_all2 (configured_as parse) ps qs"
  by (induction ps arbitrary: qs) (auto simp: bind_outcome_Ok_iff peer_of_iff list_all2_Cons1)

lemma peers_of_cases:
  "(\<exists>qs. peers_of parse ps = Ok qs) \<or> peers_of parse ps = Panic ''invalid AllowedIP prefix''"
proof (induction ps)
  case (Cons p ps)
  with expect_nets_cases [of parse "p_allowed_ips p"] show ?case by (auto simp: peer_of_def)
qed simp

lemma peers_of_Panic_iff:
  "peers_of parse ps = Panic ''invalid AllowedIP prefix''
     \<longleftrightarrow> (\<exists>p\<in>set ps. \<exists>s\<in>set (p_allowed_ips p). \<exists>e. parse s = Inl e)"
proof (induction ps)
  case (Cons p ps)
  with expect_nets_cases [of parse "p_allowed_ips p"]
    expect_nets_Panic_iff [of parse "p_allowed_ips p"] peers_of_cases [of parse ps]
  show ?case by (auto simp: peer_of_def)
qed simp

lemma configured_positive:
  "list_all2 (configured_as parse) ps qs \<Longrightarrow> \<forall>q\<in>set qs. pc_persistent_keepalive q \<noteq> Some 0"
  by (induction rule: list_all2_induct) (auto simp: configured_as_def unat_eq_0 split: option.splits)

text \<open>C14: The peers the tunnel gets are exactly the ones configured.  When every prefix parses, one
  per configured peer in the same order, with its keys, endpoint and prefixes, and a keepalive of
  the configured number of seconds, in nanoseconds, that is absent for an absent or zero setting,
  so that a keepalive handed on is positive; when some prefix does not parse, and only then, the program panics.\<close>

theorem peers_of_exact:
  "(peers_of parse ps = Ok qs \<longleftrightarrow> list_all2 (configured_as parse) ps qs)
   \<and> (peers_of parse ps = Ok qs \<longrightarrow> (\<forall>q\<in>set qs. pc_persistent_keepalive q \<noteq> Some 0))
   \<and> (peers_of parse ps = Panic ''invalid AllowedIP prefix''
        \<longleftrightarrow> (\<exists>p\<in>set ps. \<exists>s\<in>set (p_allowed_ips p). \<exists>e. parse s = Inl e))"
  using configured_positive by (simp add: peers_of_iff peers_of_Panic_iff)

theorem peers_of_exact_witness:
  "peers_of (\<lambda>_. Inr (NetV4 0x0A000000 8))
     [\<lparr>p_public_key = replicate 32 7, p_preshared_key = None, p_endpoint = None,
       p_allowed_ips = [''10.0.0.0/8''], p_persistent_keepalive = Some 25\<rparr>]
   = Ok [(peer_demo [NetV4 0x0A000000 8])\<lparr>pc_persistent_keepalive := Some 25000000000\<rparr>]"
  using peers_of_exact [of "\<lambda>_. Inr (NetV4 0x0A000000 8)"
     "[\<lparr>p_public_key = replicate 32 7, p_preshared_key = None, p_endpoint = None,
        p_allowed_ips = [''10.0.0.0/8''], p_persistent_keepalive = Some 25\<rparr>]"
     "[(peer_demo [NetV4 0x0A000000 8])\<lparr>pc_persistent_keepalive := Some 25000000000\<rparr>]"]
  by (simp add: configured_as_def peer_demo_def)

section \<open>The PIN\<close>

lemma strip_prefix_iff: "strip_prefix p s = Some r \<longleftrightarrow> s = p @ r"
  by (auto simp: strip_prefix_def) (metis append_take_drop_id)

lemma obtain_pin_Ok_iff:
  "obtain_pin src how = Ok pin \<longleftrightarrow>
      how = ''prompt'' \<and> prompt_password src = Inr pin
      \<or> (\<exists>name. how = ''env:'' @ name \<and> env_var src name = Inr pin)"
proof (cases "strip_prefix ''env:'' how")
  case None
  then have "\<And>name. how \<noteq> ''env:'' @ name" using strip_prefix_iff by (metis option.distinct(1))
  with None show ?thesis by (auto simp: obtain_pin_def split: sum.split)
next
  case (Some name)
  then have "how = ''env:'' @ name" by (simp only: strip_prefix_iff)
  with Some show ?thesis by (auto simp: obtain_pin_def split: sum.split)
qed

text \<open>C18: Where the PIN comes from.  A PIN is obtained exactly from the prompt when the setting is
  \<^verbatim>\<open>prompt\<close>, and from the variable named when it is \<^verbatim>\<open>env:\<close> and a name; every other setting,
  \<^verbatim>\<open>keyring\<close> among them, is an error that asks nobody.\<close>

theorem obtain_pin_exact:
  "(obtain_pin src how = Ok pin \<longleftrightarrow>
      how = ''prompt'' \<and> prompt_password src = Inr pin
      \<or> (\<exists>name. how = ''env:'' @ name \<and> env_var src name = Inr pin))
   \<and> obtain_pin src ''keyring'' = Err ''unsupported pin_entry method: keyring''"
  by (rule conjI [OF obtain_pin_Ok_iff]) (simp add: obtain_pin_def strip_prefix_def)

section \<open>What up hands over\<close>

lemma fail_withE:
  assumes "fail_with show m s go = Some (x, s')"
  obtains (failed) y where "x = Some y" and "y \<noteq> ExitOk" and "s' = s"
  | (went_on) a where "m = Ok a" and "go a = Some (x, s')"
  using assms by (cases m) (auto simp: ended_def)

fun requested_card :: "private_key_config \<Rightarrow> string" where
  "requested_card (Smartcard i) = i"
| "requested_card _ = ''auto''"

text \<open>A configuration that is in order, and the run of the tunnel it leads to.\<close>

definition hands_over where
  "hands_over M soft hard K src rd content es s x s' config nets peers \<longleftrightarrow>
     from_file (rd_toml rd) (rd_codecs rd) content = Ok config
     \<and> if_address (c_interface config) \<noteq> []
     \<and> map (rd_net rd) (if_address (c_interface config)) = map Inr nets
     \<and> list_all2 (configured_as (rd_net rd)) (c_peers config) peers
     \<and> m_runtime M = Inr ()
     \<and> (let port = or_default 51820 (if_listen_port (c_interface config));
            mtu = or_default 1420 (if_mtu (c_interface config));
            dns = if_dns (c_interface config)
        in case if_private_key (c_interface config) of
             Software k \<Rightarrow> block_on_tunnel M soft k peers port nets mtu dns es s = Some (x, s')
           | _ \<Rightarrow> (\<exists>pin card.
               obtain_pin src (pin_entry (if_smartcard (c_interface config))) = Ok pin
               \<and> ready_card K (requested_card (if_private_key (c_interface config))) pin peers = Ok card
               \<and> block_on_tunnel M hard card peers port nets mtu dns es s = Some (x, s')))"

lemma run_smartcardE:
  assumes "run_smartcard M eng K src requested how peers port nets mtu dns es s = Some (x, s')"
  obtains (failed) y where "x = Some y" and "y \<noteq> ExitOk" and "s' = s"
  | (went_on) pin card where "obtain_pin src how = Ok pin" and "m_runtime M = Inr ()"
      and "ready_card K requested pin peers = Ok card"
      and "block_on_tunnel M eng card peers port nets mtu dns es s = Some (x, s')"
  using assms unfolding run_smartcard_def
  by (elim fail_withE) (auto simp: ended_def split: sum.splits elim: fail_withE)

lemma cmd_up_hands_over:
  assumes "cmd_up M soft hard K src rd content es s = Some (x, s')"
  shows "(s' = s \<and> (\<exists>y. x = Some y \<and> y \<noteq> ExitOk))
    \<or> (\<exists>config nets peers. hands_over M soft hard K src rd content es s x s' config nets peers)"
  using assms unfolding cmd_up_def
proof (cases rule: fail_withE)
  case (failed y)
  then show ?thesis by blast
next
  case (went_on config)
  let ?i = "c_interface config"
  note go = went_on(2) [unfolded Let_def]
  show ?thesis
  proof (cases "if_address ?i = []")
    case True
    with go show ?thesis by (auto simp: ended_def)
  next
    case False
    with go show ?thesis
    proof (simp only: if_False, elim fail_withE)
      fix nets peers
      assume nets: "parse_nets (rd_net rd) (if_address ?i) = Ok nets"
        and peers: "peers_of (rd_net rd) (c_peers config) = Ok peers"
        and run: "(case if_private_key ?i of
            Software key \<Rightarrow>
              (case m_runtime M of
                 Inl e \<Rightarrow> ended (ExitErr e) s
               | Inr _ \<Rightarrow> block_on_tunnel M soft key peers (or_default 51820 (if_listen_port ?i)) nets
                   (or_default 1420 (if_mtu ?i)) (if_dns ?i) es s)
          | Smartcard i \<Rightarrow>
              run_smartcard M hard K src i (pin_entry (if_smartcard ?i)) peers
                (or_default 51820 (if_listen_port ?i)) nets (or_default 1420 (if_mtu ?i)) (if_dns ?i) es s
          | SmartcardAuto \<Rightarrow>
              run_smartcard M hard K src ''auto'' (pin_entry (if_smartcard ?i)) peers
                (or_default 51820 (if_listen_port ?i)) nets (or_default 1420 (if_mtu ?i)) (if_dns ?i) es s)
          = Some (x, s')"
      note * = went_on(1) False nets [unfolded parse_nets_iff] peers [unfolded peers_of_iff]
      have "(s' = s \<and> (\<exists>y. x = Some y \<and> y \<noteq> ExitOk))
          \<or> hands_over M soft hard K src rd content es s x s' config nets peers"
        using run *
        by (cases "if_private_key ?i")
          (auto simp: hands_over_def Let_def ended_def split: sum.splits elim!: run_smartcardE)
      then show ?thesis by blast
    qed auto
  qed
qed

lemma hands_over_runs:
  assumes "hands_over M soft hard K src rd content es s x s' config nets peers"
  shows "cmd_up M soft hard K src rd content es s = Some (x, s')"
proof -
  note h = assms [unfolded hands_over_def Let_def]
  have p: "parse_nets (rd_net rd) (if_address (c_interface config)) = Ok nets"
      "peers_of (rd_net rd) (c_peers config) = Ok peers"
    using h by (simp_all add: parse_nets_iff peers_of_iff)
  show ?thesis
    using h p
    by (cases "if_private_key (c_interface config)")
      (auto simp: cmd_up_def run_smartcard_def Let_def)
qed

lemma hands_over_run:
  assumes "hands_over M soft hard K src rd content es s x s' config nets peers"
  obtains (soft) k where "block_on_tunnel M soft k peers (or_default 51820 (if_listen_port (c_interface config)))
      nets (or_default 1420 (if_mtu (c_interface config))) (if_dns (c_interface config)) es s = Some (x, s')"
  | (hard) crd where "block_on_tunnel M hard crd peers (or_default 51820 (if_listen_port (c_interface config)))
      nets (or_default 1420 (if_mtu (c_interface config))) (if_dns (c_interface config)) es s = Some (x, s')"
  using assms
  by (cases "if_private_key (c_interface config)") (auto simp: hands_over_def Let_def)

lemma apply_no_v6:
  "\<not> list_ex is_net_v6 nets \<Longrightarrow> snd (run_state (apply_ipv6_addrs run target net_str tun nets) s) = s"
  by (induction nets) (auto simp: case_prod_beta)

lemma before_guard_v4: "\<not> list_ex is_net_v6 nets \<Longrightarrow> before_guard env run target net_str nets mtu s = s"
  by (simp add: before_guard_def apply_no_v6 split: sum.split)

section \<open>A machine to run on\<close>

definition machine_demo ::
  "(host_world, nat, nat, bool list, nat radix, nat radix, bool list, nat radix, nat radix) machine" where
  "machine_demo = \<lparr>m_env = env_demo, m_trie4 = radix_api, m_trie6 = radix_api, m_net_str = net_bit_text,
     m_os = host_run, m_target = Linux, m_network = 0, m_runtime = Inr ()\<rparr>"

definition soft_demo :: "(key, nat, nat, nat, unit, nat) engine" where
  "soft_demo = \<lparr>e_core = \<lparr>from_oracle_async = (\<lambda>_. 1), insert_peer = (\<lambda>pk psk ep n. (n, Suc n)),
     sentinal = 0, new_sessions = (\<lambda>n. n)\<rparr>, e_api = api_demo\<rparr>"

definition hard_demo :: "((string \<times> nat, sim) card_handle, nat, nat, nat, unit, nat) engine" where
  "hard_demo = \<lparr>e_core = \<lparr>from_oracle_async = (\<lambda>_. 1), insert_peer = (\<lambda>pk psk ep n. (n, Suc n)),
     sentinal = 0, new_sessions = (\<lambda>n. n)\<rparr>, e_api = api_demo\<rparr>"

definition stack_demo :: "(string, string \<times> nat, string, sim) card_stack" where
  "stack_demo = \<lparr>k_pcsc = demo_api, k_spawned = Inr (), k_start = sim_start 0 3\<rparr>"

definition pins_demo :: pin_sources where
  "pins_demo = \<lparr>prompt_password = Inr ''1'', env_var = (\<lambda>_. Inl ''environment variable not found'')\<rparr>"

text \<open>A file with a software key, one address, and no peers.\<close>

definition readers_demo :: readers where
  "readers_demo = \<lparr>rd_toml = (\<lambda>_. Inr (TTable [(''interface'', TTable
        [(''private_key'', TString (replicate 32 CHR ''k'')), (''address'', TString ''10.0.0.1/24'')])])),
     rd_codecs = cod_demo, rd_show_parse = (\<lambda>_. []), rd_net = (\<lambda>_. Inr (NetV4 0x0A000001 24))\<rparr>"

abbreviation up_demo :: "event list \<Rightarrow> host_world ending" where
  "up_demo es \<equiv> cmd_up machine_demo soft_demo hard_demo stack_demo pins_demo readers_demo (Inr []) es host_demo"

definition config_up_demo :: config where
  "config_up_demo = \<lparr>c_interface = \<lparr>if_private_key = Software (replicate 32 (char_byte CHR ''k'')),
     if_listen_port = None, if_address = [''10.0.0.1/24''], if_mtu = None, if_dns = [],
     if_smartcard = default_smartcard_settings\<rparr>, c_peers = []\<rparr>"

lemma config_up_demo:
  "from_file (rd_toml readers_demo) (rd_codecs readers_demo) (Inr []) = Ok config_up_demo"
  by (simp add: from_file_def from_str_def readers_demo_def deserialize_config_def config_field_def
      set_once_def deserialize_interface_def interface_field_def no_interface_fields_def
      finish_interface_def required_def or_default_def visit_str_def cod_demo_def config_up_demo_def
      del: bind_outcome_Ok)

lemma up_demo_runs: "\<exists>s'. up_demo [SigInt] = Some (Some ExitOk, s')"
proof -
  have "cmd_up machine_demo soft_demo hard_demo stack_demo pins_demo readers_demo (Inr []) [SigInt] host_demo
    = block_on_tunnel machine_demo soft_demo (replicate 32 (char_byte CHR ''k'')) [] 51820
        [NetV4 0x0A000001 24] 1420 [] [SigInt] host_demo"
    unfolding cmd_up_def config_up_demo
    by (simp add: config_up_demo_def readers_demo_def machine_demo_def or_default_def Let_def)
  then show ?thesis
    by (simp add: block_on_tunnel_def run_tunnel_def start_tunnel_def build_sessions_def soft_demo_def
        machine_demo_def env_demo_def Let_def case_prod_beta)
qed

section \<open>Priming\<close>

lemma reaches_trans: "reaches P pin h h1 \<Longrightarrow> reaches P pin h1 h2 \<Longrightarrow> reaches P pin h h2"
  by (rotate_tac, induction rule: reaches.induct) (auto intro: reaches.step)

lemma reaches_prime:
  "run_state (prime_ss P pin pk) h = (r, h') \<Longrightarrow> reaches P pin h h'"
  using reaches.step [OF reaches.start, of P pin h "PrimeSs pk"] by simp

text \<open>A handle at rest: its thread lives and nothing is queued.\<close>

definition at_rest :: "('c, 'v) card_handle \<Rightarrow> bool" where
  "at_rest h \<longleftrightarrow> thread h \<noteq> None \<and> queue h = []"

lemma drain_rest: "thread h \<noteq> None \<Longrightarrow> at_rest (snd (run_state (drain P pin) h))"
  by (auto simp: drain_def at_rest_def split: prod.split)

lemma prime_rest:
  assumes "at_rest h" and "run_state (prime_ss P pin pk) h = (r, h')"
  shows "at_rest h'"
  using assms drain_rest [of "h\<lparr>queue := [Dh pk]\<rparr>" P pin]
  by (auto simp: prime_ss_def run_and_then dh_def try_send_def await_last_def at_rest_def
      MAX_HANDSHAKE_REQUEST_def split: prod.splits outcome.splits)

text \<open>What the card answers when the peer at an index is primed.\<close>

definition asked ::
  "('b, 'c, 't, 'v) pcsc \<Rightarrow> string \<Rightarrow> peer_config list \<Rightarrow> ('c, 'v) card_handle \<Rightarrow> nat
     \<Rightarrow> (smartcard_error, key) outcome" where
  "asked P pin peers h i =
     fst (run_state (dh P pin (pc_public_key (peers ! i))) (snd (run_state (prime_all P pin (take i peers)) h)))"

lemma prime_fills_cache:
  assumes "run_state (prime_ss P pin pk) h = (r, h')"
  shows "pk' \<in> dom (ss_cache h')
    \<longleftrightarrow> pk' \<in> dom (ss_cache h) \<or> pk' = pk \<and> (\<exists>k. fst (run_state (dh P pin pk) h) = Ok k)"
  using assms dh_cache [of P pin pk h]
  by (auto simp: prime_ss_def run_and_then split: prod.splits outcome.splits)

lemma prime_all_effect:
  assumes "run_state (prime_all P pin peers) h = (Ok (), h')" and "at_rest h"
  shows "reaches P pin h h' \<and> at_rest h'
    \<and> (pk \<in> dom (ss_cache h') \<longleftrightarrow> pk \<in> dom (ss_cache h)
         \<or> (\<exists>i<length peers. pc_public_key (peers ! i) = pk \<and> (\<exists>k. asked P pin peers h i = Ok k)))"
  using assms
proof (induction peers arbitrary: h)
  case Nil
  then show ?case by (auto intro: reaches.start)
next
  case (Cons p peers)
  obtain r h1 where one: "run_state (prime_ss P pin (pc_public_key p)) h = (r, h1)" by fastforce
  have go_on: "run_state (prime_all P pin (p # ps)) h = run_state (prime_all P pin ps) h1" for ps
    using Cons.prems(1) one by (cases r) auto
  have "asked P pin (p # peers) h (Suc i) = asked P pin peers h1 i" for i
    by (simp add: asked_def go_on del: prime_all.simps)
  moreover have "asked P pin (p # peers) h 0 = fst (run_state (dh P pin (pc_public_key p)) h)"
    by (simp add: asked_def)
  moreover note IH = Cons.IH [OF Cons.prems(1) [unfolded go_on] prime_rest [OF Cons.prems(2) one]]
  ultimately show ?case
    using reaches_trans [OF reaches_prime [OF one]]
    by (auto simp: Ex_less_Suc2 prime_fills_cache [OF one])
qed

lemma open_card_fresh:
  "open_card P spawned requested pin s = Ok h \<Longrightarrow> at_rest h \<and> ss_cache h = Map.empty"
  by (auto simp: open_card_def at_rest_def bind_outcome_Ok_iff split: prod.splits)

lemma pubkey_rest:
  assumes "at_rest h" and "run_state (async_x25519_pubkey P pin) h = (r, h')"
  shows "at_rest h'"
  using assms drain_rest [of "h\<lparr>queue := [PubKey]\<rparr>" P pin]
  by (auto simp: async_x25519_pubkey_def pubkey_def try_send_def await_last_def at_rest_def
      MAX_HANDSHAKE_REQUEST_def split: prod.splits)

lemma ready_cardE:
  assumes "ready_card K requested pin peers = Ok h"
  obtains h0 k h1 where "open_card (k_pcsc K) (k_spawned K) requested pin (k_start K) = Ok h0"
    and "run_state (async_x25519_pubkey (k_pcsc K) pin) h0 = (Ok k, h1)"
    and "run_state (prime_all (k_pcsc K) pin peers) h1 = (Ok (), h)"
proof -
  obtain h0 where h0: "open_card (k_pcsc K) (k_spawned K) requested pin (k_start K) = Ok h0"
    using assms by (auto simp: ready_card_def bind_outcome_Ok_iff)
  obtain r h1 where h1: "run_state (async_x25519_pubkey (k_pcsc K) pin) h0 = (r, h1)" by fastforce
  with assms h0 obtain k where k: "r = Ok k" by (cases r) (auto simp: ready_card_def run_and_then)
  with assms h0 h1 have "run_state (prime_all (k_pcsc K) pin peers) h1 = (Ok (), h)"
    by (auto simp: ready_card_def bind_outcome_Ok_iff run_and_then case_prod_beta prod_eq_iff)
  with h0 h1 k show ?thesis using that by blast
qed

definition card_peer_demo :: peer_config where
  "card_peer_demo = \<lparr>pc_public_key = pk_demo, pc_preshared_key = None, pc_endpoint = None,
     pc_allowed_ips = [], pc_persistent_keepalive = None\<rparr>"

lemma ready_demo:
  "\<exists>h. ready_card stack_demo ''a'' ''1'' [card_peer_demo] = Ok h
     \<and> ss_cache h pk_demo = Some ss_demo \<and> ident h = ''a''"
proof -
  have "case ready_card stack_demo ''a'' ''1'' [card_peer_demo] of
      Ok h \<Rightarrow> ss_cache h pk_demo = Some ss_demo \<and> ident h = ''a'' | _ \<Rightarrow> False"
    by code_simp
  then show ?thesis by (auto split: outcome.splits)
qed

section \<open>Properties\<close>

text \<open>C10: \<^verbatim>\<open>up\<close> touches nothing before everything is in order.  Unless it ends with an error or a panic
  and the operating system as it was, it has read a configuration with at least one address,
  every address and prefix of which parses, a runtime could be built, for a card a PIN was
  obtained and the card opened, and it ends as \<^verbatim>\<open>run_tunnel\<close> does on exactly these values, with
  port 51820 and MTU 1420 by default; and then it always does.\<close>

theorem up_runs_exactly_when_in_order:
  assumes "\<not> (s' = s \<and> (\<exists>y. x = Some y \<and> y \<noteq> ExitOk))"
  shows "cmd_up M soft hard K src rd content es s = Some (x, s')
    \<longleftrightarrow> (\<exists>config nets peers. hands_over M soft hard K src rd content es s x s' config nets peers)"
  using assms cmd_up_hands_over [of M soft hard K src rd content es s x s'] hands_over_runs
  by blast

theorem up_runs_exactly_when_in_order_witness:
  "\<exists>s' config nets peers. hands_over machine_demo soft_demo hard_demo stack_demo pins_demo readers_demo
     (Inr []) [SigInt] host_demo (Some ExitOk) s' config nets peers"
proof -
  obtain s' where run: "up_demo [SigInt] = Some (Some ExitOk, s')" using up_demo_runs by blast
  have "\<not> (s' = host_demo \<and> (\<exists>y. Some ExitOk = Some y \<and> y \<noteq> ExitOk))" by simp
  from up_runs_exactly_when_in_order [OF this] run show ?thesis by blast
qed

text \<open>C1: The whole program gives the machine back.  Over an operating system that keeps its contract,
  whatever the configuration file says, whatever card, PIN, sessions and network answer, and
  whatever events come, when \<^verbatim>\<open>smartguard up\<close> ends, the routing table is what it was, or what it
  was once the interface had the configured addresses; and a configuration without an IPv6
  address leaves no such difference.\<close>

theorem up_gives_routes_back:
  assumes "tunnel_os (m_os M) tbl key (m_target M) res"
    and "cmd_up M soft hard K src rd content es s = Some (Some x, s')"
  shows "tbl (world s') = tbl (world s)
    \<or> (\<exists>config nets. from_file (rd_toml rd) (rd_codecs rd) content = Ok config
        \<and> map (rd_net rd) (if_address (c_interface config)) = map Inr nets
        \<and> list_ex is_net_v6 nets
        \<and> tbl (world s') = tbl (world (before_guard (m_env M) (m_os M) (m_target M) (m_net_str M) nets
             (or_default 1420 (if_mtu (c_interface config))) s)))"
  using cmd_up_hands_over [OF assms(2)]
proof (elim disjE exE)
  fix config :: config and nets peers
  let ?before = "before_guard (m_env M) (m_os M) (m_target M) (m_net_str M) nets
     (or_default 1420 (if_mtu (c_interface config))) s"
  assume over: "hands_over M soft hard K src rd content es s (Some x) s' config nets peers"
  then have "tbl (world s') \<in> {tbl (world s), tbl (world ?before)}"
    by (cases rule: hands_over_run)
      (auto simp only: block_on_tunnel_def dest: tunnel_os.run_tunnel_table [OF assms(1)])
  moreover have "?before = s" if "\<not> list_ex is_net_v6 nets"
    using before_guard_v4 [OF that] .
  ultimately show ?thesis using over by (auto simp: hands_over_def)
qed simp

theorem up_gives_routes_back_witness:
  "\<exists>s'. up_demo [SigInt] = Some (Some ExitOk, s')
     \<and> rw_table (hw_routes (world s')) = rw_table (hw_routes (world host_demo))"
proof -
  obtain s' where run: "up_demo [SigInt] = Some (Some ExitOk, s')" using up_demo_runs by blast
  have os: "tunnel_os (m_os machine_demo) (\<lambda>w. rw_table (hw_routes w)) (\<lambda>k. k) (m_target machine_demo)
      hw_resolver"
    by (simp add: machine_demo_def host_linux.tunnel_os_axioms)
  have no_v6: "\<not> list_ex is_net_v6 nets"
    if "from_file (rd_toml readers_demo) (rd_codecs readers_demo) (Inr []) = Ok config"
      "map (rd_net readers_demo) (if_address (c_interface config)) = map Inr nets" for config :: config and nets
    using that unfolding config_up_demo
    by (auto simp: config_up_demo_def readers_demo_def is_net_v6_def)
  from up_gives_routes_back [OF os run] no_v6
  have "rw_table (hw_routes (world s')) = rw_table (hw_routes (world host_demo))" by blast
  with run show ?thesis by blast
qed

text \<open>C11: The handle the tunnel gets is ready.  Over a card stack that keeps its contract, the card
  opened is the one asked for, unless \<^verbatim>\<open>auto\<close> was, and has given its public key; its thread lives and
  nothing is queued.  Every configured peer was primed in the order of the configuration: the
  cache holds exactly the peers for which the card answered when their turn came, each with the
  shared secret of the card with that peer, which \<^verbatim>\<open>async_x25519\<close> answers without touching the card.\<close>

theorem ready_card_is_primed:
  assumes "openpgp (k_pcsc K) holder speaker ecdh"
    and "ready_card K requested pin peers = Ok h"
  shows "\<exists>h0 pub h1. open_card (k_pcsc K) (k_spawned K) requested pin (k_start K) = Ok h0
    \<and> run_state (async_x25519_pubkey (k_pcsc K) pin) h0 = (Ok pub, h1)
    \<and> (requested = ''auto'' \<or> requested = ident h) \<and> thread h \<noteq> None \<and> queue h = []
    \<and> (\<forall>pk. ss_cache h pk \<noteq> None \<longleftrightarrow>
          (\<exists>i<length peers. pc_public_key (peers ! i) = pk
             \<and> (\<exists>k. asked (k_pcsc K) pin peers h1 i = Ok k)))
    \<and> (\<forall>pk k. ss_cache h pk = Some k \<longrightarrow> k = ecdh (ident h) pk
          \<and> run_state (async_x25519 (k_pcsc K) pin pk) h = (Ok k, h))"
proof -
  let ?P = "k_pcsc K"
  obtain h0 h1 k where h0: "open_card ?P (k_spawned K) requested pin (k_start K) = Ok h0"
      and h1: "run_state (async_x25519_pubkey ?P pin) h0 = (Ok k, h1)"
      and h: "run_state (prime_all ?P pin peers) h1 = (Ok (), h)"
    using assms(2) by (rule ready_cardE)
  have start: "at_rest h0" "ss_cache h0 = Map.empty" using open_card_fresh [OF h0] by blast+
  have h1': "at_rest h1" "ss_cache h1 = Map.empty" "reaches ?P pin h0 h1"
    using pubkey_rest [OF start(1)] pubkey_cache [of ?P pin h0] start(2) h1
      reaches.step [OF reaches.start, of ?P pin h0 AskPubKey]
    by (auto simp: async_x25519_pubkey_def)
  note primed = prime_all_effect [OF h h1'(1)]
  note o = card_oracle.intro [OF assms(1)]
  have good: "good_handle holder (ecdh (ident h0)) (ident h0) h"
      and req: "requested = ''auto'' \<or> requested = ident h0"
    using card_oracle.open_good [OF o h0 refl] card_oracle.reaches_good [OF o]
      reaches_trans [OF h1'(3)] primed by blast+
  have "k' = ecdh (ident h) pk \<and> run_state (async_x25519 ?P pin pk) h = (Ok k', h)"
    if "ss_cache h pk = Some k'" for pk k'
    using good that by (auto simp: good_handle_def async_x25519_def)
  moreover have "ss_cache h pk \<noteq> None \<longleftrightarrow>
      (\<exists>i<length peers. pc_public_key (peers ! i) = pk \<and> (\<exists>k. asked ?P pin peers h1 i = Ok k))" for pk
    using primed [of pk] h1'(2) by (simp add: domIff)
  moreover have "ident h = ident h0" using good by (simp add: good_handle_def)
  moreover have "thread h \<noteq> None" "queue h = []" using primed by (simp_all add: at_rest_def)
  ultimately show ?thesis
    using h0 h1 req by (intro exI [of _ h0] exI [of _ k] exI [of _ h1]) simp
qed

theorem ready_card_is_primed_witness:
  "\<exists>h. ready_card stack_demo ''a'' ''1'' [card_peer_demo] = Ok h
     \<and> ss_cache h pk_demo \<noteq> None \<and> queue h = []
     \<and> run_state (async_x25519 demo_api ''1'' pk_demo) h = (Ok (take 32 (mix ''a'' pk_demo)), h)"
proof -
  obtain h where h: "ready_card stack_demo ''a'' ''1'' [card_peer_demo] = Ok h"
      "ss_cache h pk_demo = Some ss_demo" "ident h = ''a''"
    using ready_demo by blast
  have stack: "openpgp (k_pcsc stack_demo) fst (\<lambda>t. t) (\<lambda>i pk. take 32 (mix i pk))"
    by (simp add: stack_demo_def sim.openpgp_axioms)
  have "queue h = []" "run_state (async_x25519 (k_pcsc stack_demo) ''1'' pk_demo) h = (Ok ss_demo, h)"
      "ss_demo = take 32 (mix (ident h) pk_demo)"
    using ready_card_is_primed [OF stack h(1)] h(2) by blast+
  with h show ?thesis by (simp add: stack_demo_def)
qed

end
