(* ===== verification/Spec2Isabelle.thy ===== *)
theory Spec2Isabelle
  imports RouteProps TunnelLeak TunnelRelay TunnelFail CmdProps
begin

text \<open>
  A model of smartguard, a WireGuard client whose static key may live on an OpenPGP smartcard.

  \<^bold>\<open>The program.\<close>  \<^verbatim>\<open>smartguard up\<close> (\<^verbatim>\<open>smartguard/src/main.rs\<close>) reads a TOML file
  (\<^verbatim>\<open>config.rs\<close>), takes the private key from it or opens a card, and runs the tunnel
  (\<^verbatim>\<open>tunnel.rs\<close>).  The tunnel builds the sessions of the peers and the table from addresses to
  peers (\<^verbatim>\<open>smartguard-crypto/src/lib.rs\<close>, \<^verbatim>\<open>session/peer_net.rs\<close>), creates a TUN device, takes over
  routes (\<^verbatim>\<open>route.rs\<close>) and resolver (\<^verbatim>\<open>dns.rs\<close>), and then loops over timers, the UDP socket and the
  device (\<^verbatim>\<open>session/handle.rs\<close>) until a signal or an error; a guard gives routes and resolver back
  on every way out.  With a card, each shared secret a handshake needs is asked of a handle
  (\<^verbatim>\<open>card.rs\<close>) that passes it to a thread owning the card (\<^verbatim>\<open>thread.rs\<close>).

  \<^bold>\<open>The theories.\<close>
  \<^item> \<open>Prelude\<close>: results with errors and panics, the operating system as a logged world of
    commands, programs over it (\<open>keeps\<close>, \<open>grows\<close>), and the string and list functions of the
    standard library.  \<open>NetTypes\<close>: addresses, prefixes and their text.
  \<^item> \<open>Route\<close>: \<^verbatim>\<open>route.rs\<close>, one definition per function.  \<open>RouteLaws\<close>: what every installing
    function satisfies, once for all relations in the locale \<open>route_ops\<close>.  \<open>RouteKernel\<close>: the
    contracts of the kernel's table, \<open>route_table\<close>, where deletes may be refused, and \<open>route_kernel\<close>,
    where they are not, and who owns which entry.  \<open>RouteProps\<close>: set-up and clean-up, the order of
    bypasses, rechecking.
  \<^item> \<open>PeerNet\<close>: \<^verbatim>\<open>peer_net.rs\<close> and \<^verbatim>\<open>build_sessions\<close>, over tries that keep the locale \<open>dual_stack\<close>;
    the lookup is longest prefix match.  \<open>Packet\<close>: \<^verbatim>\<open>handle.rs\<close>, both directions.
  \<^item> \<open>CardThread\<close>, \<open>CardProps\<close>: \<^verbatim>\<open>thread.rs\<close>, over a card stack that keeps the locale \<open>openpgp\<close>.
    \<open>CardHandle\<close>, \<open>CardOracle\<close>: \<^verbatim>\<open>card.rs\<close>; the handle provides the contract \<open>dh_oracle\<close> of the
    handshakes, in every state it can reach.
  \<^item> \<open>Config\<close>, \<open>ConfigProps\<close>: \<^verbatim>\<open>config.rs\<close>; which values are accepted, from tables, positional
    arrays and dates, and that all of them are well-formed.
  \<^item> \<open>Dns\<close>: \<^verbatim>\<open>dns.rs\<close> and the contracts of a resolver: \<open>resolver_base\<close>, where a setting that fails
    may have been done by half, and \<open>resolver_os\<close>, where it then did nothing.
  \<^item> \<open>Tunnel\<close>: \<^verbatim>\<open>tunnel.rs\<close>; the \<^verbatim>\<open>select!\<close> loop consumes a list of events.  \<open>TunnelProps\<close>: the loop
    touches the operating system by rechecks only (\<open>kept_by_recheck\<close>), so whatever a recheck
    keeps holds to the end; instances for keys, routes and, in \<open>TunnelDns\<close>, the resolver.  Its
    contracts of the operating system, \<open>tunnel_base\<close> and \<open>tunnel_os\<close>, put those of the routes and the
    resolver together.  \<open>TunnelFail\<close>: what refused commands leave behind.  \<open>TunnelLeak\<close>: where both
    halves of a family that is to be captured lead while the tunnel runs.  \<open>TunnelLoop\<close>: the indices
    computed before the loop.  \<open>TunnelTick\<close>: what ticks and data packets send, when a tick ends, and
    that a signal takes the tunnel down.  \<open>TunnelRelay\<close>: the loop refines an
    abstract relay that knows of no operating system.
  \<^item> \<open>Cmd\<close>, \<open>CmdProps\<close>: \<^verbatim>\<open>main.rs\<close>; the composition of everything above.

  \<^bold>\<open>Parameters.\<close>  Code outside the repository enters as arguments: the sessions of
  \<^verbatim>\<open>rustyguard-core\<close> (\<open>core_api\<close>, \<open>sess_api\<close>), the tries (\<open>trie_api\<close>), the card stack (\<open>pcsc\<close>), the
  TUN platform, the socket, \<^verbatim>\<open>toml\<close>, \<^verbatim>\<open>base64\<close> and the address parsers (\<open>codecs\<close>, \<open>readers\<close>).  What is
  assumed of them stands in the locales named above or as a premise, and each such premise is
  discharged on a concrete instance in a witness.  That routes and resolver are given back exactly
  is stated over the stronger contracts; what remains when commands fail (C12), how a recheck
  follows the gateway (C20) and where the halves lead (C4) over the weaker ones.

  \<^bold>\<open>Termination.\<close>  The only loop whose length the program does not bound is the one that takes
  maintenance messages from the sessions (\<open>turn_all\<close>, a partial function); it returns exactly when
  some turn comes without a message (\<open>tick_drains_sessions\<close>), for instance when each message brings
  a measure of the sessions down (\<open>runs_dry\<close>).  Everything else is total.

  \<^bold>\<open>Time.\<close>  Durations and readings of the monotonic clock are in nanoseconds.  A tick brings one
  reading of it, taken after the sends, and a reading of the wall clock for each turn.

  \<^bold>\<open>Not modelled.\<close>  Messages on standard error, the parsing of the command line by \<^verbatim>\<open>clap\<close>, the
  zeroing of secrets, the module declarations and re-exports, the tests; the scheduling inside
  the asynchronous runtime, beyond the order in which branches of \<^verbatim>\<open>select!\<close> complete and which
  waiting calls are abandoned.
\<close>

end
